theory Spec2Isabelle
  imports Main "HOL-Library.Word"
begin

section \<open>Python exceptions\<close>

text \<open>
  Every \<open>raise\<close>, failed \<open>assert\<close> and library error of the two scripts is a value of
  this type; a function that can fail returns \<open>exn + 'a\<close> with \<open>Inl\<close> for the exception.
\<close>

datatype exn =
    AssertionError
  | ValueError
  | AttributeError
  | RuntimeError
  | IndexError
  | NameError
  | ZeroDivisionError
  | FileNotFoundError

section \<open>utils/preprocess\_data.py: reindex\<close>

text \<open>
  The dataframe built by \<open>preprocess\<close> has the columns \<open>u\<close>, \<open>i\<close>, \<open>ts\<close>, \<open>label\<close> and
  \<open>idx\<close>. It is modelled as the list of its rows; a column is the \<open>map\<close> of a field.
  The columns \<open>u\<close>, \<open>i\<close> and \<open>idx\<close> are pandas columns of type \<open>int64\<close>: 64-bit words
  read as signed numbers by \<open>sint\<close>, whose arithmetic wraps around. Timestamps and labels
  are floats that \<open>reindex\<close> only copies: their type is the parameter \<open>'f\<close>.
\<close>

type_synonym int64 = "64 word"

record 'f row =
  col_u :: int64
  col_i :: int64
  col_ts :: 'f
  col_label :: 'f
  col_idx :: int64

type_synonym 'f dataframe = "'f row list"

text \<open>\<open>series.max()\<close> and \<open>series.min()\<close> of an \<open>int64\<close> column: by the signed value.\<close>

definition series_max :: "int64 list \<Rightarrow> int64" where
  "series_max xs = word_of_int (Max (set (map sint xs)))"

definition series_min :: "int64 list \<Rightarrow> int64" where
  "series_min xs = word_of_int (Min (set (map sint xs)))"

text \<open>
  \<open>series.max() - series.min() + 1 == len(series.unique())\<close>. The left-hand side is
  computed in \<open>int64\<close>, the comparison with the length is by value. On an empty column
  pandas gives \<open>nan\<close> for \<open>max\<close> and \<open>min\<close>, and \<open>nan == 0\<close> is false.
\<close>

definition range_check :: "int64 list \<Rightarrow> bool" where
  "range_check xs =
     (xs \<noteq> [] \<and> sint (series_max xs - series_min xs + 1) = int (length (remdups xs)))"

text \<open>
  \<open>reindex\<close>. \<open>df.u.max() + 1\<close>, \<open>df.i + upper_u\<close> and the three \<open>+= 1\<close> are additions of
  \<open>int64\<close>.
\<close>

definition reindex :: "'f dataframe \<Rightarrow> bool \<Rightarrow> exn + 'f dataframe" where
  "reindex df bipartite =
     (if bipartite then
        (if \<not> range_check (map col_u df) then Inl AssertionError
         else if \<not> range_check (map col_i df) then Inl AssertionError
         else
           (let upper_u = series_max (map col_u df) + 1 in
            Inr (map (\<lambda>r. r\<lparr>col_u := col_u r + 1,
                              col_i := (col_i r + upper_u) + 1,
                              col_idx := col_idx r + 1\<rparr>) df)))
      else
        Inr (map (\<lambda>r. r\<lparr>col_u := col_u r + 1,
                          col_i := col_i r + 1,
                          col_idx := col_idx r + 1\<rparr>) df))"

text \<open>
  The precondition in the words of the specification: the ids of a column, as integers,
  form a contiguous integer range, that is, a non-empty interval.
\<close>

definition ids :: "int64 list \<Rightarrow> int list" where
  "ids xs = map sint xs"

definition contiguous :: "int list \<Rightarrow> bool" where
  "contiguous xs = (xs \<noteq> [] \<and> set xs = {Min (set xs) .. Max (set xs)})"

section \<open>train\_self\_supervised.py: the inductive experiments\<close>

subsection \<open>Selecting the nodes to exclude\<close>

text \<open>
  \<open>int(nb_nodes * 0.3)\<close> and \<open>int(nb_nodes * 0.5)\<close>: the product with the fraction
  \<open>num / den\<close>, truncated towards zero as Python's \<open>int\<close> does. The product is a float in
  the source; it is taken exactly here, which agrees with the float for every node count
  below \<open>2 ^ 50\<close>.
\<close>

definition int_of_product :: "int \<Rightarrow> int \<Rightarrow> int \<Rightarrow> int" where
  "int_of_product n num den =
     (if 0 \<le> n then (n * num) div den else - ((- n * num) div den))"

text \<open>
  \<open>random.sample(population, k)\<close> raises \<open>ValueError\<close> unless \<open>0 \<le> k \<le> len(population)\<close>.
  What it draws comes from the process random source \<open>rng\<close>, a parameter of the model; a
  population (a Python set, which the versions of Python before 3.11 accept here) is the
  list of its elements. \<open>is_sample\<close> says what the library promises of a draw: \<open>k\<close>
  distinct elements of the population.
\<close>

definition random_sample :: "(int list \<Rightarrow> nat \<Rightarrow> int list) \<Rightarrow> int list \<Rightarrow> int \<Rightarrow> exn + int list" where
  "random_sample rng population k =
     (if 0 \<le> k \<and> k \<le> int (length population) then Inr (rng population (nat k))
      else Inl ValueError)"

definition is_sample :: "int list \<Rightarrow> int \<Rightarrow> int list \<Rightarrow> bool" where
  "is_sample population k s =
     (int (length s) = k \<and> distinct s \<and> set s \<subseteq> set population)"

text \<open>
  \<open>sample[: len(vals)] = torch.tensor(vals)\<close>. The slice has \<open>min(len(vals), len(sample))\<close>
  places. Values of the same number are copied in; a single value is broadcast to the slice,
  which can only be the empty one here; any other mismatch is torch's \<open>RuntimeError\<close>.
\<close>

definition assign_prefix :: "int list \<Rightarrow> int list \<Rightarrow> exn + int list" where
  "assign_prefix sample vals =
     (if length vals \<le> length sample then Inr (vals @ drop (length vals) sample)
      else if length vals = 1 then Inr sample
      else Inl RuntimeError)"

text \<open>
  \<open>compute_inductive_nodes\<close>. The tag is \<open>args.exp\<close>: a string, or Python's \<open>None\<close> when the
  option is not given (which is not the string \<open>"None"\<close>). \<open>malicious_src_nodes\<close> is the
  global the function reads. The result \<open>None\<close> of the first branch is \<open>Inr None\<close>.
\<close>

definition compute_inductive_nodes ::
    "(int list \<Rightarrow> nat \<Rightarrow> int list) \<Rightarrow> int list \<Rightarrow> string option \<Rightarrow> int \<Rightarrow> exn + int list option" where
  "compute_inductive_nodes rng malicious_src_nodes inductive_experiment nb_nodes =
     (if inductive_experiment = Some ''None'' then Inr None
      else if inductive_experiment = Some ''Exp1'' then
        (let percent = int_of_product nb_nodes 3 10;
             available_nodes = filter (\<lambda>x. x \<notin> set malicious_src_nodes) [1 .. nb_nodes - 1]
         in case random_sample rng available_nodes percent of
              Inl e \<Rightarrow> Inl e
            | Inr sample \<Rightarrow> Inr (Some sample))
      else if inductive_experiment = Some ''Exp2'' then
        (let percent = int_of_product nb_nodes 3 10;
             available_nodes = [1 .. nb_nodes - 1]
         in case random_sample rng available_nodes percent of
              Inl e \<Rightarrow> Inl e
            | Inr sample \<Rightarrow>
                (case assign_prefix sample malicious_src_nodes of
                   Inl e \<Rightarrow> Inl e
                 | Inr sample' \<Rightarrow> Inr (Some sample')))
      else if inductive_experiment = Some ''Exp3'' then
        (let percent = int_of_product nb_nodes 1 2;
             available_nodes = [1 .. nb_nodes - 1]
         in case random_sample rng available_nodes percent of
              Inl e \<Rightarrow> Inl e
            | Inr sample \<Rightarrow>
                (case assign_prefix sample malicious_src_nodes of
                   Inl e \<Rightarrow> Inl e
                 | Inr sample' \<Rightarrow> Inr (Some sample')))
      else Inl ValueError)"

subsection \<open>Removing the edges of the excluded nodes\<close>

text \<open>
  An edge split is the \<open>Data\<close> object of five parallel numpy arrays of one dimension, as
  \<open>get_data\<close> builds it. Timestamps and labels are floats that the script only moves around;
  their type is the parameter \<open>'f\<close>.
\<close>

record 'f data =
  sources :: "int list"
  destinations :: "int list"
  timestamps :: "'f list"
  edge_idxs :: "int list"
  labels :: "'f list"

text \<open>\<open>(torch.tensor(xs).unsqueeze(1) == sample).any(1)\<close>: which entries occur in the sample.\<close>

definition any_eq :: "int list \<Rightarrow> int list \<Rightarrow> bool list" where
  "any_eq xs sample = map (\<lambda>x. x \<in> set sample) xs"

text \<open>
  \<open>a | b\<close> on one-dimensional boolean tensors: elementwise, a tensor of one element being
  broadcast, any other mismatch of sizes a \<open>RuntimeError\<close>.
\<close>

definition tensor_or :: "bool list \<Rightarrow> bool list \<Rightarrow> exn + bool list" where
  "tensor_or a b =
     (if length a = length b then Inr (map (\<lambda>(x, y). x \<or> y) (zip a b))
      else if length a = 1 then Inr (map (\<lambda>y. hd a \<or> y) b)
      else if length b = 1 then Inr (map (\<lambda>x. x \<or> hd b) a)
      else Inl RuntimeError)"

text \<open>
  The value of a numpy indexing expression: an array of one dimension, or a scalar without
  dimension.
\<close>

datatype 'a ndarray = Array "'a list" | Scalar 'a

text \<open>
  \<open>array[keep]\<close>, where \<open>array\<close> is a numpy array of one dimension and \<open>keep\<close> a torch
  tensor of booleans. numpy first asks the index for an integer, and a tensor of exactly
  one element answers with it (\<open>False\<close> is 0, \<open>True\<close> is 1): the result is then the entry at
  that position, as a scalar, or \<open>IndexError\<close> when there is no such position. A tensor
  without elements is taken as an empty list of positions, whatever the length of the
  array. Any other tensor is a boolean mask: the entries at the true places, in order, and
  \<open>IndexError\<close> when the mask is not as long as the array.
\<close>

definition mask_index :: "'a list \<Rightarrow> bool list \<Rightarrow> exn + 'a ndarray" where
  "mask_index xs keep =
     (if keep = [] then Inr (Array [])
      else if length keep = 1 then
        (let n = (if hd keep then 1 else 0) in
         if n < length xs then Inr (Scalar (xs ! n)) else Inl IndexError)
      else if length keep = length xs then Inr (Array (map fst (filter snd (zip xs keep))))
      else Inl IndexError)"

text \<open>
  The five attributes of the \<open>Data\<close> object after lines 170 to 174 have assigned them.
\<close>

record 'f indexed_data =
  new_sources :: "int ndarray"
  new_destinations :: "int ndarray"
  new_labels :: "'f ndarray"
  new_timestamps :: "'f ndarray"
  new_edge_idxs :: "int ndarray"

text \<open>
  \<open>apply_inductive_experiment\<close>. With \<open>inductive_nodes = None\<close> the comparison
  \<open>tensor == None\<close> is the Python boolean \<open>False\<close>, and \<open>False.any(1)\<close> raises
  \<open>AttributeError\<close>. The five assignments run in the order of the source, each indexing
  with the \<open>keep_edges\<close> computed before them.
\<close>

definition apply_inductive_experiment :: "'f data \<Rightarrow> int list option \<Rightarrow> exn + 'f indexed_data" where
  "apply_inductive_experiment d inductive_nodes =
     (case inductive_nodes of
        None \<Rightarrow> Inl AttributeError
      | Some sample \<Rightarrow>
          (case tensor_or (any_eq (sources d) sample) (any_eq (destinations d) sample) of
             Inl e \<Rightarrow> Inl e
           | Inr edge_mask \<Rightarrow>
               (let keep_edges = map Not edge_mask in
                case mask_index (sources d) keep_edges of Inl e \<Rightarrow> Inl e | Inr srcs \<Rightarrow>
                case mask_index (destinations d) keep_edges of Inl e \<Rightarrow> Inl e | Inr dsts \<Rightarrow>
                case mask_index (labels d) keep_edges of Inl e \<Rightarrow> Inl e | Inr lbls \<Rightarrow>
                case mask_index (timestamps d) keep_edges of Inl e \<Rightarrow> Inl e | Inr tss \<Rightarrow>
                case mask_index (edge_idxs d) keep_edges of Inl e \<Rightarrow> Inl e | Inr idxs \<Rightarrow>
                  Inr \<lparr>new_sources = srcs, new_destinations = dsts, new_labels = lbls,
                       new_timestamps = tss, new_edge_idxs = idxs\<rparr>)))"

text \<open>The globals of lines 178 to 182 and the two statements that prepare the training split.\<close>

definition OPTC_MALICIOUS_SRC_NODES :: "int list" where
  "OPTC_MALICIOUS_SRC_NODES = [201, 402, 501]"

definition LANL_MALICIOUS_SRC_NODES :: "int list" where
  "LANL_MALICIOUS_SRC_NODES = [9660, 9910, 10957, 12637]"

definition malicious_src_nodes :: "string \<Rightarrow> int list" where
  "malicious_src_nodes args_data =
     (if args_data = ''OPTC'' then OPTC_MALICIOUS_SRC_NODES else LANL_MALICIOUS_SRC_NODES)"

definition nb_nodes :: "string \<Rightarrow> int" where
  "nb_nodes args_data = (if args_data = ''OPTC'' then 975 else 15611)"

definition prepare_train_data ::
    "(int list \<Rightarrow> nat \<Rightarrow> int list) \<Rightarrow> int list \<Rightarrow> string option \<Rightarrow> int \<Rightarrow> 'f data \<Rightarrow>
       exn + 'f indexed_data" where
  "prepare_train_data rng malicious args_exp n train_data =
     (case compute_inductive_nodes rng malicious args_exp n of
        Inl e \<Rightarrow> Inl e
      | Inr inductive_nodes \<Rightarrow> apply_inductive_experiment train_data inductive_nodes)"

text \<open>
  The properties of an edge split that the specification speaks of: the arrays are aligned,
  and the edges are the tuples read across them.
\<close>

definition aligned :: "'f data \<Rightarrow> bool" where
  "aligned d =
     (length (destinations d) = length (sources d) \<and>
      length (timestamps d) = length (sources d) \<and>
      length (labels d) = length (sources d) \<and>
      length (edge_idxs d) = length (sources d))"

definition edges :: "'f data \<Rightarrow> (int \<times> int \<times> 'f \<times> 'f \<times> int) list" where
  "edges d =
     zip (sources d) (zip (destinations d) (zip (timestamps d) (zip (labels d) (edge_idxs d))))"

definition touches :: "int list \<Rightarrow> (int \<times> int \<times> 'f \<times> 'f \<times> int) \<Rightarrow> bool" where
  "touches excluded e = (fst e \<in> set excluded \<or> fst (snd e) \<in> set excluded)"


section \<open>train\_self\_supervised.py: one training run\<close>

subsection \<open>The collaborators\<close>

text \<open>
  The model, the optimizer, the samplers, the evaluator, the early-stop monitor and the clock
  live outside the script. Their state is the \<open>world\<close>: the node memory, which
  the script reads and writes itself, the neighbor finder it binds, and everything else
  (\<open>ext\<close>: parameters, optimizer and sampler state, the monitor's counters, the time).
\<close>

datatype finder = TrainFinder | FullFinder

datatype split = ValData | NewNodeValData | NewNodeTestData

record ('w, 'm) world =
  ext :: 'w
  memory :: 'm
  neighbor_finder :: finder

text \<open>
  What \<open>eval_edge_prediction\<close> returns. Of its nine results the script keeps the AP and the
  threshold; the AUC stands for the seven that are only logged.
\<close>

record 'f eval_result =
  res_ap :: 'f
  res_auc :: 'f
  res_threshold :: 'f

text \<open>
  The behaviour of the collaborators is a parameter of the model, one field per call:
  \<^item> \<open>mem_zero\<close>: the memory as \<open>__init_memory__\<close> leaves it;
  \<^item> \<open>train_batch\<close>: lines 293 to 304 on the four slices of a batch (negative sampling,
    \<open>tgn.train()\<close>, \<open>compute_edge_probabilities\<close>, the two criteria): the loss term,
    when the criteria accept the shapes;
  \<^item> \<open>backward_step\<close>: lines 306 to 310 on the terms added to \<open>loss\<close>: the division by
    \<open>backprop_every\<close>, \<open>loss.backward()\<close>, \<open>optimizer.step()\<close>, and \<open>loss.item()\<close>;
  \<^item> \<open>early_stop_check\<close> and \<open>best_epoch\<close>: the monitor, which has no access to the memory;
  \<^item> \<open>load_state_dict\<close>: lines 400 to 402, from the checkpoint read and the live state;
  \<^item> \<open>time_time\<close> reads the clock, \<open>float_sub\<close> subtracts floats, \<open>np_mean\<close> averages.
\<close>

record ('w, 'm, 'f) collab =
  mem_zero :: 'm
  train_batch :: "int list \<times> int list \<times> int list \<times> 'f list \<Rightarrow> ('w, 'm) world \<Rightarrow> 'f \<times> ('w, 'm) world"
  backward_step :: "'f list \<Rightarrow> int \<Rightarrow> ('w, 'm) world \<Rightarrow> 'f \<times> ('w, 'm) world"
  np_mean :: "'f list \<Rightarrow> 'f"
  eval_edge_prediction :: "split \<Rightarrow> ('w, 'm) world \<Rightarrow> 'f eval_result \<times> ('w, 'm) world"
  eval_edge_detection :: "'f \<Rightarrow> ('w, 'm) world \<Rightarrow> ('w, 'm) world"
  early_stop_check :: "'f \<Rightarrow> 'w \<Rightarrow> bool \<times> 'w"
  best_epoch :: "'w \<Rightarrow> int"
  load_state_dict :: "('w, 'm) world \<Rightarrow> ('w, 'm) world \<Rightarrow> ('w, 'm) world"
  time_time :: "'w \<Rightarrow> 'f"
  float_sub :: "'f \<Rightarrow> 'f \<Rightarrow> 'f"

subsection \<open>The memory operations\<close>

text \<open>
  Modelled from the spec: \<open>__init_memory__\<close> of the model's memory object, whose module is
  not among the sources. It zero-fills all node memory vectors and clears the pending
  messages; \<open>mem_zero\<close> is the memory in that state.
\<close>

definition init_memory :: "('w, 'm, 'f) collab \<Rightarrow> 'm \<Rightarrow> 'm" where
  "init_memory ops m = mem_zero ops"

text \<open>
  Modelled from the spec: \<open>backup_memory\<close> of the memory object (module not among the
  sources). It deep-copies the current memory state and does not change the live state;
  the snapshot is the value of the memory.
\<close>

definition backup_memory :: "'m \<Rightarrow> 'm" where
  "backup_memory m = m"

text \<open>
  Modelled from the spec: \<open>restore_memory\<close> of the memory object (module not among the
  sources). It replaces the live memory state with the snapshot's contents.
\<close>

definition restore_memory :: "'m \<Rightarrow> 'm \<Rightarrow> 'm" where
  "restore_memory snapshot m = snapshot"

text \<open>
  Modelled from the spec: \<open>detach_memory\<close> of the memory object (module not among the
  sources). It severs the gradient history and preserves the numeric values, which are all
  that \<open>'m\<close> holds.
\<close>

definition detach_memory :: "'m \<Rightarrow> 'm" where
  "detach_memory m = m"

subsection \<open>The state of the script\<close>

text \<open>
  The calls of the script on its collaborators and on the file system are logged, in order,
  in a trace. A training batch is logged with its index, its bounds and its four slices, an
  evaluation with the threshold it returns or is given.
\<close>

datatype slot = TrainMemory | ValMemory

datatype 'f event =
    InitMemory
  | TrainBatch int int int "int list \<times> int list \<times> int list \<times> 'f list"
  | OptimizerStep
  | DetachMemory
  | BackupMemory slot
  | RestoreMemory slot
  | EvalEdgePrediction split 'f
  | PickleDump
  | LoadStateDict int
  | SaveCheckpoint int
  | EvalEdgeDetection 'f
  | SaveModel

text \<open>The dictionary that \<open>pickle.dump\<close> writes to \<open>results_path\<close>.\<close>

record 'f results =
  saved_val_aps :: "'f list"
  saved_new_nodes_val_aps :: "'f list"
  saved_train_losses :: "'f list"
  saved_epoch_times :: "'f list"
  saved_total_epoch_times :: "'f list"

record config =
  BATCH_SIZE :: int
  NUM_EPOCH :: int
  backprop_every :: int
  USE_MEMORY :: bool

text \<open>
  The variables of the script and the files it writes. A variable that is unbound until its
  first assignment is an option; \<open>loss\<close> is the list of the terms added to it since
  \<open>loss = 0\<close>.
\<close>

record ('w, 'm, 'f) state =
  world :: "('w, 'm) world"
  trace :: "'f event list"
  new_nodes_val_aps :: "'f list"
  val_aps :: "'f list"
  epoch_times :: "'f list"
  total_epoch_times :: "'f list"
  train_losses :: "'f list"
  m_loss :: "'f list"
  loss :: "'f list"
  train_memory_backup :: "'m option"
  val_memory_backup :: "'m option"
  thresholdOpt :: "'f option"
  results_file :: "'f results option"
  checkpoints :: "int \<rightharpoonup> ('w, 'm) world"
  model_file :: "('w, 'm) world option"

definition log :: "'f event \<Rightarrow> ('w, 'm, 'f) state \<Rightarrow> ('w, 'm, 'f) state" where
  "log e st = st\<lparr>trace := trace st @ [e]\<rparr>"

definition set_memory :: "'m \<Rightarrow> ('w, 'm, 'f) state \<Rightarrow> ('w, 'm, 'f) state" where
  "set_memory m st = st\<lparr>world := (world st)\<lparr>memory := m\<rparr>\<rparr>"

definition set_neighbor_finder :: "finder \<Rightarrow> ('w, 'm, 'f) state \<Rightarrow> ('w, 'm, 'f) state" where
  "set_neighbor_finder nf st = st\<lparr>world := (world st)\<lparr>neighbor_finder := nf\<rparr>\<rparr>"

text \<open>The four statements on \<open>tgn.memory\<close>; a restore reads the variable of its snapshot.\<close>

definition do_init_memory :: "('w, 'm, 'f) collab \<Rightarrow> ('w, 'm, 'f) state \<Rightarrow> ('w, 'm, 'f) state" where
  "do_init_memory ops st = log InitMemory (set_memory (init_memory ops (memory (world st))) st)"

definition do_detach_memory :: "('w, 'm, 'f) state \<Rightarrow> ('w, 'm, 'f) state" where
  "do_detach_memory st = log DetachMemory (set_memory (detach_memory (memory (world st))) st)"

definition do_backup_memory :: "slot \<Rightarrow> ('w, 'm, 'f) state \<Rightarrow> ('w, 'm, 'f) state" where
  "do_backup_memory sl st =
     log (BackupMemory sl)
       (case sl of
          TrainMemory \<Rightarrow> st\<lparr>train_memory_backup := Some (backup_memory (memory (world st)))\<rparr>
        | ValMemory \<Rightarrow> st\<lparr>val_memory_backup := Some (backup_memory (memory (world st)))\<rparr>)"

definition do_restore_memory :: "slot \<Rightarrow> ('w, 'm, 'f) state \<Rightarrow> exn + ('w, 'm, 'f) state" where
  "do_restore_memory sl st =
     (case (case sl of TrainMemory \<Rightarrow> train_memory_backup st | ValMemory \<Rightarrow> val_memory_backup st) of
        None \<Rightarrow> Inl NameError
      | Some snapshot \<Rightarrow>
          Inr (log (RestoreMemory sl) (set_memory (restore_memory snapshot (memory (world st))) st)))"

subsection \<open>The training loop of an epoch\<close>

text \<open>\<open>math.ceil(a / b)\<close>, the quotient taken exactly; \<open>b = 0\<close> is checked by the caller.\<close>

definition ceil_div :: "int \<Rightarrow> int \<Rightarrow> int" where
  "ceil_div a b = - ((- a) div b)"

text \<open>\<open>range(start, stop, step)\<close> as the list of its members.\<close>

definition py_range :: "int \<Rightarrow> int \<Rightarrow> int \<Rightarrow> exn + int list" where
  "py_range start stop step =
     (if step = 0 then Inl ValueError
      else if 0 < step then
        Inr (map (\<lambda>n. start + int n * step) [0 ..< nat ((stop - start + step - 1) div step)])
      else
        Inr (map (\<lambda>n. start + int n * step) [0 ..< nat ((start - stop - step - 1) div (- step))]))"

text \<open>\<open>xs[a:b]\<close>: a negative bound counts from the end, and both are clipped to the array.\<close>

definition slice_bound :: "nat \<Rightarrow> int \<Rightarrow> nat" where
  "slice_bound n a = (if a < 0 then nat (int n + a) else min n (nat a))"

definition py_slice :: "'a list \<Rightarrow> int \<Rightarrow> int \<Rightarrow> 'a list" where
  "py_slice xs a b =
     take (slice_bound (length xs) b - slice_bound (length xs) a)
          (drop (slice_bound (length xs) a) xs)"

text \<open>
  The body of the loop over \<open>j\<close> (lines 281 to 304). The model returns the probabilities of
  a batch as a column of \<open>size\<close> rows, from which \<open>squeeze()\<close> removes every dimension of
  length one: for a batch of one edge no dimension is left, the label vector still has
  one, and the criterion of line 304 raises \<open>ValueError\<close>.
\<close>

definition batch_step ::
    "('w, 'm, 'f) collab \<Rightarrow> config \<Rightarrow> 'f data \<Rightarrow> int \<Rightarrow> int \<Rightarrow> ('w, 'm, 'f) state \<Rightarrow> int \<Rightarrow>
       exn + ('w, 'm, 'f) state" where
  "batch_step ops cfg train_data num_batch k st j =
     (let batch_idx = k + j in
      if batch_idx \<ge> num_batch then Inr st
      else
        (let num_instance = int (length (sources train_data));
             start_idx = batch_idx * BATCH_SIZE cfg;
             end_idx = min num_instance (start_idx + BATCH_SIZE cfg);
             batch = (py_slice (sources train_data) start_idx end_idx,
                      py_slice (destinations train_data) start_idx end_idx,
                      py_slice (edge_idxs train_data) start_idx end_idx,
                      py_slice (timestamps train_data) start_idx end_idx);
             size = length (fst batch);
             (term, w) = train_batch ops batch (world st)
         in if size = 1 then Inl ValueError
            else Inr (log (TrainBatch batch_idx start_idx end_idx batch)
                        (st\<lparr>world := w, loss := loss st @ [term]\<rparr>))))"

text \<open>The loop over \<open>j\<close>, which an exception leaves.\<close>

fun batch_steps ::
    "('w, 'm, 'f) collab \<Rightarrow> config \<Rightarrow> 'f data \<Rightarrow> int \<Rightarrow> int \<Rightarrow> int list \<Rightarrow> ('w, 'm, 'f) state \<Rightarrow>
       exn + ('w, 'm, 'f) state" where
  "batch_steps ops cfg train_data num_batch k [] st = Inr st"
| "batch_steps ops cfg train_data num_batch k (j # js) st =
     (case batch_step ops cfg train_data num_batch k st j of
        Inl e \<Rightarrow> Inl e
      | Inr st' \<Rightarrow> batch_steps ops cfg train_data num_batch k js st')"

text \<open>
  The body of the loop over \<open>k\<close> (lines 276 to 315). When no batch of the group ran,
  \<open>loss\<close> is still a number, and \<open>loss.backward()\<close> raises \<open>AttributeError\<close>.
\<close>

definition train_group ::
    "('w, 'm, 'f) collab \<Rightarrow> config \<Rightarrow> 'f data \<Rightarrow> int \<Rightarrow> int \<Rightarrow> ('w, 'm, 'f) state \<Rightarrow> exn + ('w, 'm, 'f) state" where
  "train_group ops cfg train_data num_batch k st =
     (case batch_steps ops cfg train_data num_batch k [0 .. backprop_every cfg - 1]
             (st\<lparr>loss := []\<rparr>) of
        Inl e \<Rightarrow> Inl e
      | Inr st1 \<Rightarrow>
          if loss st1 = [] then Inl AttributeError
          else
            (let (l, w) = backward_step ops (loss st1) (backprop_every cfg) (world st1);
                 st2 = log OptimizerStep (st1\<lparr>world := w, m_loss := m_loss st1 @ [l]\<rparr>)
             in Inr (if USE_MEMORY cfg then do_detach_memory st2 else st2)))"

fun train_groups ::
    "('w, 'm, 'f) collab \<Rightarrow> config \<Rightarrow> 'f data \<Rightarrow> int \<Rightarrow> int list \<Rightarrow> ('w, 'm, 'f) state \<Rightarrow> exn + ('w, 'm, 'f) state" where
  "train_groups ops cfg train_data num_batch [] st = Inr st"
| "train_groups ops cfg train_data num_batch (k # ks) st =
     (case train_group ops cfg train_data num_batch k st of
        Inl e \<Rightarrow> Inl e
      | Inr st' \<Rightarrow> train_groups ops cfg train_data num_batch ks st')"

text \<open>Lines 262 to 315: the training part of an epoch.\<close>

definition train_epoch ::
    "('w, 'm, 'f) collab \<Rightarrow> config \<Rightarrow> 'f data \<Rightarrow> int \<Rightarrow> ('w, 'm, 'f) state \<Rightarrow> exn + ('w, 'm, 'f) state" where
  "train_epoch ops cfg train_data num_batch st =
     (let st1 = (if USE_MEMORY cfg then do_init_memory ops st else st);
          st2 = (set_neighbor_finder TrainFinder st1)\<lparr>m_loss := []\<rparr>
      in case py_range 0 num_batch (backprop_every cfg) of
           Inl e \<Rightarrow> Inl e
         | Inr ks \<Rightarrow> train_groups ops cfg train_data num_batch ks st2)"

subsection \<open>Validation and the results of an epoch\<close>

definition do_eval_edge_prediction ::
    "('w, 'm, 'f) collab \<Rightarrow> split \<Rightarrow> ('w, 'm, 'f) state \<Rightarrow> 'f eval_result \<times> ('w, 'm, 'f) state" where
  "do_eval_edge_prediction ops sp st =
     (let (r, w) = eval_edge_prediction ops sp (world st)
      in (r, log (EvalEdgePrediction sp (res_threshold r))
               (st\<lparr>world := w, thresholdOpt := Some (res_threshold r)\<rparr>)))"

text \<open>
  Lines 259 to 335: an epoch up to the end of the validation on seen nodes. The results are
  the start time, the result of the evaluation and the state.
\<close>

definition train_and_validate ::
    "('w, 'm, 'f) collab \<Rightarrow> config \<Rightarrow> 'f data \<Rightarrow> int \<Rightarrow> ('w, 'm, 'f) state \<Rightarrow>
       exn + ('f \<times> 'f eval_result \<times> ('w, 'm, 'f) state)" where
  "train_and_validate ops cfg train_data num_batch st =
     (let start_epoch = time_time ops (ext (world st)) in
      case train_epoch ops cfg train_data num_batch st of
        Inl e \<Rightarrow> Inl e
      | Inr st1 \<Rightarrow>
          (let epoch_time = float_sub ops (time_time ops (ext (world st1))) start_epoch;
               st2 = st1\<lparr>epoch_times := epoch_times st1 @ [epoch_time]\<rparr>;
               st3 = set_neighbor_finder FullFinder st2;
               st4 = (if USE_MEMORY cfg then do_backup_memory TrainMemory st3 else st3);
               (val_r, st5) = do_eval_edge_prediction ops ValData st4
           in Inr (start_epoch, val_r, st5)))"

text \<open>Lines 342 to 357: the validation on unseen nodes, between the two restores.\<close>

definition validate_new_nodes ::
    "('w, 'm, 'f) collab \<Rightarrow> config \<Rightarrow> ('w, 'm, 'f) state \<Rightarrow> exn + ('f eval_result \<times> ('w, 'm, 'f) state)" where
  "validate_new_nodes ops cfg st =
     (case (if USE_MEMORY cfg then do_restore_memory TrainMemory (do_backup_memory ValMemory st)
            else Inr st) of
        Inl e \<Rightarrow> Inl e
      | Inr st1 \<Rightarrow>
          (let (nn_val_r, st2) = do_eval_edge_prediction ops NewNodeValData st1
           in case (if USE_MEMORY cfg then do_restore_memory ValMemory st2 else Inr st2) of
                Inl e \<Rightarrow> Inl e
              | Inr st3 \<Rightarrow> Inr (nn_val_r, st3)))"

text \<open>Lines 359 to 373: the series, the results file, and the total time of the epoch.\<close>

definition save_results ::
    "('w, 'm, 'f) collab \<Rightarrow> 'f \<Rightarrow> 'f eval_result \<Rightarrow> 'f eval_result \<Rightarrow> ('w, 'm, 'f) state \<Rightarrow> ('w, 'm, 'f) state" where
  "save_results ops start_epoch val_r nn_val_r st =
     (let st1 = st\<lparr>new_nodes_val_aps := new_nodes_val_aps st @ [res_ap nn_val_r],
                    val_aps := val_aps st @ [res_ap val_r],
                    train_losses := train_losses st @ [np_mean ops (m_loss st)]\<rparr>;
          st2 = log PickleDump
                  (st1\<lparr>results_file := Some \<lparr>saved_val_aps = val_aps st1,
                                               saved_new_nodes_val_aps = new_nodes_val_aps st1,
                                               saved_train_losses = train_losses st1,
                                               saved_epoch_times = epoch_times st1,
                                               saved_total_epoch_times = total_epoch_times st1\<rparr>\<rparr>);
          total_epoch_time = float_sub ops (time_time ops (ext (world st2))) start_epoch
      in st2\<lparr>total_epoch_times := total_epoch_times st2 @ [total_epoch_time]\<rparr>)"

text \<open>Lines 259 to 373: the epoch before the early-stop check; it hands over \<open>val_ap\<close>.\<close>

definition epoch_body ::
    "('w, 'm, 'f) collab \<Rightarrow> config \<Rightarrow> 'f data \<Rightarrow> int \<Rightarrow> ('w, 'm, 'f) state \<Rightarrow> exn + ('f \<times> ('w, 'm, 'f) state)" where
  "epoch_body ops cfg train_data num_batch st =
     (case train_and_validate ops cfg train_data num_batch st of
        Inl e \<Rightarrow> Inl e
      | Inr (start_epoch, val_r, st1) \<Rightarrow>
          (case validate_new_nodes ops cfg st1 of
             Inl e \<Rightarrow> Inl e
           | Inr (nn_val_r, st2) \<Rightarrow>
               Inr (res_ap val_r, save_results ops start_epoch val_r nn_val_r st2)))"

subsection \<open>The epochs, the test and the final save\<close>

text \<open>
  Lines 395 to 405. On a stop the checkpoint of the monitor's best epoch is read, which
  fails when there is no such file, and the loop is left; otherwise the state is saved
  under the number of the epoch.
\<close>

definition early_stopping ::
    "('w, 'm, 'f) collab \<Rightarrow> int \<Rightarrow> 'f \<Rightarrow> ('w, 'm, 'f) state \<Rightarrow> exn + (bool \<times> ('w, 'm, 'f) state)" where
  "early_stopping ops epoch val_ap st =
     (let (stop, x) = early_stop_check ops val_ap (ext (world st));
          st1 = st\<lparr>world := (world st)\<lparr>ext := x\<rparr>\<rparr>
      in if stop then
           (case checkpoints st1 (best_epoch ops x) of
              None \<Rightarrow> Inl FileNotFoundError
            | Some saved \<Rightarrow>
                Inr (True, log (LoadStateDict (best_epoch ops x))
                             (st1\<lparr>world := load_state_dict ops saved (world st1)\<rparr>)))
         else
           Inr (False, log (SaveCheckpoint epoch)
                         (st1\<lparr>checkpoints := (checkpoints st1)(epoch \<mapsto> world st1)\<rparr>)))"

fun epoch_loop ::
    "('w, 'm, 'f) collab \<Rightarrow> config \<Rightarrow> 'f data \<Rightarrow> int \<Rightarrow> int list \<Rightarrow> ('w, 'm, 'f) state \<Rightarrow> exn + ('w, 'm, 'f) state" where
  "epoch_loop ops cfg train_data num_batch [] st = Inr st"
| "epoch_loop ops cfg train_data num_batch (epoch # epochs) st =
     (case epoch_body ops cfg train_data num_batch st of
        Inl e \<Rightarrow> Inl e
      | Inr (val_ap, st1) \<Rightarrow>
          (case early_stopping ops epoch val_ap st1 of
             Inl e \<Rightarrow> Inl e
           | Inr (stop, st2) \<Rightarrow>
               if stop then Inr st2
               else epoch_loop ops cfg train_data num_batch epochs st2))"

text \<open>
  Lines 413 to 460. \<open>thresholdOpt\<close> is unbound when no epoch has run, and naming it raises
  \<open>NameError\<close>.
\<close>

definition test_and_save ::
    "('w, 'm, 'f) collab \<Rightarrow> config \<Rightarrow> ('w, 'm, 'f) state \<Rightarrow> exn + ('w, 'm, 'f) state" where
  "test_and_save ops cfg st =
     (let st1 = (if USE_MEMORY cfg then do_backup_memory ValMemory st else st);
          st2 = set_neighbor_finder FullFinder st1
      in case (if USE_MEMORY cfg then do_restore_memory ValMemory st2 else Inr st2) of
           Inl e \<Rightarrow> Inl e
         | Inr st3 \<Rightarrow>
             (case thresholdOpt st3 of
                None \<Rightarrow> Inl NameError
              | Some th \<Rightarrow>
                  (let st4 = log (EvalEdgeDetection th)
                               (st3\<lparr>world := eval_edge_detection ops th (world st3)\<rparr>)
                   in case (if USE_MEMORY cfg then do_restore_memory ValMemory st4 else Inr st4) of
                        Inl e \<Rightarrow> Inl e
                      | Inr st5 \<Rightarrow> Inr (log SaveModel (st5\<lparr>model_file := Some (world st5)\<rparr>)))))"

text \<open>
  Lines 221 to 256: the state in which the first epoch starts. The model is new and bound
  to the training finder, the series are empty, \<open>files\<close> are the checkpoints on disk.
\<close>

definition initial_state ::
    "('w, 'm) world \<Rightarrow> (int \<rightharpoonup> ('w, 'm) world) \<Rightarrow> ('w, 'm, 'f) state" where
  "initial_state w files =
     \<lparr>world = w\<lparr>neighbor_finder := TrainFinder\<rparr>, trace = [],
      new_nodes_val_aps = [], val_aps = [], epoch_times = [], total_epoch_times = [],
      train_losses = [], m_loss = [], loss = [],
      train_memory_backup = None, val_memory_backup = None, thresholdOpt = None,
      results_file = None, checkpoints = files, model_file = None\<rparr>"

text \<open>
  The body of the loop over the runs (lines 218 to 461), for one run. The runs share no
  variable that a later run reads before writing it, apart from the files.
\<close>

definition run ::
    "('w, 'm, 'f) collab \<Rightarrow> config \<Rightarrow> 'f data \<Rightarrow> ('w, 'm) world \<Rightarrow> (int \<rightharpoonup> ('w, 'm) world) \<Rightarrow>
       exn + ('w, 'm, 'f) state" where
  "run ops cfg train_data w files =
     (if BATCH_SIZE cfg = 0 then Inl ZeroDivisionError
      else
        (let num_instance = int (length (sources train_data));
             num_batch = ceil_div num_instance (BATCH_SIZE cfg)
         in case epoch_loop ops cfg train_data num_batch [0 .. NUM_EPOCH cfg - 1]
                   (initial_state w files) of
              Inl e \<Rightarrow> Inl e
            | Inr st \<Rightarrow> test_and_save ops cfg st))"


section \<open>Notions used in the statements\<close>

text \<open>
  The training batch with index \<open>i\<close> as the specification describes it: the edges with the
  indices from \<open>i * batch_size\<close> up to, and not including, \<open>min(N, (i + 1) * batch_size)\<close>.
\<close>

definition batch_event :: "config \<Rightarrow> 'f data \<Rightarrow> int \<Rightarrow> 'f event" where
  "batch_event cfg d i =
     (let N = int (length (sources d));
          a = i * BATCH_SIZE cfg;
          b = min N ((i + 1) * BATCH_SIZE cfg)
      in TrainBatch i a b
           (py_slice (sources d) a b, py_slice (destinations d) a b,
            py_slice (edge_idxs d) a b, py_slice (timestamps d) a b))"

text \<open>The training batch with index \<open>i\<close> consists of exactly one edge.\<close>

definition single_edge_batch :: "config \<Rightarrow> 'f data \<Rightarrow> int \<Rightarrow> bool" where
  "single_edge_batch cfg d i =
     (length (py_slice (sources d) (i * BATCH_SIZE cfg)
                (min (int (length (sources d))) ((i + 1) * BATCH_SIZE cfg))) = 1)"

text \<open>
  The gradient-accumulation groups: group \<open>g\<close> starts at batch \<open>g * backprop_every\<close> and has
  the batches below the batch count among the next \<open>backprop_every\<close>; its calls are those
  batches, the parameter update and, with memory, the detach.
\<close>

definition group_starts :: "config \<Rightarrow> int \<Rightarrow> int list" where
  "group_starts cfg num_batch =
     map (\<lambda>g. int g * backprop_every cfg)
       [0 ..< nat ((num_batch + backprop_every cfg - 1) div backprop_every cfg)]"

definition group_events :: "config \<Rightarrow> 'f data \<Rightarrow> int \<Rightarrow> int \<Rightarrow> 'f event list" where
  "group_events cfg d num_batch k =
     map (batch_event cfg d) [k .. min (k + backprop_every cfg) num_batch - 1]
       @ [OptimizerStep] @ (if USE_MEMORY cfg then [DetachMemory] else [])"

definition training_events :: "config \<Rightarrow> 'f data \<Rightarrow> int \<Rightarrow> 'f event list" where
  "training_events cfg d num_batch =
     (if USE_MEMORY cfg then [InitMemory] else [])
       @ concat (map (group_events cfg d num_batch) (group_starts cfg num_batch))"

fun is_train_batch :: "'f event \<Rightarrow> bool" where
  "is_train_batch (TrainBatch i a b batch) = True"
| "is_train_batch e = False"

text \<open>The split and the threshold of the most recent call of \<open>eval_edge_prediction\<close>.\<close>

fun prediction_of :: "'f event \<Rightarrow> (split \<times> 'f) option" where
  "prediction_of (EvalEdgePrediction sp th) = Some (sp, th)"
| "prediction_of e = None"

fun last_prediction :: "'f event list \<Rightarrow> (split \<times> 'f) option" where
  "last_prediction [] = None"
| "last_prediction (e # es) =
     (case last_prediction es of Some p \<Rightarrow> Some p | None \<Rightarrow> prediction_of e)"

text \<open>Every series of the script has \<open>n\<close> entries.\<close>

definition series_length :: "('w, 'm, 'f) state \<Rightarrow> nat \<Rightarrow> bool" where
  "series_length st n =
     (length (val_aps st) = n \<and> length (new_nodes_val_aps st) = n \<and>
      length (train_losses st) = n \<and> length (epoch_times st) = n \<and>
      length (total_epoch_times st) = n)"

text \<open>
  A step keeps the variables of the epoch loop: the series, the results file and the
  threshold; and it calls no \<open>eval_edge_prediction\<close>.
\<close>

definition kept :: "('w, 'm, 'f) state \<Rightarrow> ('w, 'm, 'f) state \<Rightarrow> bool" where
  "kept st st' =
     (val_aps st' = val_aps st \<and> new_nodes_val_aps st' = new_nodes_val_aps st \<and>
      train_losses st' = train_losses st \<and> epoch_times st' = epoch_times st \<and>
      total_epoch_times st' = total_epoch_times st \<and>
      results_file st' = results_file st \<and>
      thresholdOpt st' = thresholdOpt st \<and>
      last_prediction (trace st') = last_prediction (trace st))"

text \<open>
  The results file holds, under each of its keys, the series of the script of that name
  as it was at the write: the series of validation APs, of new-node validation APs, of
  training losses and of epoch times in full, \<open>n\<close> entries each, and the series of total
  epoch times without its last entry, which is appended after the write.
\<close>

definition results_written :: "('w, 'm, 'f) state \<Rightarrow> nat \<Rightarrow> bool" where
  "results_written st n =
     (case results_file st of
        None \<Rightarrow> False
      | Some r \<Rightarrow>
          saved_val_aps r = val_aps st \<and>
          saved_new_nodes_val_aps r = new_nodes_val_aps st \<and>
          saved_train_losses r = train_losses st \<and>
          saved_epoch_times r = epoch_times st \<and>
          saved_total_epoch_times r = butlast (total_epoch_times st) \<and>
          length (saved_val_aps r) = n \<and> length (saved_new_nodes_val_aps r) = n \<and>
          length (saved_train_losses r) = n \<and> length (saved_epoch_times r) = n \<and>
          Suc (length (saved_total_epoch_times r)) = n)"

section \<open>Concrete inputs\<close>

text \<open>
  A random source that draws the first \<open>k\<close> members of the population, one of the outcomes
  that \<open>random.sample\<close> can produce.
\<close>

definition first_k :: "int list \<Rightarrow> nat \<Rightarrow> int list" where
  "first_k population k = take k population"

text \<open>
  Collaborators over natural numbers. The parameters are the number of updates made so
  far, which is also what the clock shows. The memory adds up what has touched it: a
  training batch adds 1 plus the number of updates, a validation on seen nodes 10, a
  validation on unseen nodes 20, the test 100. The loss term of a batch is its number of
  edges. The validation on seen nodes returns the AP 7 and the threshold 1, the validation
  on unseen nodes the AP 9 and the threshold 2. The monitor stops the run at the first
  check after four updates and names epoch 0 as the best; loading a checkpoint replaces
  the parameters and the memory.
\<close>

definition counting_ops :: "(nat, nat, nat) collab" where
  "counting_ops =
     \<lparr>mem_zero = 0,
      train_batch = (\<lambda>batch w. (length (fst batch), w\<lparr>memory := memory w + 1 + ext w\<rparr>)),
      backward_step = (\<lambda>terms n w. (sum_list terms, w\<lparr>ext := ext w + 1\<rparr>)),
      np_mean = (\<lambda>xs. sum_list xs div length xs),
      eval_edge_prediction =
        (\<lambda>sp w. (\<lparr>res_ap = (case sp of ValData \<Rightarrow> 7 | NewNodeValData \<Rightarrow> 9
                               | NewNodeTestData \<Rightarrow> 5),
                    res_auc = 8,
                    res_threshold = (case sp of ValData \<Rightarrow> 1 | NewNodeValData \<Rightarrow> 2
                                     | NewNodeTestData \<Rightarrow> 3)\<rparr>,
                  w\<lparr>memory := memory w + (case sp of ValData \<Rightarrow> 10 | NewNodeValData \<Rightarrow> 20
                                                | NewNodeTestData \<Rightarrow> 30)\<rparr>)),
      eval_edge_detection = (\<lambda>th w. w\<lparr>memory := memory w + 100\<rparr>),
      early_stop_check = (\<lambda>ap x. (4 \<le> x, x)),
      best_epoch = (\<lambda>x. 0),
      load_state_dict = (\<lambda>saved w. w\<lparr>ext := ext saved, memory := memory saved\<rparr>),
      time_time = (\<lambda>x. x),
      float_sub = (\<lambda>a b. a - b)\<rparr>"

text \<open>
  Six training edges in batches of two, so three batches of two edges; two batches per
  update, so the second group has one batch and skips the index 3; at most three epochs,
  with memory.
\<close>

definition small_config :: config where
  "small_config = \<lparr>BATCH_SIZE = 2, NUM_EPOCH = 3, backprop_every = 2, USE_MEMORY = True\<rparr>"

definition small_data :: "nat data" where
  "small_data =
     \<lparr>sources = [1, 2, 3, 1, 2, 3], destinations = [4, 5, 6, 5, 4, 6],
      timestamps = [10, 20, 30, 40, 50, 60], edge_idxs = [1, 2, 3, 4, 5, 6],
      labels = [0, 0, 1, 0, 0, 0]\<rparr>"

text \<open>Five training edges: in batches of two the third batch has one edge.\<close>

definition odd_data :: "nat data" where
  "odd_data =
     \<lparr>sources = [1, 2, 3, 1, 2], destinations = [4, 5, 6, 5, 4],
      timestamps = [10, 20, 30, 40, 50], edge_idxs = [1, 2, 3, 4, 5],
      labels = [0, 0, 1, 0, 0]\<rparr>"

definition new_world :: "(nat, nat) world" where
  "new_world = \<lparr>ext = 0, memory = 0, neighbor_finder = TrainFinder\<rparr>"

text \<open>
  What is read off a state: the trace, the live state of the model, the two memory
  snapshots, the threshold, the results file, the five series (validation APs, new-node
  validation APs, training losses, epoch times, total epoch times) and the model file.
\<close>

definition observe ::
    "('w, 'm, 'f) state \<Rightarrow>
       'f event list \<times> ('w, 'm) world \<times> 'm option \<times> 'm option \<times> 'f option \<times> 'f results option \<times>
       ('f list \<times> 'f list \<times> 'f list \<times> 'f list \<times> 'f list) \<times> ('w, 'm) world option" where
  "observe st =
     (trace st, world st, train_memory_backup st, val_memory_backup st, thresholdOpt st,
      results_file st,
      (val_aps st, new_nodes_val_aps st, train_losses st, epoch_times st, total_epoch_times st),
      model_file st)"

section \<open>Properties of reindex\<close>

text \<open>
  The assertion of \<open>reindex\<close> holds of no column that is not contiguous, and of every
  contiguous column of fewer than \<open>2 ^ 63\<close> rows.
\<close>

lemma contiguous_card:
  assumes "xs \<noteq> []"
  shows "contiguous xs \<longleftrightarrow> Max (set xs) - Min (set xs) + 1 = int (length (remdups xs))"
proof -
  let ?S = "set xs"
  have fin: "finite ?S" and ne: "?S \<noteq> {}" using assms by auto
  have sub: "?S \<subseteq> {Min ?S .. Max ?S}" using fin by auto
  have le: "Min ?S \<le> Max ?S" using fin ne by simp
  have cardI: "card {Min ?S .. Max ?S} = nat (Max ?S - Min ?S + 1)" by simp
  have len: "length (remdups xs) = card ?S" by (simp add: length_remdups_card_conv)
  show ?thesis
  proof
    assume "contiguous xs"
    then have eq: "?S = {Min ?S .. Max ?S}" by (simp add: contiguous_def)
    have "card ?S = nat (Max ?S - Min ?S + 1)" using cardI eq by simp
    with le show "Max ?S - Min ?S + 1 = int (length (remdups xs))" by (simp add: len)
  next
    assume "Max ?S - Min ?S + 1 = int (length (remdups xs))"
    then have "int (card ?S) = Max ?S - Min ?S + 1" by (simp add: len)
    then have "card ?S = card {Min ?S .. Max ?S}" using cardI by simp
    with sub have "?S = {Min ?S .. Max ?S}"
      by (intro card_subset_eq) auto
    with assms show "contiguous xs" by (simp add: contiguous_def)
  qed
qed

lemma sint_bounds: "- (2 ^ 63) \<le> sint (x :: int64) \<and> sint x < 2 ^ 63"
  using sint_ge [of x] sint_lt [of x] by simp

lemma sint_series_max:
  assumes "xs \<noteq> []"
  shows "sint (series_max xs) = Max (set (map sint xs))"
proof -
  have "Max (set (map sint xs)) \<in> set (map sint xs)"
    using assms by (intro Max_in) auto
  then obtain x :: int64 where "Max (set (map sint xs)) = sint x" by auto
  then show ?thesis by (simp add: series_max_def)
qed

lemma sint_series_min:
  assumes "xs \<noteq> []"
  shows "sint (series_min xs) = Min (set (map sint xs))"
proof -
  have "Min (set (map sint xs)) \<in> set (map sint xs)"
    using assms by (intro Min_in) auto
  then obtain x :: int64 where "Min (set (map sint xs)) = sint x" by auto
  then show ?thesis by (simp add: series_min_def)
qed

lemma remdups_sint: "length (remdups (map sint (xs :: int64 list))) = length (remdups xs)"
proof -
  have "card (sint ` set xs) = card (set xs)"
    by (intro card_image inj_onI) (simp add: signed_word_eqI)
  then show ?thesis by (simp add: length_remdups_card_conv)
qed

lemma range_check_contiguous:
  assumes ne: "xs \<noteq> []"
  shows "(range_check xs \<longrightarrow> contiguous (ids xs)) \<and>
         (int (length xs) < 2 ^ 63 \<longrightarrow> contiguous (ids xs) \<longrightarrow> range_check xs)"
proof -
  let ?S = "set (map sint xs)"
  let ?T = "Max ?S - Min ?S + 1"
  let ?c = "int (length (remdups xs))"
  have fin: "finite ?S" and ne': "?S \<noteq> {}" using ne by auto
  have mx: "Max ?S \<in> ?S" and mn: "Min ?S \<in> ?S" using fin ne' by (auto intro: Max_in Min_in)
  have bmx: "Max ?S < 2 ^ 63" using mx sint_bounds by auto
  have bmn: "- (2 ^ 63) \<le> Min ?S" using mn sint_bounds by auto
  have le: "Min ?S \<le> Max ?S" using fin ne' by simp
  have T1: "1 \<le> ?T" using le by simp
  have T2: "?T \<le> 2 ^ 64" using bmx bmn by simp
  have "0 < card (set xs)" using ne by (simp add: card_gt_0_iff)
  then have c1: "1 \<le> ?c" by (simp add: length_remdups_card_conv)
  have w: "series_max xs - series_min xs + 1 = (word_of_int ?T :: int64)"
    by (simp add: series_max_def series_min_def)
  have s: "sint (series_max xs - series_min xs + 1) = signed_take_bit 63 ?T"
    unfolding w using sint_sbintrunc' [where 'a = 64 and bin = ?T] by simp
  have rc: "range_check xs \<longleftrightarrow> signed_take_bit 63 ?T = ?c"
    using ne s by (simp add: range_check_def)
  have ct: "contiguous (ids xs) \<longleftrightarrow> ?T = ?c"
    using ne contiguous_card [of "map sint xs"] by (simp add: ids_def remdups_sint)
  have a: "?T = ?c" if "signed_take_bit 63 ?T = ?c"
  proof (cases "?T < 2 ^ 63")
    case True
    then have "signed_take_bit 63 ?T = ?T" using T1 by (intro signed_take_bit_int_eq_self) auto
    with that show ?thesis by simp
  next
    case False
    then have "signed_take_bit 63 ?T \<le> ?T - 2 ^ Suc 63"
      by (intro signed_take_bit_int_less_eq) simp
    with T2 that c1 show ?thesis by simp
  qed
  have b: "signed_take_bit 63 ?T = ?c" if "?T = ?c" "int (length xs) < 2 ^ 63"
  proof -
    have "?c < 2 ^ 63" using that(2) length_remdups_leq [of xs] by linarith
    then have "signed_take_bit 63 ?T = ?T" using T1 that(1) by (intro signed_take_bit_int_eq_self) auto
    with that show ?thesis by simp
  qed
  show ?thesis using rc ct a b by blast
qed

lemma range_check_empty: "\<not> range_check []" "\<not> contiguous (ids [])"
  by (simp_all add: range_check_def contiguous_def ids_def)

lemma assertion_fails:
  "\<not> contiguous (ids xs) \<Longrightarrow> \<not> range_check xs"
  using range_check_contiguous [of xs] range_check_empty by (cases "xs = []") auto

lemma assertion_holds:
  "int (length xs) < 2 ^ 63 \<Longrightarrow> contiguous (ids xs) \<Longrightarrow> range_check xs"
  using range_check_contiguous [of xs] range_check_empty by (cases "xs = []") auto

lemma sint_exact:
  "- (2 ^ 63) \<le> k \<Longrightarrow> k < 2 ^ 63 \<Longrightarrow> sint (word_of_int k :: int64) = k"
  using sint_sbintrunc' [where 'a = 64 and bin = k] by (simp add: signed_take_bit_int_eq_self)

lemma sint_add_exact:
  fixes a b :: int64
  assumes "- (2 ^ 63) \<le> sint a + sint b" "sint a + sint b < 2 ^ 63"
  shows "sint (a + b) = sint a + sint b"
proof -
  have "a + b = word_of_int (sint a + sint b)" by simp
  then show ?thesis using sint_exact [OF assms] by simp
qed

text \<open>
  C10, amended. For every dataframe (of fewer than \<open>2 ^ 63\<close> rows) whose source ids and
  whose destination ids each form a contiguous integer range, the bipartite \<open>reindex\<close>
  returns a dataframe of the same length and row order, in which, in the arithmetic of
  \<open>int64\<close>, every source id and edge index is incremented by 1 and every destination id
  is shifted by the largest source id plus 1 and then incremented by 1, timestamps and
  labels being kept. When no destination id is negative and the largest source id plus
  the largest destination id plus 2 is below \<open>2 ^ 63\<close>, no addition on the ids wraps
  around, and every new destination id is strictly greater than every new source id. For
  every other dataframe \<open>reindex\<close> fails an assertion.
\<close>

theorem reindex_bipartite:
  "(int (length df) < 2 ^ 63 \<and> contiguous (ids (map col_u df)) \<and>
    contiguous (ids (map col_i df)) \<longrightarrow>
      (\<exists>df'. reindex df True = Inr df' \<and> length df' = length df \<and>
         (\<forall>k < length df.
            col_u (df' ! k) = col_u (df ! k) + 1 \<and>
            col_i (df' ! k) = col_i (df ! k) + (series_max (map col_u df) + 1) + 1 \<and>
            col_idx (df' ! k) = col_idx (df ! k) + 1 \<and>
            col_ts (df' ! k) = col_ts (df ! k) \<and>
            col_label (df' ! k) = col_label (df ! k)) \<and>
         ((\<forall>r \<in> set df. 0 \<le> sint (col_i r)) \<and>
          Max (set (ids (map col_u df))) + Max (set (ids (map col_i df))) + 2 < 2 ^ 63 \<longrightarrow>
            (\<forall>k < length df.
               sint (col_u (df' ! k)) = sint (col_u (df ! k)) + 1 \<and>
               sint (col_i (df' ! k))
                 = sint (col_i (df ! k)) + (Max (set (ids (map col_u df))) + 1) + 1) \<and>
            (\<forall>r \<in> set df'. \<forall>r' \<in> set df'. sint (col_u r') < sint (col_i r))))) \<and>
   (\<not> (contiguous (ids (map col_u df)) \<and> contiguous (ids (map col_i df))) \<longrightarrow>
      reindex df True = Inl AssertionError)"
proof (rule conjI; rule impI)
  assume c: "int (length df) < 2 ^ 63 \<and> contiguous (ids (map col_u df)) \<and>
    contiguous (ids (map col_i df))"
  let ?mu = "Max (set (ids (map col_u df)))"
  let ?mi = "Max (set (ids (map col_i df)))"
  let ?up = "series_max (map col_u df) + 1"
  let ?f = "\<lambda>r. r\<lparr>col_u := col_u r + 1, col_i := (col_i r + ?up) + 1, col_idx := col_idx r + 1\<rparr>"
  have ne: "df \<noteq> []" using c by (auto simp add: contiguous_def ids_def)
  have r: "reindex df True = Inr (map ?f df)"
    using c by (simp add: reindex_def assertion_holds Let_def)
  have smu: "sint (series_max (map col_u df)) = ?mu"
    using ne sint_series_max [of "map col_u df"] by (simp add: ids_def)
  have exact: "sint (col_u a + 1) = sint (col_u a) + 1 \<and>
               sint (col_i a + ?up + 1) = sint (col_i a) + (?mu + 1) + 1 \<and>
               sint (col_u a) \<le> ?mu \<and> 0 \<le> sint (col_i a)"
    if nn: "\<forall>r \<in> set df. 0 \<le> sint (col_i r)" and b: "?mu + ?mi + 2 < 2 ^ 63" and a: "a \<in> set df"
    for a
  proof -
    have ua: "sint (col_u a) \<le> ?mu" using a by (intro Max_ge) (auto simp add: ids_def)
    have ia: "sint (col_i a) \<le> ?mi" using a by (intro Max_ge) (auto simp add: ids_def)
    have i0: "0 \<le> sint (col_i a)" using nn a by blast
    have lo: "- (2 ^ 63) \<le> sint (col_u a)" "- (2 ^ 63) \<le> ?mu"
      using sint_bounds [of "col_u a"] ua by auto
    have s1: "sint (1 :: int64) = 1" by simp
    have e1: "sint (col_u a + 1) = sint (col_u a) + 1"
      using lo ua ia i0 b by (subst sint_add_exact) (auto simp add: s1)
    have e2: "sint ?up = ?mu + 1"
      using lo ua ia i0 b by (subst sint_add_exact) (auto simp add: s1 smu)
    have e3: "sint (col_i a + ?up) = sint (col_i a) + (?mu + 1)"
      using lo ua ia i0 b by (subst sint_add_exact) (auto simp add: e2)
    have e4: "sint (col_i a + ?up + 1) = sint (col_i a) + (?mu + 1) + 1"
      using lo ua ia i0 b by (subst sint_add_exact) (auto simp add: e3 s1)
    show ?thesis using e1 e4 ua i0 by simp
  qed
  have sep: "\<forall>r \<in> set (map ?f df). \<forall>r' \<in> set (map ?f df). sint (col_u r') < sint (col_i r)"
    if nn: "\<forall>r \<in> set df. 0 \<le> sint (col_i r)" and b: "?mu + ?mi + 2 < 2 ^ 63"
  proof (intro ballI)
    fix r r' assume "r \<in> set (map ?f df)" "r' \<in> set (map ?f df)"
    then obtain a b' where a: "a \<in> set df" "r = ?f a" and b': "b' \<in> set df" "r' = ?f b'"
      by auto
    from exact [OF nn b a(1)] exact [OF nn b b'(1)]
    show "sint (col_u r') < sint (col_i r)" using a(2) b'(2) by simp
  qed
  have pt: "\<forall>k < length df.
               sint (col_u (map ?f df ! k)) = sint (col_u (df ! k)) + 1 \<and>
               sint (col_i (map ?f df ! k)) = sint (col_i (df ! k)) + (?mu + 1) + 1"
    if nn: "\<forall>r \<in> set df. 0 \<le> sint (col_i r)" and b: "?mu + ?mi + 2 < 2 ^ 63"
  proof (intro allI impI)
    fix k assume k: "k < length df"
    then have "df ! k \<in> set df" by simp
    from exact [OF nn b this] k
    show "sint (col_u (map ?f df ! k)) = sint (col_u (df ! k)) + 1 \<and>
          sint (col_i (map ?f df ! k)) = sint (col_i (df ! k)) + (?mu + 1) + 1"
      by simp
  qed
  show "\<exists>df'. reindex df True = Inr df' \<and> length df' = length df \<and>
         (\<forall>k < length df.
            col_u (df' ! k) = col_u (df ! k) + 1 \<and>
            col_i (df' ! k) = col_i (df ! k) + (series_max (map col_u df) + 1) + 1 \<and>
            col_idx (df' ! k) = col_idx (df ! k) + 1 \<and>
            col_ts (df' ! k) = col_ts (df ! k) \<and>
            col_label (df' ! k) = col_label (df ! k)) \<and>
         ((\<forall>r \<in> set df. 0 \<le> sint (col_i r)) \<and>
          Max (set (ids (map col_u df))) + Max (set (ids (map col_i df))) + 2 < 2 ^ 63 \<longrightarrow>
            (\<forall>k < length df.
               sint (col_u (df' ! k)) = sint (col_u (df ! k)) + 1 \<and>
               sint (col_i (df' ! k))
                 = sint (col_i (df ! k)) + (Max (set (ids (map col_u df))) + 1) + 1) \<and>
            (\<forall>r \<in> set df'. \<forall>r' \<in> set df'. sint (col_u r') < sint (col_i r)))"
  proof (intro exI [of _ "map ?f df"] conjI)
    show "reindex df True = Inr (map ?f df)" by (rule r)
    show "length (map ?f df) = length df" by simp
    show "\<forall>k < length df.
            col_u (map ?f df ! k) = col_u (df ! k) + 1 \<and>
            col_i (map ?f df ! k) = col_i (df ! k) + (series_max (map col_u df) + 1) + 1 \<and>
            col_idx (map ?f df ! k) = col_idx (df ! k) + 1 \<and>
            col_ts (map ?f df ! k) = col_ts (df ! k) \<and>
            col_label (map ?f df ! k) = col_label (df ! k)"
      by simp
    show "(\<forall>r \<in> set df. 0 \<le> sint (col_i r)) \<and> ?mu + ?mi + 2 < 2 ^ 63 \<longrightarrow>
            (\<forall>k < length df.
               sint (col_u (map ?f df ! k)) = sint (col_u (df ! k)) + 1 \<and>
               sint (col_i (map ?f df ! k)) = sint (col_i (df ! k)) + (?mu + 1) + 1) \<and>
            (\<forall>r \<in> set (map ?f df). \<forall>r' \<in> set (map ?f df). sint (col_u r') < sint (col_i r))"
      using sep pt by blast
  qed
next
  assume "\<not> (contiguous (ids (map col_u df)) \<and> contiguous (ids (map col_i df)))"
  then show "reindex df True = Inl AssertionError"
    by (auto simp add: reindex_def dest: assertion_fails)
qed

theorem reindex_bipartite_witness:
  "reindex [\<lparr>col_u = 0, col_i = 0, col_ts = (), col_label = (), col_idx = 0\<rparr>,
            \<lparr>col_u = 1, col_i = 0, col_ts = (), col_label = (), col_idx = 1\<rparr>] True
     = Inr [\<lparr>col_u = 1, col_i = 3, col_ts = (), col_label = (), col_idx = 1\<rparr>,
            \<lparr>col_u = 2, col_i = 3, col_ts = (), col_label = (), col_idx = 2\<rparr>] \<and>
   list_all (\<lambda>r. list_all (\<lambda>r'. sint (col_u r') < sint (col_i r))
       [\<lparr>col_u = 1, col_i = 3, col_ts = (), col_label = (), col_idx = 1 :: int64\<rparr>,
        \<lparr>col_u = 2, col_i = 3, col_ts = (), col_label = (), col_idx = 2\<rparr>])
     [\<lparr>col_u = 1, col_i = 3, col_ts = (), col_label = (), col_idx = 1 :: int64\<rparr>,
      \<lparr>col_u = 2, col_i = 3, col_ts = (), col_label = (), col_idx = 2\<rparr>] \<and>
   reindex [\<lparr>col_u = 0, col_i = 0, col_ts = (), col_label = (), col_idx = 0\<rparr>,
            \<lparr>col_u = 2, col_i = 0, col_ts = (), col_label = (), col_idx = 1\<rparr>] True
     = Inl AssertionError"
proof -
  let ?a = "[\<lparr>col_u = 0, col_i = 0, col_ts = (), col_label = (), col_idx = 0\<rparr>,
            \<lparr>col_u = 1, col_i = 0, col_ts = (), col_label = (), col_idx = 1 :: int64\<rparr>]"
  let ?b = "[\<lparr>col_u = 0, col_i = 0, col_ts = (), col_label = (), col_idx = 0\<rparr>,
            \<lparr>col_u = 2, col_i = 0, col_ts = (), col_label = (), col_idx = 1 :: int64\<rparr>]"
  have ca: "int (length ?a) < 2 ^ 63 \<and> contiguous (ids (map col_u ?a)) \<and>
            contiguous (ids (map col_i ?a))"
    by (auto simp add: contiguous_def ids_def)
  have "(1 :: int) \<notin> {0, 2}" "(1 :: int) \<in> {0 .. 2}" by simp_all
  then have gap: "{0, 2} \<noteq> {0 .. 2 :: int}" by blast
  have cb: "\<not> (contiguous (ids (map col_u ?b)) \<and> contiguous (ids (map col_i ?b)))"
    using gap by (auto simp add: contiguous_def ids_def)
  have nn: "(\<forall>r \<in> set ?a. 0 \<le> sint (col_i r)) \<and>
            Max (set (ids (map col_u ?a))) + Max (set (ids (map col_i ?a))) + 2 < 2 ^ 63"
    by (simp add: ids_def)
  from reindex_bipartite [of ?a] ca
  obtain df' where d: "reindex ?a True = Inr df'" "length df' = length ?a"
    and p: "\<forall>k < length ?a.
            col_u (df' ! k) = col_u (?a ! k) + 1 \<and>
            col_i (df' ! k) = col_i (?a ! k) + (series_max (map col_u ?a) + 1) + 1 \<and>
            col_idx (df' ! k) = col_idx (?a ! k) + 1 \<and>
            col_ts (df' ! k) = col_ts (?a ! k) \<and>
            col_label (df' ! k) = col_label (?a ! k)"
    and q: "(\<forall>r \<in> set ?a. 0 \<le> sint (col_i r)) \<and>
            Max (set (ids (map col_u ?a))) + Max (set (ids (map col_i ?a))) + 2 < 2 ^ 63 \<longrightarrow>
            (\<forall>r \<in> set df'. \<forall>r' \<in> set df'. sint (col_u r') < sint (col_i r))"
    by blast
  from q nn have sep: "\<forall>r \<in> set df'. \<forall>r' \<in> set df'. sint (col_u r') < sint (col_i r)"
    by blast
  have m: "series_max [0, 1] = 1" by (simp add: series_max_def)
  from d(2) obtain r0 r1 where df': "df' = [r0, r1]"
    by (cases df'; cases "tl df'"; cases "tl (tl df')") auto
  from p [rule_format, of 0] p [rule_format, of 1]
  have v: "df' = [\<lparr>col_u = 1, col_i = 3, col_ts = (), col_label = (), col_idx = 1\<rparr>,
            \<lparr>col_u = 2, col_i = 3, col_ts = (), col_label = (), col_idx = 2\<rparr>]"
    by (cases r0; cases r1) (simp add: df' m)
  have "reindex ?b True = Inl AssertionError"
    using reindex_bipartite [of ?b] cb by blast
  with d(1) sep show ?thesis unfolding v list_all_iff by blast
qed

text \<open>
  With a negative destination id the two ranges are contiguous and yet the new destination
  id is not above the new source id: the row \<open>(u, i) = (0, -1)\<close> becomes \<open>(1, 1)\<close>.
\<close>

theorem reindex_negative_ids:
  "contiguous (ids (map col_u [\<lparr>col_u = 0, col_i = - 1, col_ts = (), col_label = (), col_idx = 0\<rparr>])) \<and>
   contiguous (ids (map col_i [\<lparr>col_u = 0, col_i = - 1, col_ts = (), col_label = (), col_idx = 0\<rparr>])) \<and>
   reindex [\<lparr>col_u = 0, col_i = - 1, col_ts = (), col_label = (), col_idx = 0\<rparr>] True
     = Inr [\<lparr>col_u = 1, col_i = 1, col_ts = (), col_label = (), col_idx = 1\<rparr>] \<and>
   \<not> sint (col_u \<lparr>col_u = 1, col_i = 1, col_ts = (), col_label = (), col_idx = 1 :: int64\<rparr>)
       < sint (col_i \<lparr>col_u = 1, col_i = 1, col_ts = (), col_label = (), col_idx = 1 :: int64\<rparr>)"
  by (simp add: contiguous_def ids_def reindex_def range_check_def series_max_def series_min_def Let_def)


section \<open>Properties of the inductive experiments\<close>

subsection \<open>The exclusion step\<close>

lemma select_map: "map fst (filter snd (zip xs (map P xs))) = filter P xs"
  by (induction xs) auto

lemma select_zip:
  "length xs = length ks \<Longrightarrow> length ys = length ks \<Longrightarrow>
   zip (map fst (filter snd (zip xs ks))) (map fst (filter snd (zip ys ks)))
     = map fst (filter snd (zip (zip xs ys) ks))"
proof (induction ks arbitrary: xs ys)
  case Nil
  then show ?case by simp
next
  case (Cons k ks)
  then obtain x xs' y ys' where "xs = x # xs'" "ys = y # ys'"
    by (metis length_Suc_conv)
  with Cons show ?case by simp
qed

lemma keep_edges_eq:
  assumes "aligned d"
  shows "map Not (map (\<lambda>(x, y). x \<or> y) (zip (any_eq (sources d) sample) (any_eq (destinations d) sample)))
           = map (\<lambda>e. \<not> touches sample e) (edges d)"
  using assms
  by (intro nth_equalityI) (auto simp add: aligned_def edges_def any_eq_def touches_def)

lemma mask_index_mask:
  "length xs = length keep \<Longrightarrow> length keep \<noteq> 1 \<Longrightarrow>
   mask_index xs keep = Inr (Array (map fst (filter snd (zip xs keep))))"
  by (cases keep) (simp_all add: mask_index_def)

text \<open>
  On an aligned edge split that does not consist of exactly one edge, the exclusion step
  returns five arrays, which hold the edges of the input that touch no excluded node, in
  their original order.
\<close>

lemma apply_inductive_experiment_filters:
  assumes a: "aligned d" and n: "length (sources d) \<noteq> 1"
  shows "\<exists>d'. apply_inductive_experiment d (Some sample)
                 = Inr \<lparr>new_sources = Array (sources d'),
                        new_destinations = Array (destinations d'),
                        new_labels = Array (labels d'),
                        new_timestamps = Array (timestamps d'),
                        new_edge_idxs = Array (edge_idxs d')\<rparr> \<and>
              edges d' = filter (\<lambda>e. \<not> touches sample e) (edges d)"
proof -
  let ?keep = "map (\<lambda>e. \<not> touches sample e) (edges d)"
  let ?sel = "\<lambda>xs. map fst (filter snd (zip xs ?keep))"
  have len: "length ?keep = length (sources d)"
    using a by (simp add: aligned_def edges_def)
  have lens: "length (destinations d) = length ?keep" "length (timestamps d) = length ?keep"
    "length (labels d) = length ?keep" "length (edge_idxs d) = length ?keep"
    "length (sources d) = length ?keep"
    using a len by (simp_all add: aligned_def)
  have n1: "length ?keep \<noteq> 1" using n len by simp
  have t: "tensor_or (any_eq (sources d) sample) (any_eq (destinations d) sample)
             = Inr (map (\<lambda>(x, y). x \<or> y) (zip (any_eq (sources d) sample) (any_eq (destinations d) sample)))"
    using a by (simp add: tensor_or_def any_eq_def aligned_def)
  let ?d' = "d\<lparr>sources := ?sel (sources d), destinations := ?sel (destinations d),
                labels := ?sel (labels d), timestamps := ?sel (timestamps d),
                edge_idxs := ?sel (edge_idxs d)\<rparr>"
  have r: "apply_inductive_experiment d (Some sample)
             = Inr \<lparr>new_sources = Array (sources ?d'),
                    new_destinations = Array (destinations ?d'),
                    new_labels = Array (labels ?d'),
                    new_timestamps = Array (timestamps ?d'),
                    new_edge_idxs = Array (edge_idxs ?d')\<rparr>"
    using mask_index_mask [OF lens(5) n1] mask_index_mask [OF lens(1) n1]
      mask_index_mask [OF lens(2) n1] mask_index_mask [OF lens(3) n1]
      mask_index_mask [OF lens(4) n1]
    by (simp add: apply_inductive_experiment_def t keep_edges_eq [OF a] Let_def
             del: map_map)
  have z1: "zip (?sel (labels d)) (?sel (edge_idxs d)) = ?sel (zip (labels d) (edge_idxs d))"
    using lens by (intro select_zip) simp_all
  have z2: "zip (?sel (timestamps d)) (?sel (zip (labels d) (edge_idxs d)))
             = ?sel (zip (timestamps d) (zip (labels d) (edge_idxs d)))"
    using lens by (intro select_zip) simp_all
  have z3: "zip (?sel (destinations d)) (?sel (zip (timestamps d) (zip (labels d) (edge_idxs d))))
             = ?sel (zip (destinations d) (zip (timestamps d) (zip (labels d) (edge_idxs d))))"
    using lens by (intro select_zip) simp_all
  have z4: "zip (?sel (sources d)) (?sel (zip (destinations d) (zip (timestamps d) (zip (labels d) (edge_idxs d)))))
             = ?sel (edges d)"
  proof -
    have l: "length (zip (destinations d) (zip (timestamps d) (zip (labels d) (edge_idxs d))))
               = length ?keep"
      using lens by simp
    show ?thesis
      using lens(5) l select_zip [of "sources d" ?keep
          "zip (destinations d) (zip (timestamps d) (zip (labels d) (edge_idxs d)))"]
      by (simp only: edges_def)
  qed
  have "edges ?d' = ?sel (edges d)"
    using z1 z2 z3 z4 by (simp add: edges_def)
  also have "\<dots> = filter (\<lambda>e. \<not> touches sample e) (edges d)"
    by (rule select_map)
  finally show ?thesis using r by blast
qed

text \<open>
  C5. On a training split of exactly one edge \<open>apply_inductive_experiment\<close> does not filter
  the five arrays by the mask, whatever the excluded nodes are. When the edge has an
  excluded endpoint, the mask of one element selects position 0: each of the five
  attributes becomes the scalar entry of that edge, so the edge is kept and the attributes
  are no longer arrays. When the edge has no excluded endpoint, the mask selects position
  1, which the arrays do not have, and the exclusion step raises \<open>IndexError\<close> instead of
  retaining the edge.
\<close>

theorem apply_inductive_experiment_one_edge:
  "apply_inductive_experiment
     \<lparr>sources = [s], destinations = [d], timestamps = [t], edge_idxs = [i], labels = [l]\<rparr>
     (Some sample)
   = (if s \<in> set sample \<or> d \<in> set sample
      then Inr \<lparr>new_sources = Scalar s, new_destinations = Scalar d, new_labels = Scalar l,
                new_timestamps = Scalar t, new_edge_idxs = Scalar i\<rparr>
      else Inl IndexError)"
  by (simp add: apply_inductive_experiment_def tensor_or_def any_eq_def mask_index_def Let_def)

text \<open>
  C6. With the tag \<open>"None"\<close> the selector returns \<open>None\<close>, and the exclusion step that follows
  does not leave the training split unchanged: it raises \<open>AttributeError\<close>, whatever the
  training split is.
\<close>

theorem none_tag_aborts:
  "compute_inductive_nodes rng malicious (Some ''None'') n = Inr None \<and>
   prepare_train_data rng malicious (Some ''None'') n train_data = Inl AttributeError"
  by (simp add: compute_inductive_nodes_def prepare_train_data_def apply_inductive_experiment_def)

text \<open>
  C9. For every tag other than \<open>"None"\<close>, \<open>"Exp1"\<close>, \<open>"Exp2"\<close> and \<open>"Exp3"\<close>, the absent tag
  included, the selector raises \<open>ValueError\<close> at once, and the preparation of the training
  split ends with that error: the exclusion step is not reached.
\<close>

theorem unknown_tag_raises:
  "tag \<notin> {Some ''None'', Some ''Exp1'', Some ''Exp2'', Some ''Exp3''} \<Longrightarrow>
   compute_inductive_nodes rng malicious tag n = Inl ValueError \<and>
   prepare_train_data rng malicious tag n train_data = Inl ValueError"
  by (simp add: compute_inductive_nodes_def prepare_train_data_def)

theorem unknown_tag_raises_witness:
  "Some ''Exp4'' \<notin> {Some ''None'', Some ''Exp1'', Some ''Exp2'', Some ''Exp3''} \<and>
   compute_inductive_nodes (\<lambda>pop k. take k pop) [3] (Some ''Exp4'') 20 = Inl ValueError \<and>
   prepare_train_data (\<lambda>pop k. take k pop) [3] None 20
     \<lparr>sources = [1], destinations = [2], timestamps = [()], edge_idxs = [1], labels = [()]\<rparr>
     = Inl ValueError"
  using unknown_tag_raises [of "Some ''Exp4''" "\<lambda>pop k. take k pop" "[3]" 20
          "\<lparr>sources = [1], destinations = [2], timestamps = [()], edge_idxs = [1], labels = [()]\<rparr>"]
        unknown_tag_raises [of None "\<lambda>pop k. take k pop" "[3]" 20
          "\<lparr>sources = [1], destinations = [2], timestamps = [()], edge_idxs = [1], labels = [()]\<rparr>"]
  by simp

subsection \<open>The selector\<close>

lemma is_sample_fits:
  assumes "is_sample population k s"
  shows "0 \<le> k \<and> k \<le> int (length population)"
proof -
  from assms have l: "int (length s) = k" and d: "distinct s" and sub: "set s \<subseteq> set population"
    by (simp_all add: is_sample_def)
  have "length s = card (set s)" using d by (simp add: distinct_card)
  also have "\<dots> \<le> card (set population)" using sub by (simp add: card_mono)
  also have "\<dots> \<le> length population" by (rule card_length)
  finally show ?thesis using l by simp
qed

lemma random_sample_ok:
  "is_sample population k (rng population (nat k)) \<Longrightarrow>
   random_sample rng population k = Inr (rng population (nat k))"
  using is_sample_fits [of population k "rng population (nat k)"]
  by (simp add: random_sample_def)

lemma inclusive_sample:
  assumes s: "is_sample [1 .. n - 1] k sample" and m: "int (length mal) \<le> k"
  shows "\<exists>s. assign_prefix sample mal = Inr s \<and> int (length s) = k \<and>
           take (length mal) s = mal \<and> distinct (drop (length mal) s) \<and>
           set (drop (length mal) s) \<subseteq> {1 ..< n} \<and> set mal \<subseteq> set s \<and>
           int (card (set s)) \<le> k \<and> k - int (length mal) \<le> int (card (set s))"
proof -
  let ?s = "mal @ drop (length mal) sample"
  from s have l: "int (length sample) = k" and d: "distinct sample"
    and sub: "set sample \<subseteq> {1 ..< n}"
    by (auto simp add: is_sample_def)
  have le: "length mal \<le> length sample" using l m by simp
  have a: "assign_prefix sample mal = Inr ?s" using le by (simp add: assign_prefix_def)
  have len: "int (length ?s) = k" using le l by simp
  have dd: "distinct (drop (length mal) sample)" using d by simp
  have ds: "set (drop (length mal) sample) \<subseteq> {1 ..< n}"
    using sub set_drop_subset [of "length mal" sample] by blast
  have c1: "card (set ?s) \<le> length ?s" by (rule card_length)
  have "card (set (drop (length mal) sample)) \<le> card (set ?s)"
    by (intro card_mono) auto
  then have c2: "length sample - length mal \<le> card (set ?s)"
    using dd by (simp add: distinct_card)
  show ?thesis
    using a len dd ds c1 c2 le l by (intro exI [of _ ?s]) auto
qed

text \<open>
  C4, amended. Whenever the random source draws a proper sample, the selected collection has
  exactly \<open>int(n * p)\<close> entries, which is \<open>floor(n * p)\<close> for \<open>n \<ge> 0\<close>, with \<open>p = 0.3\<close> for
  \<open>"Exp1"\<close> and \<open>"Exp2"\<close> and \<open>p = 0.5\<close> for \<open>"Exp3"\<close>. For \<open>"Exp1"\<close> the entries are
  distinct ids of \<open>[1, n)\<close>, none of them sensitive. For \<open>"Exp2"\<close> and \<open>"Exp3"\<close>, when there are
  at most \<open>int(n * p)\<close> sensitive ids, the first entries are the sensitive ids and the
  remaining entries are distinct ids of \<open>[1, n)\<close>; so every sensitive id is present, and
  the number of distinct ids lies between \<open>int(n * p)\<close> minus the number of sensitive ids
  and \<open>int(n * p)\<close>.
\<close>

theorem compute_inductive_nodes_selection:
  "(is_sample (filter (\<lambda>x. x \<notin> set mal) [1 .. n - 1]) (int_of_product n 3 10)
       (rng (filter (\<lambda>x. x \<notin> set mal) [1 .. n - 1]) (nat (int_of_product n 3 10))) \<longrightarrow>
     (\<exists>s. compute_inductive_nodes rng mal (Some ''Exp1'') n = Inr (Some s) \<and>
          int (length s) = int_of_product n 3 10 \<and> distinct s \<and>
          set s \<subseteq> {1 ..< n} \<and> set s \<inter> set mal = {})) \<and>
   (is_sample [1 .. n - 1] (int_of_product n 3 10) (rng [1 .. n - 1] (nat (int_of_product n 3 10))) \<and>
    int (length mal) \<le> int_of_product n 3 10 \<longrightarrow>
     (\<exists>s. compute_inductive_nodes rng mal (Some ''Exp2'') n = Inr (Some s) \<and>
          int (length s) = int_of_product n 3 10 \<and>
          take (length mal) s = mal \<and> distinct (drop (length mal) s) \<and>
          set (drop (length mal) s) \<subseteq> {1 ..< n} \<and> set mal \<subseteq> set s \<and>
          int (card (set s)) \<le> int_of_product n 3 10 \<and>
          int_of_product n 3 10 - int (length mal) \<le> int (card (set s)))) \<and>
   (is_sample [1 .. n - 1] (int_of_product n 1 2) (rng [1 .. n - 1] (nat (int_of_product n 1 2))) \<and>
    int (length mal) \<le> int_of_product n 1 2 \<longrightarrow>
     (\<exists>s. compute_inductive_nodes rng mal (Some ''Exp3'') n = Inr (Some s) \<and>
          int (length s) = int_of_product n 1 2 \<and>
          take (length mal) s = mal \<and> distinct (drop (length mal) s) \<and>
          set (drop (length mal) s) \<subseteq> {1 ..< n} \<and> set mal \<subseteq> set s \<and>
          int (card (set s)) \<le> int_of_product n 1 2 \<and>
          int_of_product n 1 2 - int (length mal) \<le> int (card (set s)))) \<and>
   (0 \<le> n \<longrightarrow> int_of_product n 3 10 = n * 3 div 10 \<and> int_of_product n 1 2 = n div 2)"
proof (intro conjI impI)
  let ?av = "filter (\<lambda>x. x \<notin> set mal) [1 .. n - 1]"
  let ?k = "int_of_product n 3 10"
  assume s: "is_sample ?av ?k (rng ?av (nat ?k))"
  have r: "compute_inductive_nodes rng mal (Some ''Exp1'') n = Inr (Some (rng ?av (nat ?k)))"
    using s random_sample_ok [of ?av ?k rng] by (simp add: compute_inductive_nodes_def Let_def)
  show "\<exists>s. compute_inductive_nodes rng mal (Some ''Exp1'') n = Inr (Some s) \<and>
          int (length s) = ?k \<and> distinct s \<and> set s \<subseteq> {1 ..< n} \<and> set s \<inter> set mal = {}"
    using r s by (intro exI [of _ "rng ?av (nat ?k)"]) (auto simp add: is_sample_def)
next
  let ?k = "int_of_product n 3 10"
  assume h: "is_sample [1 .. n - 1] ?k (rng [1 .. n - 1] (nat ?k)) \<and> int (length mal) \<le> ?k"
  from inclusive_sample [of n ?k "rng [1 .. n - 1] (nat ?k)" mal] h
  obtain s where s: "assign_prefix (rng [1 .. n - 1] (nat ?k)) mal = Inr s"
    and p: "int (length s) = ?k \<and>
           take (length mal) s = mal \<and> distinct (drop (length mal) s) \<and>
           set (drop (length mal) s) \<subseteq> {1 ..< n} \<and> set mal \<subseteq> set s \<and>
           int (card (set s)) \<le> ?k \<and> ?k - int (length mal) \<le> int (card (set s))"
    by blast
  have "compute_inductive_nodes rng mal (Some ''Exp2'') n = Inr (Some s)"
    using h random_sample_ok [of "[1 .. n - 1]" ?k rng] s
    by (simp add: compute_inductive_nodes_def Let_def)
  with p show "\<exists>s. compute_inductive_nodes rng mal (Some ''Exp2'') n = Inr (Some s) \<and>
          int (length s) = ?k \<and>
          take (length mal) s = mal \<and> distinct (drop (length mal) s) \<and>
          set (drop (length mal) s) \<subseteq> {1 ..< n} \<and> set mal \<subseteq> set s \<and>
          int (card (set s)) \<le> ?k \<and> ?k - int (length mal) \<le> int (card (set s))"
    by blast
next
  let ?k = "int_of_product n 1 2"
  assume h: "is_sample [1 .. n - 1] ?k (rng [1 .. n - 1] (nat ?k)) \<and> int (length mal) \<le> ?k"
  from inclusive_sample [of n ?k "rng [1 .. n - 1] (nat ?k)" mal] h
  obtain s where s: "assign_prefix (rng [1 .. n - 1] (nat ?k)) mal = Inr s"
    and p: "int (length s) = ?k \<and>
           take (length mal) s = mal \<and> distinct (drop (length mal) s) \<and>
           set (drop (length mal) s) \<subseteq> {1 ..< n} \<and> set mal \<subseteq> set s \<and>
           int (card (set s)) \<le> ?k \<and> ?k - int (length mal) \<le> int (card (set s))"
    by blast
  have "compute_inductive_nodes rng mal (Some ''Exp3'') n = Inr (Some s)"
    using h random_sample_ok [of "[1 .. n - 1]" ?k rng] s
    by (simp add: compute_inductive_nodes_def Let_def)
  with p show "\<exists>s. compute_inductive_nodes rng mal (Some ''Exp3'') n = Inr (Some s) \<and>
          int (length s) = ?k \<and>
          take (length mal) s = mal \<and> distinct (drop (length mal) s) \<and>
          set (drop (length mal) s) \<subseteq> {1 ..< n} \<and> set mal \<subseteq> set s \<and>
          int (card (set s)) \<le> ?k \<and> ?k - int (length mal) \<le> int (card (set s))"
    by blast
next
  assume "0 \<le> n"
  then show "int_of_product n 3 10 = n * 3 div 10" by (simp add: int_of_product_def)
next
  assume "0 \<le> n"
  then show "int_of_product n 1 2 = n div 2" by (simp add: int_of_product_def)
qed

theorem compute_inductive_nodes_selection_witness:
  "compute_inductive_nodes first_k [3, 7] (Some ''Exp1'') 20 = Inr (Some [1, 2, 4, 5, 6, 8]) \<and>
   compute_inductive_nodes first_k [3, 7] (Some ''Exp2'') 20 = Inr (Some [3, 7, 3, 4, 5, 6]) \<and>
   compute_inductive_nodes first_k [3, 7] (Some ''Exp3'') 20
     = Inr (Some [3, 7, 3, 4, 5, 6, 7, 8, 9, 10]) \<and>
   int_of_product 20 3 10 = 6 \<and> int_of_product 20 1 2 = 10"
proof -
  have k: "int_of_product 20 3 10 = 6" "int_of_product 20 1 2 = 10"
    by (simp_all add: int_of_product_def)
  have h1: "is_sample (filter (\<lambda>x. x \<notin> set [3, 7]) [1 .. 20 - 1]) (int_of_product 20 3 10)
       (first_k (filter (\<lambda>x. x \<notin> set [3, 7]) [1 .. 20 - 1]) (nat (int_of_product 20 3 10)))"
    by (simp add: k is_sample_def first_k_def upto_rec1)
  have h2: "is_sample [1 .. 20 - 1] (int_of_product 20 3 10)
       (first_k [1 .. 20 - 1] (nat (int_of_product 20 3 10))) \<and>
       int (length [3, 7 :: int]) \<le> int_of_product 20 3 10"
    by (simp add: k is_sample_def first_k_def upto_rec1)
  have h3: "is_sample [1 .. 20 - 1] (int_of_product 20 1 2)
       (first_k [1 .. 20 - 1] (nat (int_of_product 20 1 2))) \<and>
       int (length [3, 7 :: int]) \<le> int_of_product 20 1 2"
    by (simp add: k is_sample_def first_k_def upto_rec1)
  note t = compute_inductive_nodes_selection [of "[3, 7]" 20 first_k]
  from t h1 obtain s1 where s1: "compute_inductive_nodes first_k [3, 7] (Some ''Exp1'') 20 = Inr (Some s1)"
    by blast
  from t h2 obtain s2 where s2: "compute_inductive_nodes first_k [3, 7] (Some ''Exp2'') 20 = Inr (Some s2)"
    by blast
  from t h3 obtain s3 where s3: "compute_inductive_nodes first_k [3, 7] (Some ''Exp3'') 20 = Inr (Some s3)"
    by blast
  have e1: "compute_inductive_nodes first_k [3, 7] (Some ''Exp1'') 20 = Inr (Some [1, 2, 4, 5, 6, 8])"
    by (simp add: compute_inductive_nodes_def k random_sample_def first_k_def Let_def upto_rec1)
  have e2: "compute_inductive_nodes first_k [3, 7] (Some ''Exp2'') 20 = Inr (Some [3, 7, 3, 4, 5, 6])"
    by (simp add: compute_inductive_nodes_def k random_sample_def first_k_def assign_prefix_def Let_def
          upto_rec1)
  have e3: "compute_inductive_nodes first_k [3, 7] (Some ''Exp3'') 20
     = Inr (Some [3, 7, 3, 4, 5, 6, 7, 8, 9, 10])"
    by (simp add: compute_inductive_nodes_def k random_sample_def first_k_def assign_prefix_def Let_def
          upto_rec1)
  show ?thesis using s1 s2 s3 e1 e2 e3 k by simp
qed

text \<open>
  The entries of an inclusive selection need not be distinct. On the OPTC constants
  (975 nodes, sensitive ids 201, 402 and 501) a draw of the ids 1 to 292 is overwritten to
  201, 402, 501, 4, ..., 292, in which 201 occurs twice: fewer than 292 distinct ids.
\<close>

lemma upto_drop_prefix:
  assumes "0 \<le> k" "i + k \<le> j + 1"
  shows "drop (nat k) [i .. j] = [i + k .. j]"
proof -
  have "[i .. j] = [i .. i + k - 1] @ [i + k .. j]"
    using assms upto_split2 [of i "i + k - 1" j]
    by (cases "k = 0") auto
  moreover have "length [i .. i + k - 1] = nat k" using assms by simp
  ultimately show ?thesis by simp
qed

lemma upto_take_prefix:
  assumes "0 \<le> k" "i + k \<le> j + 1"
  shows "take (nat k) [i .. j] = [i .. i + k - 1]"
proof -
  have "[i .. j] = [i .. i + k - 1] @ [i + k .. j]"
    using assms upto_split2 [of i "i + k - 1" j]
    by (cases "k = 0") auto
  moreover have "length [i .. i + k - 1] = nat k" using assms by simp
  ultimately show ?thesis by simp
qed

theorem inclusive_selection_repeats_id:
  "is_sample [1 .. 975 - 1] (int_of_product 975 3 10)
     (first_k [1 .. 975 - 1] (nat (int_of_product 975 3 10))) \<and>
   int_of_product 975 3 10 = 292 \<and>
   compute_inductive_nodes first_k (malicious_src_nodes ''OPTC'') (Some ''Exp2'') (nb_nodes ''OPTC'')
     = Inr (Some ([201, 402, 501] @ [4 .. 292])) \<and>
   \<not> distinct ([201, 402, 501] @ [4 .. 292]) \<and>
   card (set ([201, 402, 501] @ [4 .. 292])) < 292"
proof -
  have k: "int_of_product 975 3 10 = 292" by (simp add: int_of_product_def)
  have "take (nat 292) [1 .. 974] = [1 .. 1 + 292 - 1]"
    by (rule upto_take_prefix) simp_all
  then have tk: "take 292 [1 .. 974] = [1 .. 292]"
    by (simp only: nat_numeral) (simp only: add_diff_cancel_left')
  have "drop (nat 3) [1 .. 292] = [1 + 3 .. 292]"
    by (rule upto_drop_prefix) simp_all
  then have dr: "drop 3 [1 .. 292] = [4 .. 292]"
    by (simp only: nat_numeral) (simp only: one_plus_numeral semiring_norm)
  have dr': "drop (Suc (Suc (Suc 0))) [1 .. 292] = [4 .. 292]"
    using dr by (simp only: numeral_3_eq_3)
  have s: "is_sample [1 .. 975 - 1] (int_of_product 975 3 10)
     (first_k [1 .. 975 - 1] (nat (int_of_product 975 3 10)))"
    unfolding k first_k_def is_sample_def by (simp add: tk del: upto.simps)
  have c: "compute_inductive_nodes first_k (malicious_src_nodes ''OPTC'') (Some ''Exp2'') (nb_nodes ''OPTC'')
     = Inr (Some ([201, 402, 501] @ [4 .. 292]))"
    by (simp add: compute_inductive_nodes_def malicious_src_nodes_def nb_nodes_def
        OPTC_MALICIOUS_SRC_NODES_def k random_sample_def first_k_def assign_prefix_def tk dr' Let_def
        del: upto.simps upto_rec_numeral)
  have nd: "\<not> distinct ([201, 402, 501] @ [4 .. 292 :: int])"
    by (simp del: upto.simps upto_rec_numeral)
  have "card (set ([201, 402, 501] @ [4 .. 292 :: int])) \<noteq> length ([201, 402, 501] @ [4 .. 292 :: int])"
    using nd card_distinct by blast
  moreover have "card (set ([201, 402, 501] @ [4 .. 292 :: int])) \<le> length ([201, 402, 501] @ [4 .. 292 :: int])"
    by (rule card_length)
  moreover have "length ([201, 402, 501] @ [4 .. 292 :: int]) = 292"
    by (simp del: upto.simps upto_rec_numeral)
  ultimately have "card (set ([201, 402, 501] @ [4 .. 292 :: int])) < 292" by linarith
  with k s c nd show ?thesis by blast
qed

section \<open>Properties of the training run\<close>

subsection \<open>The calls of the training loop\<close>

lemma upto_shift_upt: "[k .. k + n - 1] = map (\<lambda>j. k + int j) [0 ..< nat n]"
proof (cases "0 \<le> n")
  case False
  then show ?thesis by simp
next
  case True
  have "[k .. k + int m - 1] = map (\<lambda>j. k + int j) [0 ..< m]" for m
  proof (induction m)
    case 0
    show ?case by simp
  next
    case (Suc m)
    have "[k .. k + int (Suc m) - 1] = [k .. k + int m - 1] @ [k + int m]"
      using upto_rec2 [of k "k + int m"] by simp
    with Suc show ?case by simp
  qed
  from this [of "nat n"] True show ?thesis by simp
qed

lemma upto_0_upt: "[0 .. n - 1] = map int [0 ..< nat n]"
  using upto_shift_upt [of 0 n] by simp

lemma map_add_upto: "map (\<lambda>j. k + j) [0 .. n - 1] = [k .. k + n - 1]"
  by (simp add: upto_0_upt upto_shift_upt comp_def)

lemma filter_less_upto: "filter (\<lambda>i. i < b) [a .. c] = [a .. min c (b - 1)]"
proof (rule sorted_distinct_set_unique)
  show "sorted (filter (\<lambda>i. i < b) [a .. c])" by (simp add: sorted_wrt_filter)
  show "distinct (filter (\<lambda>i. i < b) [a .. c])" by simp
  show "sorted [a .. min c (b - 1)]" by simp
  show "distinct [a .. min c (b - 1)]" by simp
  show "set (filter (\<lambda>i. i < b) [a .. c]) = set [a .. min c (b - 1)]" by auto
qed

lemma group_members:
  "filter (\<lambda>i. i < nb) (map (\<lambda>j. k + j) [0 .. n - 1]) = [k .. min (k + n) nb - 1]"
proof -
  have "min (k + n - 1) (nb - 1) = min (k + n) nb - 1" by simp
  then show ?thesis by (simp add: map_add_upto filter_less_upto)
qed

lemma last_prediction_append:
  "last_prediction (xs @ ys) =
     (case last_prediction ys of Some p \<Rightarrow> Some p | None \<Rightarrow> last_prediction xs)"
  by (induction xs) (auto split: option.splits)

lemma kept_refl: "kept st st"
  by (simp add: kept_def)

lemma kept_trans: "kept a b \<Longrightarrow> kept b c \<Longrightarrow> kept a c"
  by (simp add: kept_def)

lemma batch_step_effect:
  assumes "batch_step ops cfg d nb k st j = Inr st'"
  shows "trace st' = trace st @ (if k + j < nb then [batch_event cfg d (k + j)] else []) \<and>
         length (loss st') = length (loss st) + (if k + j < nb then 1 else 0) \<and>
         m_loss st' = m_loss st \<and> kept st st' \<and>
         (k + j < nb \<longrightarrow> \<not> single_edge_batch cfg d (k + j))"
  using assms
  by (auto simp add: batch_step_def batch_event_def single_edge_batch_def Let_def log_def
        kept_def distrib_right last_prediction_append split: prod.splits if_splits)

lemma batch_step_returns:
  assumes "k + j < nb \<longrightarrow> \<not> single_edge_batch cfg d (k + j)"
  shows "\<exists>st'. batch_step ops cfg d nb k st j = Inr st'"
  using assms
  by (auto simp add: batch_step_def single_edge_batch_def Let_def distrib_right
        split: prod.splits)

lemma batch_steps_effect:
  assumes "batch_steps ops cfg d nb k js st = Inr st'"
  shows "trace st' = trace st @ map (batch_event cfg d) (filter (\<lambda>i. i < nb) (map (\<lambda>j. k + j) js)) \<and>
         length (loss st') = length (loss st) + length (filter (\<lambda>i. i < nb) (map (\<lambda>j. k + j) js)) \<and>
         m_loss st' = m_loss st \<and> kept st st' \<and>
         (\<forall>i \<in> set (filter (\<lambda>i. i < nb) (map (\<lambda>j. k + j) js)). \<not> single_edge_batch cfg d i)"
  using assms
proof (induction js arbitrary: st)
  case Nil
  then show ?case by (simp add: kept_refl)
next
  case (Cons j js)
  from Cons.prems obtain st1 where 1: "batch_step ops cfg d nb k st j = Inr st1"
    and 2: "batch_steps ops cfg d nb k js st1 = Inr st'"
    by (auto split: sum.splits)
  note s = batch_step_effect [OF 1]
  note r = Cons.IH [OF 2]
  have "kept st st'" using s r kept_trans by blast
  then show ?case using s r by simp
qed

lemma batch_steps_returns:
  assumes "\<forall>j \<in> set js. k + j < nb \<longrightarrow> \<not> single_edge_batch cfg d (k + j)"
  shows "\<exists>st'. batch_steps ops cfg d nb k js st = Inr st'"
  using assms
proof (induction js arbitrary: st)
  case Nil
  show ?case by simp
next
  case (Cons j js)
  from batch_step_returns [of k j nb cfg d ops st] Cons.prems
  obtain st1 where 1: "batch_step ops cfg d nb k st j = Inr st1" by auto
  from Cons.IH [of st1] Cons.prems
  obtain st' where "batch_steps ops cfg d nb k js st1 = Inr st'" by auto
  with 1 show ?case by simp
qed

lemma train_group_trace:
  assumes "train_group ops cfg d nb k st = Inr st'"
  shows "trace st' = trace st @ group_events cfg d nb k \<and>
         length (m_loss st') = Suc (length (m_loss st)) \<and> kept st st' \<and>
         (\<forall>i \<in> set [k .. min (k + backprop_every cfg) nb - 1]. \<not> single_edge_batch cfg d i)"
proof -
  let ?st0 = "st\<lparr>loss := []\<rparr>"
  from assms obtain st1 where
    b: "batch_steps ops cfg d nb k [0 .. backprop_every cfg - 1] ?st0 = Inr st1"
    by (auto simp add: train_group_def split: sum.splits)
  note e = batch_steps_effect [OF b]
  have tr: "trace st1 = trace st @ map (batch_event cfg d) [k .. min (k + backprop_every cfg) nb - 1]"
    using e by (simp add: group_members)
  have ns: "\<forall>i \<in> set [k .. min (k + backprop_every cfg) nb - 1]. \<not> single_edge_batch cfg d i"
    using e by (simp only: group_members) blast
  have k0: "kept st ?st0" by (simp add: kept_def)
  have k1: "kept st st1" using e k0 kept_trans by blast
  have ml: "m_loss st1 = m_loss st" using e by simp
  obtain l w where bs: "backward_step ops (loss st1) (backprop_every cfg) (world st1) = (l, w)"
    by (cases "backward_step ops (loss st1) (backprop_every cfg) (world st1)")
  let ?st2 = "log OptimizerStep (st1\<lparr>world := w, m_loss := m_loss st1 @ [l]\<rparr>)"
  let ?st3 = "if USE_MEMORY cfg then do_detach_memory ?st2 else ?st2"
  have r: "st' = ?st3"
    using assms b bs by (simp add: train_group_def Let_def split: if_splits)
  have t3: "trace ?st3 = trace st @ group_events cfg d nb k"
    using tr by (simp add: group_events_def log_def do_detach_memory_def set_memory_def)
  have m3: "length (m_loss ?st3) = Suc (length (m_loss st))"
    using ml by (simp add: log_def do_detach_memory_def set_memory_def)
  have "kept st1 ?st3"
    by (simp add: kept_def log_def do_detach_memory_def set_memory_def last_prediction_append)
  with k1 have k3: "kept st ?st3" using kept_trans by blast
  show ?thesis using r t3 m3 k3 ns by simp
qed

lemma train_group_returns:
  assumes be: "0 < backprop_every cfg" and k: "k < nb"
    and ns: "\<forall>i \<in> set [k .. min (k + backprop_every cfg) nb - 1]. \<not> single_edge_batch cfg d i"
  shows "\<exists>st'. train_group ops cfg d nb k st = Inr st'"
proof -
  let ?st0 = "st\<lparr>loss := []\<rparr>"
  have "\<forall>j \<in> set [0 .. backprop_every cfg - 1]. k + j < nb \<longrightarrow> \<not> single_edge_batch cfg d (k + j)"
    using ns by auto
  from batch_steps_returns [OF this, of ops ?st0]
  obtain st1 where b: "batch_steps ops cfg d nb k [0 .. backprop_every cfg - 1] ?st0 = Inr st1"
    by blast
  have mem: "[k .. min (k + backprop_every cfg) nb - 1] \<noteq> []"
    using be k by simp
  have "length (loss st1) = length [k .. min (k + backprop_every cfg) nb - 1]"
    using batch_steps_effect [OF b] by (simp add: group_members del: length_upto)
  then have ne: "loss st1 \<noteq> []" using mem by (metis length_0_conv)
  show ?thesis
    using b ne by (simp add: train_group_def Let_def split: prod.splits)
qed

lemma train_groups_trace:
  assumes "train_groups ops cfg d nb ks st = Inr st'"
  shows "trace st' = trace st @ concat (map (group_events cfg d nb) ks) \<and>
         length (m_loss st') = length (m_loss st) + length ks \<and> kept st st' \<and>
         (\<forall>i \<in> set (concat (map (\<lambda>k. [k .. min (k + backprop_every cfg) nb - 1]) ks)).
            \<not> single_edge_batch cfg d i)"
  using assms
proof (induction ks arbitrary: st)
  case Nil
  then show ?case by (simp add: kept_refl)
next
  case (Cons k ks)
  from Cons.prems obtain st1 where 1: "train_group ops cfg d nb k st = Inr st1"
    and 2: "train_groups ops cfg d nb ks st1 = Inr st'"
    by (auto split: sum.splits)
  note g = train_group_trace [OF 1]
  note r = Cons.IH [OF 2]
  have "kept st st'" using g r kept_trans by blast
  then show ?case using g r by auto
qed

lemma train_groups_returns:
  assumes be: "0 < backprop_every cfg" and ks: "\<forall>k \<in> set ks. 0 \<le> k \<and> k < nb"
    and ns: "\<forall>i \<in> set [0 .. nb - 1]. \<not> single_edge_batch cfg d i"
  shows "\<exists>st'. train_groups ops cfg d nb ks st = Inr st'"
  using ks
proof (induction ks arbitrary: st)
  case Nil
  show ?case by simp
next
  case (Cons k ks)
  have "\<forall>i \<in> set [k .. min (k + backprop_every cfg) nb - 1]. \<not> single_edge_batch cfg d i"
    using ns Cons.prems by auto
  from train_group_returns [OF be _ this, of ops st] Cons.prems
  obtain st1 where g: "train_group ops cfg d nb k st = Inr st1" by auto
  from Cons.IH [of st1] Cons.prems
  obtain st2 where "train_groups ops cfg d nb ks st1 = Inr st2" by auto
  with g show ?case by simp
qed

lemma group_starts_below:
  assumes be: "0 < backprop_every cfg"
  shows "\<forall>k \<in> set (group_starts cfg nb). 0 \<le> k \<and> k < nb"
proof
  fix k assume "k \<in> set (group_starts cfg nb)"
  then have "k \<in> (\<lambda>g. int g * backprop_every cfg) `
      set [0 ..< nat ((nb + backprop_every cfg - 1) div backprop_every cfg)]"
    by (simp add: group_starts_def)
  then obtain g where g1: "g \<in> set [0 ..< nat ((nb + backprop_every cfg - 1) div backprop_every cfg)]"
    and g2: "k = int g * backprop_every cfg"
    by (rule imageE)
  from g1 g2 have g: "k = int g * backprop_every cfg"
    "int g < (nb + backprop_every cfg - 1) div backprop_every cfg"
    by simp_all
  let ?b = "backprop_every cfg"
  have "(int g + 1) * ?b \<le> ((nb + ?b - 1) div ?b) * ?b"
    using g(2) be by (intro mult_right_mono) simp_all
  also have "\<dots> \<le> nb + ?b - 1"
    using be div_mult_mod_eq [of "nb + ?b - 1" ?b] pos_mod_sign [of ?b "nb + ?b - 1"]
    by linarith
  finally have "k < nb" using g(1) by (simp add: distrib_right)
  moreover have "0 \<le> k" using g(1) be by simp
  ultimately show "0 \<le> k \<and> k < nb" by simp
qed

lemma py_range_groups:
  "0 < backprop_every cfg \<Longrightarrow> py_range 0 nb (backprop_every cfg) = Inr (group_starts cfg nb)"
  by (simp add: py_range_def group_starts_def)

text \<open>The state in which the first group of an epoch starts.\<close>

lemma train_epoch_trace:
  assumes "train_epoch ops cfg d nb st = Inr st'"
  shows "\<exists>ks. py_range 0 nb (backprop_every cfg) = Inr ks \<and>
           train_groups ops cfg d nb ks
             ((set_neighbor_finder TrainFinder
                 (if USE_MEMORY cfg then do_init_memory ops st else st))\<lparr>m_loss := []\<rparr>) = Inr st' \<and>
           trace st' = trace st @ (if USE_MEMORY cfg then [InitMemory] else [])
                         @ concat (map (group_events cfg d nb) ks) \<and>
           kept st st'"
proof -
  let ?s = "(set_neighbor_finder TrainFinder
                (if USE_MEMORY cfg then do_init_memory ops st else st))\<lparr>m_loss := []\<rparr>"
  from assms obtain ks where ks: "py_range 0 nb (backprop_every cfg) = Inr ks"
    and g: "train_groups ops cfg d nb ks ?s = Inr st'"
    by (auto simp add: train_epoch_def Let_def split: sum.splits)
  have t: "trace ?s = trace st @ (if USE_MEMORY cfg then [InitMemory] else [])"
    by (simp add: do_init_memory_def log_def set_memory_def set_neighbor_finder_def)
  have k: "kept st ?s"
    by (simp add: kept_def do_init_memory_def log_def set_memory_def set_neighbor_finder_def
          last_prediction_append)
  note e = train_groups_trace [OF g]
  have "kept st st'" using k e kept_trans by blast
  moreover have "trace st' = trace st @ (if USE_MEMORY cfg then [InitMemory] else [])
                         @ concat (map (group_events cfg d nb) ks)"
    using e t by simp
  ultimately show ?thesis using ks g by blast
qed

lemma train_epoch_returns:
  assumes be: "0 < backprop_every cfg"
    and ns: "\<forall>i \<in> set [0 .. nb - 1]. \<not> single_edge_batch cfg d i"
  shows "\<exists>st'. train_epoch ops cfg d nb st = Inr st'"
proof -
  let ?s = "(set_neighbor_finder TrainFinder
                (if USE_MEMORY cfg then do_init_memory ops st else st))\<lparr>m_loss := []\<rparr>"
  from train_groups_returns [OF be group_starts_below [OF be] ns, of ops ?s]
  obtain st' where "train_groups ops cfg d nb (group_starts cfg nb) ?s = Inr st'" by blast
  then show ?thesis by (simp add: train_epoch_def Let_def py_range_groups [OF be])
qed

subsection \<open>What the phases of an epoch change\<close>

lemma train_epoch_kept:
  assumes "train_epoch ops cfg d nb st = Inr st'"
  shows "kept st st'"
  using train_epoch_trace [OF assms] by blast

lemma do_eval_effect:
  assumes "do_eval_edge_prediction ops sp st = (r, st')"
  shows "trace st' = trace st @ [EvalEdgePrediction sp (res_threshold r)] \<and>
         thresholdOpt st' = Some (res_threshold r) \<and>
         last_prediction (trace st') = Some (sp, res_threshold r) \<and>
         val_aps st' = val_aps st \<and> new_nodes_val_aps st' = new_nodes_val_aps st \<and>
         train_losses st' = train_losses st \<and> epoch_times st' = epoch_times st \<and>
         total_epoch_times st' = total_epoch_times st \<and> results_file st' = results_file st \<and>
         m_loss st' = m_loss st \<and>
         train_memory_backup st' = train_memory_backup st \<and>
         val_memory_backup st' = val_memory_backup st"
  using assms
  by (auto simp add: do_eval_edge_prediction_def Let_def log_def last_prediction_append
        split: prod.splits)

lemma train_and_validate_effect:
  assumes "train_and_validate ops cfg d nb st = Inr (start, val_r, sv)"
  shows "thresholdOpt sv = Some (res_threshold val_r) \<and>
         last_prediction (trace sv) = Some (ValData, res_threshold val_r) \<and>
         val_aps sv = val_aps st \<and> new_nodes_val_aps sv = new_nodes_val_aps st \<and>
         train_losses sv = train_losses st \<and>
         (\<exists>t. epoch_times sv = epoch_times st @ [t]) \<and>
         total_epoch_times sv = total_epoch_times st \<and> results_file sv = results_file st \<and>
         (USE_MEMORY cfg \<longrightarrow> train_memory_backup sv \<noteq> None)"
proof -
  from assms obtain st1 where t: "train_epoch ops cfg d nb st = Inr st1"
    by (auto simp add: train_and_validate_def Let_def split: sum.splits)
  define st4 where "st4 =
    (if USE_MEMORY cfg
     then do_backup_memory TrainMemory (set_neighbor_finder FullFinder
            (st1\<lparr>epoch_times := epoch_times st1 @
               [float_sub ops (time_time ops (ext (world st1))) (time_time ops (ext (world st)))]\<rparr>))
     else set_neighbor_finder FullFinder
            (st1\<lparr>epoch_times := epoch_times st1 @
               [float_sub ops (time_time ops (ext (world st1))) (time_time ops (ext (world st)))]\<rparr>))"
  from assms t have e: "do_eval_edge_prediction ops ValData st4 = (val_r, sv)"
    by (auto simp add: train_and_validate_def Let_def st4_def split: prod.splits)
  have k: "kept st st1" using t by (rule train_epoch_kept)
  have 4: "val_aps st4 = val_aps st1 \<and> new_nodes_val_aps st4 = new_nodes_val_aps st1 \<and>
         train_losses st4 = train_losses st1 \<and>
         (\<exists>t. epoch_times st4 = epoch_times st1 @ [t]) \<and>
         total_epoch_times st4 = total_epoch_times st1 \<and> results_file st4 = results_file st1 \<and>
         (USE_MEMORY cfg \<longrightarrow> train_memory_backup st4 \<noteq> None)"
    by (simp add: st4_def set_neighbor_finder_def do_backup_memory_def log_def)
  show ?thesis
    using do_eval_effect [OF e] 4 k by (simp add: kept_def last_prediction_append)
qed

lemma train_and_validate_returns:
  assumes "train_epoch ops cfg d nb st = Inr st1"
  shows "\<exists>start val_r sv. train_and_validate ops cfg d nb st = Inr (start, val_r, sv)"
  using assms
  by (simp add: train_and_validate_def Let_def split: prod.splits)

lemma validate_new_nodes_effect:
  assumes "validate_new_nodes ops cfg sv = Inr (nn_r, st')"
  shows "thresholdOpt st' = Some (res_threshold nn_r) \<and>
         last_prediction (trace st') = Some (NewNodeValData, res_threshold nn_r) \<and>
         val_aps st' = val_aps sv \<and> new_nodes_val_aps st' = new_nodes_val_aps sv \<and>
         train_losses st' = train_losses sv \<and> epoch_times st' = epoch_times sv \<and>
         total_epoch_times st' = total_epoch_times sv \<and> results_file st' = results_file sv \<and>
         (USE_MEMORY cfg \<longrightarrow>
            trace st' = trace sv @ [BackupMemory ValMemory, RestoreMemory TrainMemory,
                          EvalEdgePrediction NewNodeValData (res_threshold nn_r),
                          RestoreMemory ValMemory] \<and>
            memory (world st') = memory (world sv) \<and>
            val_memory_backup st' = Some (memory (world sv)))"
proof -
  from assms obtain st1 where
    1: "(if USE_MEMORY cfg then do_restore_memory TrainMemory (do_backup_memory ValMemory sv)
         else Inr sv) = Inr st1"
    by (auto simp add: validate_new_nodes_def split: sum.splits)
  obtain r st2 where 2: "do_eval_edge_prediction ops NewNodeValData st1 = (r, st2)"
    by (cases "do_eval_edge_prediction ops NewNodeValData st1")
  from assms 1 2 have
    3: "(if USE_MEMORY cfg then do_restore_memory ValMemory st2 else Inr st2) = Inr st'"
    and rr: "r = nn_r"
    by (auto simp add: validate_new_nodes_def split: sum.splits)
  have a1: "trace st1 = trace sv @ (if USE_MEMORY cfg then [BackupMemory ValMemory, RestoreMemory TrainMemory] else []) \<and>
         val_aps st1 = val_aps sv \<and> new_nodes_val_aps st1 = new_nodes_val_aps sv \<and>
         train_losses st1 = train_losses sv \<and> epoch_times st1 = epoch_times sv \<and>
         total_epoch_times st1 = total_epoch_times sv \<and> results_file st1 = results_file sv \<and>
         (USE_MEMORY cfg \<longrightarrow> val_memory_backup st1 = Some (memory (world sv)))"
    using 1
    by (auto simp add: do_restore_memory_def do_backup_memory_def log_def set_memory_def
          backup_memory_def split: if_splits option.splits)
  note a2 = do_eval_effect [OF 2]
  have a3: "trace st' = trace st2 @ (if USE_MEMORY cfg then [RestoreMemory ValMemory] else []) \<and>
         thresholdOpt st' = thresholdOpt st2 \<and>
         val_aps st' = val_aps st2 \<and> new_nodes_val_aps st' = new_nodes_val_aps st2 \<and>
         train_losses st' = train_losses st2 \<and> epoch_times st' = epoch_times st2 \<and>
         total_epoch_times st' = total_epoch_times st2 \<and> results_file st' = results_file st2 \<and>
         val_memory_backup st' = val_memory_backup st2 \<and>
         (USE_MEMORY cfg \<longrightarrow> Some (memory (world st')) = val_memory_backup st2)"
    using 3
    by (auto simp add: do_restore_memory_def log_def set_memory_def restore_memory_def
          split: if_splits option.splits)
  have lp: "last_prediction (trace st') = Some (NewNodeValData, res_threshold nn_r)"
    using a2 a3 rr by (simp add: last_prediction_append)
  show ?thesis using a1 a2 a3 rr lp by auto
qed

lemma validate_new_nodes_returns:
  assumes "USE_MEMORY cfg \<longrightarrow> train_memory_backup sv \<noteq> None"
  shows "\<exists>nn_r st'. validate_new_nodes ops cfg sv = Inr (nn_r, st')"
proof (cases "USE_MEMORY cfg")
  case False
  then show ?thesis
    by (cases "do_eval_edge_prediction ops NewNodeValData sv")
       (simp add: validate_new_nodes_def)
next
  case True
  with assms obtain b where b: "train_memory_backup sv = Some b" by auto
  let ?st1 = "log (RestoreMemory TrainMemory)
      (set_memory (restore_memory b (memory (world (do_backup_memory ValMemory sv))))
         (do_backup_memory ValMemory sv))"
  have 1: "do_restore_memory TrainMemory (do_backup_memory ValMemory sv) = Inr ?st1"
    using b by (simp add: do_restore_memory_def do_backup_memory_def log_def)
  obtain r st2 where 2: "do_eval_edge_prediction ops NewNodeValData ?st1 = (r, st2)"
    by (cases "do_eval_edge_prediction ops NewNodeValData ?st1")
  have "val_memory_backup ?st1 \<noteq> None"
    by (simp add: do_backup_memory_def log_def set_memory_def)
  then have "val_memory_backup st2 \<noteq> None" using do_eval_effect [OF 2] by simp
  then obtain st3 where 3: "do_restore_memory ValMemory st2 = Inr st3"
    by (auto simp add: do_restore_memory_def)
  show ?thesis using True 1 2 3 by (simp add: validate_new_nodes_def)
qed

lemma save_results_effect:
  "trace (save_results ops start val_r nn_r st) = trace st @ [PickleDump] \<and>
   world (save_results ops start val_r nn_r st) = world st \<and>
   thresholdOpt (save_results ops start val_r nn_r st) = thresholdOpt st \<and>
   val_memory_backup (save_results ops start val_r nn_r st) = val_memory_backup st \<and>
   val_aps (save_results ops start val_r nn_r st) = val_aps st @ [res_ap val_r] \<and>
   new_nodes_val_aps (save_results ops start val_r nn_r st) = new_nodes_val_aps st @ [res_ap nn_r] \<and>
   train_losses (save_results ops start val_r nn_r st) = train_losses st @ [np_mean ops (m_loss st)] \<and>
   epoch_times (save_results ops start val_r nn_r st) = epoch_times st \<and>
   total_epoch_times (save_results ops start val_r nn_r st)
     = total_epoch_times st @ [float_sub ops (time_time ops (ext (world st))) start] \<and>
   results_file (save_results ops start val_r nn_r st) =
     Some \<lparr>saved_val_aps = val_aps st @ [res_ap val_r],
           saved_new_nodes_val_aps = new_nodes_val_aps st @ [res_ap nn_r],
           saved_train_losses = train_losses st @ [np_mean ops (m_loss st)],
           saved_epoch_times = epoch_times st,
           saved_total_epoch_times = total_epoch_times st\<rparr>"
  by (simp add: save_results_def Let_def log_def)

subsection \<open>Groups and batches cover the training split\<close>

lemma div_mult_bounds:
  fixes a b :: int
  assumes "0 < b"
  shows "(a div b) * b \<le> a" and "a < (a div b) * b + b"
  using assms div_mult_mod_eq [of a b] pos_mod_sign [of b a] pos_mod_bound [of b a]
  by linarith+

lemma groups_cover_upto:
  assumes be: "0 < be" and m: "int m \<le> (nb + be - 1) div be"
  shows "concat (map (\<lambda>g. [int g * be .. min (int g * be + be) nb - 1]) [0 ..< m])
           = [0 .. min (int m * be) nb - 1]"
  using m
proof (induction m)
  case 0
  show ?case by simp
next
  case (Suc m)
  let ?f = "\<lambda>g. [int g * be .. min (int g * be + be) nb - 1]"
  have "(int m + 1) * be \<le> ((nb + be - 1) div be) * be"
    using Suc.prems be by (intro mult_right_mono) simp_all
  also have "\<dots> \<le> nb + be - 1"
    using be by (rule div_mult_bounds)
  finally have lt: "int m * be < nb" by (simp add: distrib_right)
  have "int m \<le> (nb + be - 1) div be" using Suc.prems by simp
  then have "concat (map ?f [0 ..< m]) = [0 .. min (int m * be) nb - 1]" by (rule Suc.IH)
  then have ih: "concat (map ?f [0 ..< m]) = [0 .. int m * be - 1]"
    using lt by (simp add: min_def)
  have ge: "0 \<le> int m * be" using be by simp
  have split: "[0 .. int m * be - 1] @ [int m * be .. min (int m * be + be) nb - 1]
                 = [0 .. min (int m * be + be) nb - 1]"
  proof (cases "m = 0")
    case True
    then show ?thesis by simp
  next
    case False
    have "1 * 1 \<le> int m * be"
      using False be by (intro mult_mono) simp_all
    then have 1: "0 \<le> int m * be - 1" by simp
    have 2: "int m * be - 1 \<le> min (int m * be + be) nb - 1" using be lt by simp
    show ?thesis
      using upto_split2 [OF 1 2] by simp
  qed
  have e: "int (Suc m) * be = int m * be + be" by (simp add: distrib_right)
  have "concat (map ?f [0 ..< Suc m]) = concat (map ?f [0 ..< m]) @ ?f m" by simp
  also have "\<dots> = [0 .. int m * be - 1] @ [int m * be .. min (int m * be + be) nb - 1]"
    by (simp only: ih)
  also have "\<dots> = [0 .. min (int m * be + be) nb - 1]" by (rule split)
  also have "\<dots> = [0 .. min (int (Suc m) * be) nb - 1]" by (simp only: e)
  finally show ?case .
qed

lemma groups_cover:
  assumes be: "0 < backprop_every cfg"
  shows "concat (map (\<lambda>k. [k .. min (k + backprop_every cfg) nb - 1]) (group_starts cfg nb))
           = [0 .. nb - 1]"
proof -
  let ?b = "backprop_every cfg"
  let ?G = "nat ((nb + ?b - 1) div ?b)"
  have c: "concat (map (\<lambda>k. [k .. min (k + ?b) nb - 1]) (group_starts cfg nb))
          = concat (map (\<lambda>g. [int g * ?b .. min (int g * ?b + ?b) nb - 1]) [0 ..< ?G])"
    by (simp add: group_starts_def comp_def)
  show ?thesis
  proof (cases "0 < nb")
    case False
    have "((nb + ?b - 1) div ?b) * ?b \<le> nb + ?b - 1" using be by (rule div_mult_bounds)
    then have "((nb + ?b - 1) div ?b) * ?b < 1 * ?b" using False by simp
    then have "(nb + ?b - 1) div ?b < 1" using be by (simp only: mult_less_cancel_right_pos)
    then have "?G = 0" by simp
    then show ?thesis using c False by simp
  next
    case True
    then have pos: "0 \<le> (nb + ?b - 1) div ?b" using be by (simp add: pos_imp_zdiv_nonneg_iff)
    then have G: "int ?G = (nb + ?b - 1) div ?b" by simp
    have "nb + ?b - 1 < ((nb + ?b - 1) div ?b) * ?b + ?b"
      using be by (rule div_mult_bounds)
    then have "nb \<le> int ?G * ?b" using G by simp
    then have mn: "min (int ?G * ?b) nb = nb" by simp
    have "int ?G \<le> (nb + ?b - 1) div ?b" using G by simp
    from groups_cover_upto [OF be this] show ?thesis by (simp only: c mn)
  qed
qed

lemma filter_group_events:
  "filter is_train_batch (group_events cfg d nb k)
     = map (batch_event cfg d) [k .. min (k + backprop_every cfg) nb - 1]"
proof -
  have "filter is_train_batch (map (batch_event cfg d) xs) = map (batch_event cfg d) xs" for xs
    by (induction xs) (simp_all add: batch_event_def Let_def)
  then show ?thesis by (simp add: group_events_def)
qed

lemma filter_training_events:
  assumes be: "0 < backprop_every cfg"
  shows "filter is_train_batch (training_events cfg d nb) = map (batch_event cfg d) [0 .. nb - 1]"
proof -
  have "filter is_train_batch (concat (map (group_events cfg d nb) ks))
          = map (batch_event cfg d) (concat (map (\<lambda>k. [k .. min (k + backprop_every cfg) nb - 1]) ks))"
    for ks
    by (induction ks) (simp_all add: filter_group_events)
  then show ?thesis
    using groups_cover [OF be, of nb] by (simp add: training_events_def)
qed

lemma slice_in_range:
  "0 \<le> a \<Longrightarrow> a \<le> b \<Longrightarrow> b \<le> int (length xs) \<Longrightarrow>
   py_slice xs a b = take (nat b - nat a) (drop (nat a) xs)"
  by (simp add: py_slice_def slice_bound_def min_def)

lemma chunks_cover: "concat (map (\<lambda>j. take b (drop (j * b) xs)) [0 ..< m]) = take (m * b) xs"
proof (induction m)
  case 0
  show ?case by simp
next
  case (Suc m)
  have "take (m * b + b) xs = take (m * b) xs @ take b (drop (m * b) xs)"
    by (simp add: take_add)
  with Suc show ?case by (simp add: add.commute)
qed

lemma slices_cover:
  assumes bs: "0 < bs" and nb: "nb = ceil_div (int (length xs)) bs"
  shows "concat (map (\<lambda>i. py_slice xs (i * bs) (min (int (length xs)) ((i + 1) * bs))) [0 .. nb - 1])
           = xs"
proof -
  let ?N = "int (length xs)"
  let ?b = "nat bs"
  have b: "int ?b = bs" using bs by simp
  have q: "nb * bs = - (((- ?N) div bs) * bs)" by (simp add: nb ceil_div_def)
  have upper: "?N \<le> nb * bs"
    using div_mult_bounds(1) [OF bs, of "- ?N"] q by linarith
  have below: "nb * bs < ?N + bs"
    using div_mult_bounds(2) [OF bs, of "- ?N"] q by linarith
  have nbpos: "0 \<le> nb"
  proof (rule ccontr)
    assume "\<not> 0 \<le> nb"
    then have "nb * bs < 0 * bs" using bs by (simp only: mult_less_cancel_right_pos)
    with upper show False by simp
  qed
  have lower: "int j * bs < ?N" if "j < nat nb" for j
  proof -
    have "(int j + 1) * bs \<le> nb * bs" using that bs by (intro mult_right_mono) simp_all
    then show ?thesis using below by (simp add: distrib_right)
  qed
  have each: "py_slice xs (int j * bs) (min ?N ((int j + 1) * bs)) = take ?b (drop (j * ?b) xs)"
    if "j < nat nb" for j
  proof -
    have l: "int j * bs < ?N" using that by (rule lower)
    have a: "nat (int j * bs) = j * ?b" using bs by (simp add: nat_mult_distrib)
    have "py_slice xs (int j * bs) (min ?N ((int j + 1) * bs))
            = take (nat (min ?N ((int j + 1) * bs)) - nat (int j * bs)) (drop (nat (int j * bs)) xs)"
      using bs l by (intro slice_in_range) (simp_all add: distrib_right)
    also have "\<dots> = take (min (length xs) (j * ?b + ?b) - j * ?b) (drop (j * ?b) xs)"
    proof -
      have "int (j * ?b + ?b) = int j * bs + bs"
        using b by (simp only: of_nat_add of_nat_mult)
      then have "int (min (length xs) (j * ?b + ?b)) = min ?N (int j * bs + bs)"
        by (simp only: of_nat_min)
      then have "int (min (length xs) (j * ?b + ?b)) = min ?N ((int j + 1) * bs)"
        by (simp only: distrib_right mult_1)
      then have "nat (min ?N ((int j + 1) * bs)) = min (length xs) (j * ?b + ?b)"
        by (metis nat_int)
      then show ?thesis by (simp only: a)
    qed
    also have "\<dots> = take ?b (drop (j * ?b) xs)"
      by (cases "length xs \<le> j * ?b + ?b") (simp_all add: min_def)
    finally show ?thesis .
  qed
  have "concat (map (\<lambda>i. py_slice xs (i * bs) (min ?N ((i + 1) * bs))) [0 .. nb - 1])
          = concat (map (\<lambda>j. py_slice xs (int j * bs) (min ?N ((int j + 1) * bs))) [0 ..< nat nb])"
    by (simp add: upto_0_upt comp_def)
  also have "\<dots> = concat (map (\<lambda>j. take ?b (drop (j * ?b) xs)) [0 ..< nat nb])"
    using each by (intro arg_cong [where f = concat] map_cong) simp_all
  also have "\<dots> = take (nat nb * ?b) xs" by (rule chunks_cover)
  also have "\<dots> = xs"
  proof -
    have "int (nat nb * ?b) = nb * bs" using nbpos bs by simp
    then have "length xs \<le> nat nb * ?b" using upper by linarith
    then show ?thesis by simp
  qed
  finally show ?thesis .
qed

subsection \<open>The order of the calls in an epoch and the memory they leave\<close>

lemma first_group_state:
  "USE_MEMORY cfg \<Longrightarrow>
   (set_neighbor_finder TrainFinder
      (if USE_MEMORY cfg then do_init_memory ops st else st))\<lparr>m_loss := []\<rparr>
     = st\<lparr>world := (world st)\<lparr>memory := mem_zero ops, neighbor_finder := TrainFinder\<rparr>,
          trace := trace st @ [InitMemory], m_loss := []\<rparr>"
  by (simp add: set_neighbor_finder_def do_init_memory_def init_memory_def set_memory_def log_def)

lemma epoch_body_dataflow:
  assumes um: "USE_MEMORY cfg"
    and r: "epoch_body ops cfg d nb st = Inr (val_ap, st')"
  shows "\<exists>st1 val_r w_val nn_r w_new.
           train_epoch ops cfg d nb st = Inr st1 \<and>
           eval_edge_prediction ops ValData ((world st1)\<lparr>neighbor_finder := FullFinder\<rparr>)
             = (val_r, w_val) \<and>
           eval_edge_prediction ops NewNodeValData (w_val\<lparr>memory := memory (world st1)\<rparr>)
             = (nn_r, w_new) \<and>
           trace st' = trace st1
             @ [BackupMemory TrainMemory, EvalEdgePrediction ValData (res_threshold val_r),
                BackupMemory ValMemory, RestoreMemory TrainMemory,
                EvalEdgePrediction NewNodeValData (res_threshold nn_r),
                RestoreMemory ValMemory, PickleDump] \<and>
           train_memory_backup st' = Some (memory (world st1)) \<and>
           val_memory_backup st' = Some (memory w_val) \<and>
           world st' = w_new\<lparr>memory := memory w_val\<rparr> \<and>
           val_ap = res_ap val_r"
proof -
  from r obtain st1 where t: "train_epoch ops cfg d nb st = Inr st1"
    by (auto simp add: epoch_body_def train_and_validate_def Let_def split: sum.splits)
  obtain val_r w_val where
    e1: "eval_edge_prediction ops ValData ((world st1)\<lparr>neighbor_finder := FullFinder\<rparr>)
           = (val_r, w_val)"
    by (cases "eval_edge_prediction ops ValData ((world st1)\<lparr>neighbor_finder := FullFinder\<rparr>)")
  obtain nn_r w_new where
    e2: "eval_edge_prediction ops NewNodeValData (w_val\<lparr>memory := memory (world st1)\<rparr>)
           = (nn_r, w_new)"
    by (cases "eval_edge_prediction ops NewNodeValData (w_val\<lparr>memory := memory (world st1)\<rparr>)")
  have "trace st' = trace st1
             @ [BackupMemory TrainMemory, EvalEdgePrediction ValData (res_threshold val_r),
                BackupMemory ValMemory, RestoreMemory TrainMemory,
                EvalEdgePrediction NewNodeValData (res_threshold nn_r),
                RestoreMemory ValMemory, PickleDump] \<and>
           train_memory_backup st' = Some (memory (world st1)) \<and>
           val_memory_backup st' = Some (memory w_val) \<and>
           world st' = w_new\<lparr>memory := memory w_val\<rparr> \<and>
           val_ap = res_ap val_r"
    using r t e1 e2 um
    by (auto simp add: epoch_body_def train_and_validate_def validate_new_nodes_def
          save_results_def do_eval_edge_prediction_def do_backup_memory_def
          do_restore_memory_def set_neighbor_finder_def set_memory_def log_def
          backup_memory_def restore_memory_def Let_def)
  with t e1 e2 show ?thesis by blast
qed

text \<open>The first epoch of the small run, evaluated.\<close>

lemma small_epoch:
  "map_sum id (map_prod id observe)
     (epoch_body counting_ops small_config small_data 3 (initial_state new_world Map.empty))
   = Inr (7,
       [InitMemory,
        TrainBatch 0 0 2 ([1, 2], [4, 5], [1, 2], [10, 20]),
        TrainBatch 1 2 4 ([3, 1], [6, 5], [3, 4], [30, 40]), OptimizerStep, DetachMemory,
        TrainBatch 2 4 6 ([2, 3], [4, 6], [5, 6], [50, 60]), OptimizerStep, DetachMemory,
        BackupMemory TrainMemory, EvalEdgePrediction ValData 1,
        BackupMemory ValMemory, RestoreMemory TrainMemory,
        EvalEdgePrediction NewNodeValData 2, RestoreMemory ValMemory, PickleDump],
       \<lparr>ext = 2, memory = 14, neighbor_finder = FullFinder\<rparr>, Some 4, Some 14, Some 2,
       Some \<lparr>saved_val_aps = [7], saved_new_nodes_val_aps = [9], saved_train_losses = [3],
             saved_epoch_times = [2], saved_total_epoch_times = []\<rparr>,
       ([7], [9], [3], [2], [2]), None)"
  by code_simp

lemma observed_epoch:
  "map_sum id (map_prod id observe) r = Inr (a, b) \<Longrightarrow> \<exists>st. r = Inr (a, st) \<and> observe st = b"
  by (cases r) auto

lemma observed_state:
  "map_sum id observe r = Inr b \<Longrightarrow> \<exists>st. r = Inr st \<and> observe st = b"
  by (cases r) auto

lemma small_batches:
  "list_all (\<lambda>i. \<not> single_edge_batch small_config small_data i) [0 .. 3 - 1]"
  by code_simp

text \<open>
  C1, amended. In every epoch with memory enabled that runs to its end, as every epoch
  does when the batch size and \<open>backprop_every\<close> are positive and none of the
  \<open>ceil(N / batch_size)\<close> training batches has exactly one edge, the calls occur in
  exactly this order: \<open>init_memory\<close> at the start, so that the first group
  starts from the zero memory; for each gradient-accumulation group its batches, the
  parameter update and then \<open>detach\<close>; the backup of the train memory after the last group
  and before the validation on seen nodes; after that validation the backup of the val
  memory and the restore of the train memory, so that the validation on unseen nodes
  starts from the memory left by the training; the restore of the val memory after it;
  the write of the results. At that point the live memory is the memory at the end of the
  validation on seen nodes, and so it is at the end of every epoch whose early-stop check
  lets the run go on, when the live state is saved as the checkpoint of the epoch. In the
  epoch whose check stops the run, the checkpoint of the best epoch is loaded after it,
  and the model state at the end of the epoch is what \<open>load_state_dict\<close> makes of it.
\<close>

theorem epoch_memory_protocol:
  assumes um: "USE_MEMORY cfg"
  shows "(0 < BATCH_SIZE cfg \<and> nb = ceil_div (int (length (sources d))) (BATCH_SIZE cfg) \<and>
          0 < backprop_every cfg \<and> (\<forall>i \<in> set [0 .. nb - 1]. \<not> single_edge_batch cfg d i) \<longrightarrow>
           (\<exists>val_ap st'. epoch_body ops cfg d nb st = Inr (val_ap, st'))) \<and>
         (\<forall>val_ap st'. epoch_body ops cfg d nb st = Inr (val_ap, st') \<longrightarrow>
           (\<exists>ks st1 val_r w_val nn_r w_new.
              py_range 0 nb (backprop_every cfg) = Inr ks \<and>
              train_groups ops cfg d nb ks
                (st\<lparr>world := (world st)\<lparr>memory := mem_zero ops, neighbor_finder := TrainFinder\<rparr>,
                    trace := trace st @ [InitMemory], m_loss := []\<rparr>) = Inr st1 \<and>
              trace st1 = trace st @ [InitMemory]
                @ concat (map (\<lambda>k. map (batch_event cfg d) [k .. min (k + backprop_every cfg) nb - 1]
                                      @ [OptimizerStep, DetachMemory]) ks) \<and>
              eval_edge_prediction ops ValData ((world st1)\<lparr>neighbor_finder := FullFinder\<rparr>)
                = (val_r, w_val) \<and>
              eval_edge_prediction ops NewNodeValData (w_val\<lparr>memory := memory (world st1)\<rparr>)
                = (nn_r, w_new) \<and>
              trace st' = trace st1
                @ [BackupMemory TrainMemory, EvalEdgePrediction ValData (res_threshold val_r),
                   BackupMemory ValMemory, RestoreMemory TrainMemory,
                   EvalEdgePrediction NewNodeValData (res_threshold nn_r),
                   RestoreMemory ValMemory, PickleDump] \<and>
              train_memory_backup st' = Some (memory (world st1)) \<and>
              val_memory_backup st' = Some (memory w_val) \<and>
              world st' = w_new\<lparr>memory := memory w_val\<rparr> \<and>
              (\<forall>epoch st''. early_stopping ops epoch val_ap st' = Inr (False, st'') \<longrightarrow>
                 trace st'' = trace st' @ [SaveCheckpoint epoch] \<and>
                 memory (world st'') = memory w_val \<and>
                 checkpoints st'' epoch = Some (world st'')) \<and>
              (\<forall>epoch st''. early_stopping ops epoch val_ap st' = Inr (True, st'') \<longrightarrow>
                 (\<exists>x saved.
                    early_stop_check ops val_ap (ext (world st')) = (True, x) \<and>
                    checkpoints st' (best_epoch ops x) = Some saved \<and>
                    trace st'' = trace st' @ [LoadStateDict (best_epoch ops x)] \<and>
                    world st'' = load_state_dict ops saved ((world st')\<lparr>ext := x\<rparr>)))))"
proof (rule conjI)
  show "0 < BATCH_SIZE cfg \<and> nb = ceil_div (int (length (sources d))) (BATCH_SIZE cfg) \<and>
          0 < backprop_every cfg \<and> (\<forall>i \<in> set [0 .. nb - 1]. \<not> single_edge_batch cfg d i) \<longrightarrow>
           (\<exists>val_ap st'. epoch_body ops cfg d nb st = Inr (val_ap, st'))"
  proof
    assume h: "0 < BATCH_SIZE cfg \<and> nb = ceil_div (int (length (sources d))) (BATCH_SIZE cfg) \<and>
          0 < backprop_every cfg \<and> (\<forall>i \<in> set [0 .. nb - 1]. \<not> single_edge_batch cfg d i)"
    then have be: "0 < backprop_every cfg"
      and ns: "\<forall>i \<in> set [0 .. nb - 1]. \<not> single_edge_batch cfg d i"
      by simp_all
    from train_epoch_returns [OF be ns, of ops st]
    obtain st1 where t: "train_epoch ops cfg d nb st = Inr st1" by blast
    from train_and_validate_returns [OF t]
    obtain start_epoch val_r sv where
      tv: "train_and_validate ops cfg d nb st = Inr (start_epoch, val_r, sv)"
      by blast
    have "USE_MEMORY cfg \<longrightarrow> train_memory_backup sv \<noteq> None"
      using train_and_validate_effect [OF tv] by blast
    from validate_new_nodes_returns [OF this, of ops]
    obtain nn_r st2 where vn: "validate_new_nodes ops cfg sv = Inr (nn_r, st2)" by blast
    show "\<exists>val_ap st'. epoch_body ops cfg d nb st = Inr (val_ap, st')"
      using tv vn by (simp add: epoch_body_def)
  qed
next
  show "\<forall>val_ap st'. epoch_body ops cfg d nb st = Inr (val_ap, st') \<longrightarrow>
           (\<exists>ks st1 val_r w_val nn_r w_new.
              py_range 0 nb (backprop_every cfg) = Inr ks \<and>
              train_groups ops cfg d nb ks
                (st\<lparr>world := (world st)\<lparr>memory := mem_zero ops, neighbor_finder := TrainFinder\<rparr>,
                    trace := trace st @ [InitMemory], m_loss := []\<rparr>) = Inr st1 \<and>
              trace st1 = trace st @ [InitMemory]
                @ concat (map (\<lambda>k. map (batch_event cfg d) [k .. min (k + backprop_every cfg) nb - 1]
                                      @ [OptimizerStep, DetachMemory]) ks) \<and>
              eval_edge_prediction ops ValData ((world st1)\<lparr>neighbor_finder := FullFinder\<rparr>)
                = (val_r, w_val) \<and>
              eval_edge_prediction ops NewNodeValData (w_val\<lparr>memory := memory (world st1)\<rparr>)
                = (nn_r, w_new) \<and>
              trace st' = trace st1
                @ [BackupMemory TrainMemory, EvalEdgePrediction ValData (res_threshold val_r),
                   BackupMemory ValMemory, RestoreMemory TrainMemory,
                   EvalEdgePrediction NewNodeValData (res_threshold nn_r),
                   RestoreMemory ValMemory, PickleDump] \<and>
              train_memory_backup st' = Some (memory (world st1)) \<and>
              val_memory_backup st' = Some (memory w_val) \<and>
              world st' = w_new\<lparr>memory := memory w_val\<rparr> \<and>
              (\<forall>epoch st''. early_stopping ops epoch val_ap st' = Inr (False, st'') \<longrightarrow>
                 trace st'' = trace st' @ [SaveCheckpoint epoch] \<and>
                 memory (world st'') = memory w_val \<and>
                 checkpoints st'' epoch = Some (world st'')) \<and>
              (\<forall>epoch st''. early_stopping ops epoch val_ap st' = Inr (True, st'') \<longrightarrow>
                 (\<exists>x saved.
                    early_stop_check ops val_ap (ext (world st')) = (True, x) \<and>
                    checkpoints st' (best_epoch ops x) = Some saved \<and>
                    trace st'' = trace st' @ [LoadStateDict (best_epoch ops x)] \<and>
                    world st'' = load_state_dict ops saved ((world st')\<lparr>ext := x\<rparr>))))"
  proof (intro allI impI)
    fix val_ap st'
    assume r: "epoch_body ops cfg d nb st = Inr (val_ap, st')"
    from epoch_body_dataflow [OF um r] obtain st1 val_r w_val nn_r w_new where
      t: "train_epoch ops cfg d nb st = Inr st1" and
      e1: "eval_edge_prediction ops ValData ((world st1)\<lparr>neighbor_finder := FullFinder\<rparr>)
             = (val_r, w_val)" and
      e2: "eval_edge_prediction ops NewNodeValData (w_val\<lparr>memory := memory (world st1)\<rparr>)
             = (nn_r, w_new)" and
      t': "trace st' = trace st1
             @ [BackupMemory TrainMemory, EvalEdgePrediction ValData (res_threshold val_r),
                BackupMemory ValMemory, RestoreMemory TrainMemory,
                EvalEdgePrediction NewNodeValData (res_threshold nn_r),
                RestoreMemory ValMemory, PickleDump]" and
      tb: "train_memory_backup st' = Some (memory (world st1))" and
      vb: "val_memory_backup st' = Some (memory w_val)" and
      w': "world st' = w_new\<lparr>memory := memory w_val\<rparr>"
      by blast
    from train_epoch_trace [OF t] um obtain ks where
      ks: "py_range 0 nb (backprop_every cfg) = Inr ks" and
      g0: "train_groups ops cfg d nb ks
             ((set_neighbor_finder TrainFinder
                 (if USE_MEMORY cfg then do_init_memory ops st else st))\<lparr>m_loss := []\<rparr>) = Inr st1" and
      t1: "trace st1 = trace st @ [InitMemory] @ concat (map (group_events cfg d nb) ks)"
      by auto
    have g: "train_groups ops cfg d nb ks
                (st\<lparr>world := (world st)\<lparr>memory := mem_zero ops, neighbor_finder := TrainFinder\<rparr>,
                    trace := trace st @ [InitMemory], m_loss := []\<rparr>) = Inr st1"
      using g0 by (simp only: first_group_state [OF um])
    have ge: "group_events cfg d nb
            = (\<lambda>k. map (batch_event cfg d) [k .. min (k + backprop_every cfg) nb - 1]
                    @ [OptimizerStep, DetachMemory])"
      using um by (simp add: group_events_def fun_eq_iff)
    have tr: "trace st1 = trace st @ [InitMemory]
                @ concat (map (\<lambda>k. map (batch_event cfg d) [k .. min (k + backprop_every cfg) nb - 1]
                                      @ [OptimizerStep, DetachMemory]) ks)"
      using t1 by (simp only: ge)
    have m': "memory (world st') = memory w_val" by (simp add: w')
    have es: "\<forall>epoch st''. early_stopping ops epoch val_ap st' = Inr (False, st'') \<longrightarrow>
              trace st'' = trace st' @ [SaveCheckpoint epoch] \<and>
              memory (world st'') = memory w_val \<and>
              checkpoints st'' epoch = Some (world st'')"
      using m'
      by (auto simp add: early_stopping_def Let_def log_def
            split: prod.splits if_splits option.splits)
    have el: "\<forall>epoch st''. early_stopping ops epoch val_ap st' = Inr (True, st'') \<longrightarrow>
                 (\<exists>x saved.
                    early_stop_check ops val_ap (ext (world st')) = (True, x) \<and>
                    checkpoints st' (best_epoch ops x) = Some saved \<and>
                    trace st'' = trace st' @ [LoadStateDict (best_epoch ops x)] \<and>
                    world st'' = load_state_dict ops saved ((world st')\<lparr>ext := x\<rparr>))"
      by (auto simp add: early_stopping_def Let_def log_def
            split: prod.splits if_splits option.splits)
    show "\<exists>ks st1 val_r w_val nn_r w_new.
              py_range 0 nb (backprop_every cfg) = Inr ks \<and>
              train_groups ops cfg d nb ks
                (st\<lparr>world := (world st)\<lparr>memory := mem_zero ops, neighbor_finder := TrainFinder\<rparr>,
                    trace := trace st @ [InitMemory], m_loss := []\<rparr>) = Inr st1 \<and>
              trace st1 = trace st @ [InitMemory]
                @ concat (map (\<lambda>k. map (batch_event cfg d) [k .. min (k + backprop_every cfg) nb - 1]
                                      @ [OptimizerStep, DetachMemory]) ks) \<and>
              eval_edge_prediction ops ValData ((world st1)\<lparr>neighbor_finder := FullFinder\<rparr>)
                = (val_r, w_val) \<and>
              eval_edge_prediction ops NewNodeValData (w_val\<lparr>memory := memory (world st1)\<rparr>)
                = (nn_r, w_new) \<and>
              trace st' = trace st1
                @ [BackupMemory TrainMemory, EvalEdgePrediction ValData (res_threshold val_r),
                   BackupMemory ValMemory, RestoreMemory TrainMemory,
                   EvalEdgePrediction NewNodeValData (res_threshold nn_r),
                   RestoreMemory ValMemory, PickleDump] \<and>
              train_memory_backup st' = Some (memory (world st1)) \<and>
              val_memory_backup st' = Some (memory w_val) \<and>
              world st' = w_new\<lparr>memory := memory w_val\<rparr> \<and>
              (\<forall>epoch st''. early_stopping ops epoch val_ap st' = Inr (False, st'') \<longrightarrow>
                 trace st'' = trace st' @ [SaveCheckpoint epoch] \<and>
                 memory (world st'') = memory w_val \<and>
                 checkpoints st'' epoch = Some (world st'')) \<and>
              (\<forall>epoch st''. early_stopping ops epoch val_ap st' = Inr (True, st'') \<longrightarrow>
                 (\<exists>x saved.
                    early_stop_check ops val_ap (ext (world st')) = (True, x) \<and>
                    checkpoints st' (best_epoch ops x) = Some saved \<and>
                    trace st'' = trace st' @ [LoadStateDict (best_epoch ops x)] \<and>
                    world st'' = load_state_dict ops saved ((world st')\<lparr>ext := x\<rparr>)))"
      by (intro exI conjI)
         (rule ks, rule g, rule tr, rule e1, rule e2, rule t', rule tb, rule vb, rule w',
          rule es, rule el)
  qed
qed

theorem epoch_memory_protocol_witness:
  "USE_MEMORY small_config \<and> 0 < BATCH_SIZE small_config \<and>
   3 = ceil_div (int (length (sources small_data))) (BATCH_SIZE small_config) \<and>
   0 < backprop_every small_config \<and>
   list_all (\<lambda>i. \<not> single_edge_batch small_config small_data i) [0 .. 3 - 1] \<and>
   (\<exists>val_ap st' st''.
      epoch_body counting_ops small_config small_data 3 (initial_state new_world Map.empty)
        = Inr (val_ap, st') \<and>
      trace st'
        = [InitMemory,
           TrainBatch 0 0 2 ([1, 2], [4, 5], [1, 2], [10, 20]),
           TrainBatch 1 2 4 ([3, 1], [6, 5], [3, 4], [30, 40]), OptimizerStep, DetachMemory,
           TrainBatch 2 4 6 ([2, 3], [4, 6], [5, 6], [50, 60]), OptimizerStep, DetachMemory,
           BackupMemory TrainMemory, EvalEdgePrediction ValData 1,
           BackupMemory ValMemory, RestoreMemory TrainMemory,
           EvalEdgePrediction NewNodeValData 2, RestoreMemory ValMemory, PickleDump] \<and>
      train_memory_backup st' = Some 4 \<and>
      val_memory_backup st' = Some 14 \<and>
      world st' = \<lparr>ext = 2, memory = 14, neighbor_finder = FullFinder\<rparr> \<and>
      early_stopping counting_ops 0 val_ap st' = Inr (False, st'') \<and>
      memory (world st'') = 14 \<and>
      checkpoints st'' 0 = Some (world st''))"
proof -
  have um: "USE_MEMORY small_config" and be: "0 < backprop_every small_config"
    and bs: "0 < BATCH_SIZE small_config"
    by (simp_all add: small_config_def)
  have nb: "3 = ceil_div (int (length (sources small_data))) (BATCH_SIZE small_config)"
    by (simp add: ceil_div_def small_data_def small_config_def)
  have ns: "\<forall>i \<in> set [0 .. 3 - 1]. \<not> single_edge_batch small_config small_data i"
    using small_batches by (simp only: list_all_iff)
  note t = epoch_memory_protocol [OF um, of 3 small_data counting_ops
      "initial_state new_world Map.empty"]
  from t bs nb be ns obtain val_ap and st' :: "(nat, nat, nat) state" where
    r: "epoch_body counting_ops small_config small_data 3 (initial_state new_world Map.empty)
          = Inr (val_ap, st')"
    by blast
  from observed_epoch [OF small_epoch] r have
    o: "observe st' =
      ([InitMemory,
        TrainBatch 0 0 2 ([1, 2], [4, 5], [1, 2], [10, 20]),
        TrainBatch 1 2 4 ([3, 1], [6, 5], [3, 4], [30, 40]), OptimizerStep, DetachMemory,
        TrainBatch 2 4 6 ([2, 3], [4, 6], [5, 6], [50, 60]), OptimizerStep, DetachMemory,
        BackupMemory TrainMemory, EvalEdgePrediction ValData 1,
        BackupMemory ValMemory, RestoreMemory TrainMemory,
        EvalEdgePrediction NewNodeValData 2, RestoreMemory ValMemory, PickleDump],
       \<lparr>ext = 2, memory = 14, neighbor_finder = FullFinder\<rparr>, Some 4, Some 14, Some 2,
       Some \<lparr>saved_val_aps = [7], saved_new_nodes_val_aps = [9], saved_train_losses = [3],
             saved_epoch_times = [2], saved_total_epoch_times = []\<rparr>,
       ([7], [9], [3], [2], [2]), None)"
    by auto
  from t r obtain w_val :: "(nat, nat) world" where
    vb: "val_memory_backup st' = Some (memory w_val)" and
    es: "\<forall>epoch st''. early_stopping counting_ops epoch val_ap st' = Inr (False, st'') \<longrightarrow>
              trace st'' = trace st' @ [SaveCheckpoint epoch] \<and>
              memory (world st'') = memory w_val \<and>
              checkpoints st'' epoch = Some (world st'')"
    by blast
  have w: "world st' = \<lparr>ext = 2, memory = 14, neighbor_finder = FullFinder\<rparr>"
    using o by (simp add: observe_def)
  obtain st'' where s: "early_stopping counting_ops 0 val_ap st' = Inr (False, st'')"
    using w by (simp add: early_stopping_def counting_ops_def Let_def)
  from es s have "memory (world st'') = memory w_val" "checkpoints st'' 0 = Some (world st'')"
    by blast+
  moreover have "memory w_val = 14" using vb o by (simp add: observe_def)
  ultimately show ?thesis
    using um bs nb be small_batches r s o by (auto simp add: observe_def)
qed

text \<open>
  In the small run the monitor stops the run in the second epoch. The training of that
  epoch leaves the memory 10 and its validation on seen nodes makes it 20, which is the val
  memory restored before the write of the results; the checkpoint of epoch 0 is then
  loaded, and the epoch ends with the memory 14 of that checkpoint.
\<close>

lemma small_loop:
  "map_sum id observe
     (epoch_loop counting_ops small_config small_data 3 [0 .. NUM_EPOCH small_config - 1]
        (initial_state new_world Map.empty))
   = Inr ([InitMemory,
        TrainBatch 0 0 2 ([1, 2], [4, 5], [1, 2], [10, 20]),
        TrainBatch 1 2 4 ([3, 1], [6, 5], [3, 4], [30, 40]), OptimizerStep, DetachMemory,
        TrainBatch 2 4 6 ([2, 3], [4, 6], [5, 6], [50, 60]), OptimizerStep, DetachMemory,
        BackupMemory TrainMemory, EvalEdgePrediction ValData 1,
        BackupMemory ValMemory, RestoreMemory TrainMemory,
        EvalEdgePrediction NewNodeValData 2, RestoreMemory ValMemory, PickleDump,
        SaveCheckpoint 0,
        InitMemory,
        TrainBatch 0 0 2 ([1, 2], [4, 5], [1, 2], [10, 20]),
        TrainBatch 1 2 4 ([3, 1], [6, 5], [3, 4], [30, 40]), OptimizerStep, DetachMemory,
        TrainBatch 2 4 6 ([2, 3], [4, 6], [5, 6], [50, 60]), OptimizerStep, DetachMemory,
        BackupMemory TrainMemory, EvalEdgePrediction ValData 1,
        BackupMemory ValMemory, RestoreMemory TrainMemory,
        EvalEdgePrediction NewNodeValData 2, RestoreMemory ValMemory, PickleDump,
        LoadStateDict 0],
       \<lparr>ext = 2, memory = 14, neighbor_finder = FullFinder\<rparr>, Some 10, Some 20, Some 2,
       Some \<lparr>saved_val_aps = [7, 7], saved_new_nodes_val_aps = [9, 9],
             saved_train_losses = [3, 3], saved_epoch_times = [2, 2],
             saved_total_epoch_times = [2]\<rparr>,
       ([7, 7], [9, 9], [3, 3], [2, 2], [2, 2]), None)"
  by code_simp

theorem stopping_epoch_loads_checkpoint:
  "\<exists>st. epoch_loop counting_ops small_config small_data 3 [0 .. NUM_EPOCH small_config - 1]
          (initial_state new_world Map.empty) = Inr st \<and>
        trace st
          = [InitMemory,
             TrainBatch 0 0 2 ([1, 2], [4, 5], [1, 2], [10, 20]),
             TrainBatch 1 2 4 ([3, 1], [6, 5], [3, 4], [30, 40]), OptimizerStep, DetachMemory,
             TrainBatch 2 4 6 ([2, 3], [4, 6], [5, 6], [50, 60]), OptimizerStep, DetachMemory,
             BackupMemory TrainMemory, EvalEdgePrediction ValData 1,
             BackupMemory ValMemory, RestoreMemory TrainMemory,
             EvalEdgePrediction NewNodeValData 2, RestoreMemory ValMemory, PickleDump,
             SaveCheckpoint 0,
             InitMemory,
             TrainBatch 0 0 2 ([1, 2], [4, 5], [1, 2], [10, 20]),
             TrainBatch 1 2 4 ([3, 1], [6, 5], [3, 4], [30, 40]), OptimizerStep, DetachMemory,
             TrainBatch 2 4 6 ([2, 3], [4, 6], [5, 6], [50, 60]), OptimizerStep, DetachMemory,
             BackupMemory TrainMemory, EvalEdgePrediction ValData 1,
             BackupMemory ValMemory, RestoreMemory TrainMemory,
             EvalEdgePrediction NewNodeValData 2, RestoreMemory ValMemory, PickleDump,
             LoadStateDict 0] \<and>
        train_memory_backup st = Some 10 \<and>
        memory (snd (eval_edge_prediction counting_ops ValData
                       \<lparr>ext = 4, memory = 10, neighbor_finder = FullFinder\<rparr>)) = 20 \<and>
        val_memory_backup st = Some 20 \<and>
        world st = \<lparr>ext = 2, memory = 14, neighbor_finder = FullFinder\<rparr> \<and>
        memory (world st) \<noteq> 20"
proof -
  from observed_state [OF small_loop] obtain st :: "(nat, nat, nat) state" where
    "epoch_loop counting_ops small_config small_data 3 [0 .. NUM_EPOCH small_config - 1]
          (initial_state new_world Map.empty) = Inr st"
    and "observe st = ([InitMemory,
        TrainBatch 0 0 2 ([1, 2], [4, 5], [1, 2], [10, 20]),
        TrainBatch 1 2 4 ([3, 1], [6, 5], [3, 4], [30, 40]), OptimizerStep, DetachMemory,
        TrainBatch 2 4 6 ([2, 3], [4, 6], [5, 6], [50, 60]), OptimizerStep, DetachMemory,
        BackupMemory TrainMemory, EvalEdgePrediction ValData 1,
        BackupMemory ValMemory, RestoreMemory TrainMemory,
        EvalEdgePrediction NewNodeValData 2, RestoreMemory ValMemory, PickleDump,
        SaveCheckpoint 0,
        InitMemory,
        TrainBatch 0 0 2 ([1, 2], [4, 5], [1, 2], [10, 20]),
        TrainBatch 1 2 4 ([3, 1], [6, 5], [3, 4], [30, 40]), OptimizerStep, DetachMemory,
        TrainBatch 2 4 6 ([2, 3], [4, 6], [5, 6], [50, 60]), OptimizerStep, DetachMemory,
        BackupMemory TrainMemory, EvalEdgePrediction ValData 1,
        BackupMemory ValMemory, RestoreMemory TrainMemory,
        EvalEdgePrediction NewNodeValData 2, RestoreMemory ValMemory, PickleDump,
        LoadStateDict 0],
       \<lparr>ext = 2, memory = 14, neighbor_finder = FullFinder\<rparr>, Some 10, Some 20, Some 2,
       Some \<lparr>saved_val_aps = [7, 7], saved_new_nodes_val_aps = [9, 9],
             saved_train_losses = [3, 3], saved_epoch_times = [2, 2],
             saved_total_epoch_times = [2]\<rparr>,
       ([7, 7], [9, 9], [3, 3], [2, 2], [2, 2]), None)"
    by blast
  moreover have "memory (snd (eval_edge_prediction counting_ops ValData
                       \<lparr>ext = 4, memory = 10, neighbor_finder = FullFinder\<rparr>)) = 20"
    by (simp add: counting_ops_def)
  ultimately show ?thesis by (auto simp add: observe_def)
qed

subsection \<open>The batches of an epoch\<close>

text \<open>
  With a positive batch size, a positive \<open>backprop_every\<close> and no batch of exactly one
  edge, the training part of an epoch processes the \<open>N\<close> training edges as
  \<open>ceil(N / batch_size)\<close> batches in the order of their indices, batch \<open>i\<close> being the slice
  from \<open>i * batch_size\<close> to \<open>min(N, (i + 1) * batch_size)\<close>; a group runs only its members
  below the batch count; and the slices, put one after the other, are the arrays of the
  training split.
\<close>

lemma training_batches_cover:
  assumes bs: "0 < BATCH_SIZE cfg" and be: "0 < backprop_every cfg"
    and nb: "nb = ceil_div (int (length (sources d))) (BATCH_SIZE cfg)"
    and ns: "\<forall>i \<in> set [0 .. nb - 1]. \<not> single_edge_batch cfg d i"
  shows "\<exists>st'. train_epoch ops cfg d nb st = Inr st' \<and>
           trace st' = trace st @ training_events cfg d nb \<and>
           filter is_train_batch (training_events cfg d nb)
             = map (batch_event cfg d) [0 .. nb - 1] \<and>
           concat (map (\<lambda>i. py_slice (sources d) (i * BATCH_SIZE cfg)
                               (min (int (length (sources d))) ((i + 1) * BATCH_SIZE cfg)))
                       [0 .. nb - 1]) = sources d"
proof -
  from train_epoch_returns [OF be ns, of ops st]
  obtain st' where t: "train_epoch ops cfg d nb st = Inr st'" by blast
  from train_epoch_trace [OF t] py_range_groups [OF be, of nb]
  have "trace st' = trace st @ training_events cfg d nb"
    by (auto simp add: training_events_def)
  with t filter_training_events [OF be, of d nb] slices_cover [OF bs nb]
  show ?thesis by blast
qed

text \<open>
  With a positive \<open>backprop_every\<close>, the training part of an epoch ends without an
  exception or with the \<open>ValueError\<close> of line 304, and it ends with that error whenever one
  of its batches has exactly one edge.
\<close>

lemma batch_step_outcomes:
  "(\<exists>st'. batch_step ops cfg d nb k st j = Inr st') \<or>
   batch_step ops cfg d nb k st j = Inl ValueError"
  by (simp add: batch_step_def Let_def split: prod.splits)

lemma batch_steps_outcomes:
  "(\<exists>st'. batch_steps ops cfg d nb k js st = Inr st') \<or>
   batch_steps ops cfg d nb k js st = Inl ValueError"
proof (induction js arbitrary: st)
  case Nil
  show ?case by simp
next
  case (Cons j js)
  from batch_step_outcomes [of ops cfg d nb k st j] show ?case
  proof
    assume "\<exists>st'. batch_step ops cfg d nb k st j = Inr st'"
    then obtain st1 where "batch_step ops cfg d nb k st j = Inr st1" ..
    with Cons.IH [of st1] show ?thesis by simp
  next
    assume "batch_step ops cfg d nb k st j = Inl ValueError"
    then show ?thesis by simp
  qed
qed

lemma train_group_outcomes:
  assumes be: "0 < backprop_every cfg" and k: "k < nb"
  shows "(\<exists>st'. train_group ops cfg d nb k st = Inr st') \<or>
         train_group ops cfg d nb k st = Inl ValueError"
proof -
  let ?st0 = "st\<lparr>loss := []\<rparr>"
  from batch_steps_outcomes [of ops cfg d nb k "[0 .. backprop_every cfg - 1]" ?st0]
  show ?thesis
  proof
    assume "\<exists>st1. batch_steps ops cfg d nb k [0 .. backprop_every cfg - 1] ?st0 = Inr st1"
    then obtain st1 where
      b: "batch_steps ops cfg d nb k [0 .. backprop_every cfg - 1] ?st0 = Inr st1" ..
    have mem: "[k .. min (k + backprop_every cfg) nb - 1] \<noteq> []"
      using be k by simp
    have "length (loss st1) = length [k .. min (k + backprop_every cfg) nb - 1]"
      using batch_steps_effect [OF b] by (simp add: group_members del: length_upto)
    then have ne: "loss st1 \<noteq> []" using mem by (metis length_0_conv)
    show ?thesis
      using b ne by (simp add: train_group_def Let_def split: prod.splits)
  next
    assume "batch_steps ops cfg d nb k [0 .. backprop_every cfg - 1] ?st0 = Inl ValueError"
    then show ?thesis by (simp add: train_group_def)
  qed
qed

lemma train_groups_outcomes:
  assumes be: "0 < backprop_every cfg" and ks: "\<forall>k \<in> set ks. 0 \<le> k \<and> k < nb"
  shows "(\<exists>st'. train_groups ops cfg d nb ks st = Inr st') \<or>
         train_groups ops cfg d nb ks st = Inl ValueError"
  using ks
proof (induction ks arbitrary: st)
  case Nil
  show ?case by simp
next
  case (Cons k ks)
  then have k: "k < nb" by simp
  from train_group_outcomes [OF be k, of ops d st] show ?case
  proof
    assume "\<exists>st'. train_group ops cfg d nb k st = Inr st'"
    then obtain st1 where "train_group ops cfg d nb k st = Inr st1" ..
    with Cons.IH [of st1] Cons.prems show ?thesis by simp
  next
    assume "train_group ops cfg d nb k st = Inl ValueError"
    then show ?thesis by simp
  qed
qed

lemma single_edge_batch_stops_epoch:
  assumes be: "0 < backprop_every cfg" and i: "i \<in> set [0 .. nb - 1]"
    and s: "single_edge_batch cfg d i"
  shows "train_epoch ops cfg d nb st = Inl ValueError"
proof -
  let ?s = "(set_neighbor_finder TrainFinder
                (if USE_MEMORY cfg then do_init_memory ops st else st))\<lparr>m_loss := []\<rparr>"
  have e: "train_epoch ops cfg d nb st = train_groups ops cfg d nb (group_starts cfg nb) ?s"
    by (simp add: train_epoch_def Let_def py_range_groups [OF be])
  from train_groups_outcomes [OF be group_starts_below [OF be], of ops d nb ?s]
  show ?thesis
  proof
    assume "\<exists>st'. train_groups ops cfg d nb (group_starts cfg nb) ?s = Inr st'"
    then obtain st' where g: "train_groups ops cfg d nb (group_starts cfg nb) ?s = Inr st'" ..
    from train_groups_trace [OF g]
    have "\<forall>i \<in> set (concat (map (\<lambda>k. [k .. min (k + backprop_every cfg) nb - 1])
                        (group_starts cfg nb))). \<not> single_edge_batch cfg d i"
      by blast
    then have "\<forall>i \<in> set [0 .. nb - 1]. \<not> single_edge_batch cfg d i"
      by (simp only: groups_cover [OF be])
    with i s show ?thesis by blast
  next
    assume "train_groups ops cfg d nb (group_starts cfg nb) ?s = Inl ValueError"
    with e show ?thesis by simp
  qed
qed

text \<open>The first group of the epoch on five training edges in batches of two, evaluated.\<close>

lemma odd_first_group:
  "map_sum id observe
     (train_group counting_ops small_config odd_data 3 0 (initial_state new_world Map.empty))
   = Inr ([TrainBatch 0 0 2 ([1, 2], [4, 5], [1, 2], [10, 20]),
           TrainBatch 1 2 4 ([3, 1], [6, 5], [3, 4], [30, 40]), OptimizerStep, DetachMemory],
          \<lparr>ext = 1, memory = 2, neighbor_finder = TrainFinder\<rparr>, None, None, None, None,
          ([], [], [], [], []), None)"
  by code_simp

text \<open>
  When the number of training edges leaves the remainder 1 on division by the batch size,
  the last batch has exactly one edge; with the batch size 1 every batch has.
\<close>

lemma last_batch_single:
  assumes bs: "0 < BATCH_SIZE cfg"
    and m: "int (length (sources d)) mod BATCH_SIZE cfg = 1"
  shows "ceil_div (int (length (sources d))) (BATCH_SIZE cfg) - 1
           \<in> set [0 .. ceil_div (int (length (sources d))) (BATCH_SIZE cfg) - 1] \<and>
         single_edge_batch cfg d (ceil_div (int (length (sources d))) (BATCH_SIZE cfg) - 1)"
proof -
  let ?N = "int (length (sources d))"
  let ?b = "BATCH_SIZE cfg"
  define q where "q = ?N div ?b"
  have N: "?N = q * ?b + 1" using m div_mult_mod_eq [of ?N ?b] by (simp add: q_def)
  have b1: "1 < ?b"
  proof (rule ccontr)
    assume "\<not> 1 < ?b"
    with bs have "?b = 1" by simp
    with m show False by simp
  qed
  have q0: "0 \<le> q" using bs by (simp add: q_def pos_imp_zdiv_nonneg_iff)
  have "(- ?N) div ?b = - q - 1"
    using bs m zdiv_zminus1_eq_if [of ?b ?N] by (simp add: q_def)
  then have nb: "ceil_div ?N ?b = q + 1" by (simp add: ceil_div_def)
  have mn: "min ?N ((q + 1) * ?b) = ?N" using N b1 by (simp add: distrib_right)
  have qb: "0 \<le> q * ?b" using q0 bs by simp
  have "py_slice (sources d) (q * ?b) ?N
          = take (nat ?N - nat (q * ?b)) (drop (nat (q * ?b)) (sources d))"
    using qb N by (intro slice_in_range) simp_all
  moreover have "nat ?N - nat (q * ?b) = 1" using N qb by simp
  moreover have "nat (q * ?b) < length (sources d)" using N qb by simp
  ultimately have "length (py_slice (sources d) (q * ?b) ?N) = 1" by simp
  then have "single_edge_batch cfg d q" by (simp add: single_edge_batch_def mn)
  then show ?thesis using q0 by (simp add: nb)
qed

lemma first_batch_single:
  assumes bs: "BATCH_SIZE cfg = 1" and ne: "sources d \<noteq> []"
  shows "0 \<in> set [0 .. ceil_div (int (length (sources d))) (BATCH_SIZE cfg) - 1] \<and>
         single_edge_batch cfg d 0"
proof -
  from ne obtain x xs where "sources d = x # xs" by (cases "sources d") auto
  then show ?thesis
    by (simp add: bs ceil_div_def single_edge_batch_def py_slice_def slice_bound_def)
qed

text \<open>
  C7. The script computes \<open>num_batch = ceil(N / batch_size)\<close> batches and cuts batch \<open>i\<close>
  from \<open>i * batch_size\<close> to \<open>min(N, (i + 1) * batch_size)\<close>, as the claim says; but when
  \<open>N mod batch_size = 1\<close> the last of these batches has exactly one edge, and so has every
  batch when the batch size is 1. Line 304 raises \<open>ValueError\<close> on such a batch: the
  training part of the first epoch ends with that error, and so does the run, whatever
  the collaborators do. The training edges of that batch and of the batches after it are
  never processed.
\<close>

theorem one_edge_batch_aborts:
  assumes bs: "0 < BATCH_SIZE cfg" and be: "0 < backprop_every cfg" and ne: "0 < NUM_EPOCH cfg"
    and one: "int (length (sources d)) mod BATCH_SIZE cfg = 1 \<or>
              BATCH_SIZE cfg = 1 \<and> sources d \<noteq> []"
  shows "(\<exists>i. 0 \<le> i \<and> i < ceil_div (int (length (sources d))) (BATCH_SIZE cfg) \<and>
              single_edge_batch cfg d i) \<and>
         train_epoch ops cfg d (ceil_div (int (length (sources d))) (BATCH_SIZE cfg)) st
           = Inl ValueError \<and>
         run ops cfg d w files = Inl ValueError"
proof -
  let ?nb = "ceil_div (int (length (sources d))) (BATCH_SIZE cfg)"
  from one last_batch_single [OF bs, of d] first_batch_single [of cfg d]
  obtain i where i: "i \<in> set [0 .. ?nb - 1]" and s: "single_edge_batch cfg d i"
    by blast
  have t: "train_epoch ops cfg d ?nb st' = Inl ValueError" for st'
    using be i s by (rule single_edge_batch_stops_epoch)
  have "[0 .. NUM_EPOCH cfg - 1] = 0 # [1 .. NUM_EPOCH cfg - 1]"
    using ne by (simp add: upto_rec1)
  then have "epoch_loop ops cfg d ?nb [0 .. NUM_EPOCH cfg - 1] (initial_state w files)
               = Inl ValueError"
    using t [of "initial_state w files"]
    by (simp add: epoch_body_def train_and_validate_def Let_def)
  then have "run ops cfg d w files = Inl ValueError"
    using bs by (simp add: run_def Let_def)
  moreover have "\<exists>i. 0 \<le> i \<and> i < ?nb \<and> single_edge_batch cfg d i"
    using i s by auto
  ultimately show ?thesis using t [of st] by simp
qed

text \<open>
  On a training split of five edges with batches of two there are three batches and the
  third is the slice from 4 to 5, one edge: the first group processes the batches 0 and 1,
  the second group raises \<open>ValueError\<close>, and the epoch and the run end with that error.
\<close>

theorem one_edge_batch_aborts_witness:
  "0 < BATCH_SIZE small_config \<and> 0 < backprop_every small_config \<and>
   0 < NUM_EPOCH small_config \<and>
   int (length (sources odd_data)) mod BATCH_SIZE small_config = 1 \<and>
   ceil_div (int (length (sources odd_data))) (BATCH_SIZE small_config) = 3 \<and>
   batch_event small_config odd_data 2 = TrainBatch 2 4 5 ([2], [4], [5], [50]) \<and>
   single_edge_batch small_config odd_data 2 \<and>
   (\<exists>st. train_group counting_ops small_config odd_data 3 0 (initial_state new_world Map.empty)
            = Inr st \<and>
          trace st = [TrainBatch 0 0 2 ([1, 2], [4, 5], [1, 2], [10, 20]),
                      TrainBatch 1 2 4 ([3, 1], [6, 5], [3, 4], [30, 40]),
                      OptimizerStep, DetachMemory] \<and>
          world st = \<lparr>ext = 1, memory = 2, neighbor_finder = TrainFinder\<rparr> \<and>
          train_group counting_ops small_config odd_data 3 2 st = Inl ValueError) \<and>
   train_epoch counting_ops small_config odd_data 3 (initial_state new_world Map.empty)
     = Inl ValueError \<and>
   run counting_ops small_config odd_data new_world Map.empty = Inl ValueError"
proof -
  have h: "0 < BATCH_SIZE small_config" "0 < backprop_every small_config"
    "0 < NUM_EPOCH small_config"
    by (simp_all add: small_config_def)
  have nb: "ceil_div (int (length (sources odd_data))) (BATCH_SIZE small_config) = 3"
    by (simp add: ceil_div_def odd_data_def small_config_def)
  have ev: "batch_event small_config odd_data 2 = TrainBatch 2 4 5 ([2], [4], [5], [50])"
    by (simp add: batch_event_def odd_data_def small_config_def py_slice_def slice_bound_def
          Let_def)
  have s: "single_edge_batch small_config odd_data 2"
    by (simp add: single_edge_batch_def odd_data_def small_config_def py_slice_def
          slice_bound_def)
  from observed_state [OF odd_first_group] obtain st :: "(nat, nat, nat) state" where
    g: "train_group counting_ops small_config odd_data 3 0 (initial_state new_world Map.empty)
          = Inr st"
    and o: "observe st
          = ([TrainBatch 0 0 2 ([1, 2], [4, 5], [1, 2], [10, 20]),
              TrainBatch 1 2 4 ([3, 1], [6, 5], [3, 4], [30, 40]), OptimizerStep, DetachMemory],
             \<lparr>ext = 1, memory = 2, neighbor_finder = TrainFinder\<rparr>, None, None, None, None,
             ([], [], [], [], []), None)"
    by blast
  have "\<not> (\<exists>st'. train_group counting_ops small_config odd_data 3 2 st = Inr st')"
  proof
    assume "\<exists>st'. train_group counting_ops small_config odd_data 3 2 st = Inr st'"
    then obtain st' where "train_group counting_ops small_config odd_data 3 2 st = Inr st'" ..
    from train_group_trace [OF this]
    have "\<forall>i \<in> set [2 .. min (2 + backprop_every small_config) 3 - 1].
            \<not> single_edge_batch small_config odd_data i"
      by blast
    then have "\<not> single_edge_batch small_config odd_data 2"
      by (simp add: small_config_def)
    with s show False by simp
  qed
  with train_group_outcomes [OF h(2), of 2 3 counting_ops odd_data st]
  have g2: "train_group counting_ops small_config odd_data 3 2 st = Inl ValueError" by simp
  have one: "int (length (sources odd_data)) mod BATCH_SIZE small_config = 1 \<or>
             BATCH_SIZE small_config = 1 \<and> sources odd_data \<noteq> []"
    by (simp add: odd_data_def small_config_def)
  from one_edge_batch_aborts [OF h one, of counting_ops "initial_state new_world Map.empty"
      new_world Map.empty]
  have ep: "train_epoch counting_ops small_config odd_data 3 (initial_state new_world Map.empty)
              = Inl ValueError"
    and rn: "run counting_ops small_config odd_data new_world Map.empty = Inl ValueError"
    by (simp_all add: nb)
  have md: "int (length (sources odd_data)) mod BATCH_SIZE small_config = 1"
    by (simp add: odd_data_def small_config_def)
  show ?thesis
    using h md nb ev s g o g2 ep rn by (auto simp add: observe_def)
qed

subsection \<open>What an epoch and the loop over the epochs establish\<close>

lemma epoch_body_effect:
  assumes "epoch_body ops cfg d nb st = Inr (val_ap, st')"
  shows "(\<exists>th. thresholdOpt st' = Some th \<and>
              last_prediction (trace st') = Some (NewNodeValData, th)) \<and>
         (\<exists>evs. trace st' = trace st @ evs @ [PickleDump]) \<and>
         (\<exists>nn_ap l t tt.
            val_aps st' = val_aps st @ [val_ap] \<and>
            new_nodes_val_aps st' = new_nodes_val_aps st @ [nn_ap] \<and>
            train_losses st' = train_losses st @ [l] \<and>
            epoch_times st' = epoch_times st @ [t] \<and>
            total_epoch_times st' = total_epoch_times st @ [tt] \<and>
            results_file st' =
              Some \<lparr>saved_val_aps = val_aps st @ [val_ap],
                    saved_new_nodes_val_aps = new_nodes_val_aps st @ [nn_ap],
                    saved_train_losses = train_losses st @ [l],
                    saved_epoch_times = epoch_times st @ [t],
                    saved_total_epoch_times = total_epoch_times st\<rparr>)"
proof -
  from assms obtain start_epoch val_r sv where
    tv: "train_and_validate ops cfg d nb st = Inr (start_epoch, val_r, sv)"
    by (auto simp add: epoch_body_def split: sum.splits)
  from assms tv obtain nn_r st2 where
    vn: "validate_new_nodes ops cfg sv = Inr (nn_r, st2)"
    by (auto simp add: epoch_body_def split: sum.splits)
  from assms tv vn have st': "st' = save_results ops start_epoch val_r nn_r st2"
    and ap: "val_ap = res_ap val_r"
    by (simp_all add: epoch_body_def)
  note e1 = train_and_validate_effect [OF tv]
  note e2 = validate_new_nodes_effect [OF vn]
  note e3 = save_results_effect [of ops start_epoch val_r nn_r st2]
  have th: "\<exists>th. thresholdOpt st' = Some th \<and>
              last_prediction (trace st') = Some (NewNodeValData, th)"
    using e2 e3 by (simp add: st' last_prediction_append)
  have tr: "\<exists>evs. trace st' = trace st @ evs @ [PickleDump]"
  proof -
    from tv obtain st1 where t: "train_epoch ops cfg d nb st = Inr st1"
      by (auto simp add: train_and_validate_def Let_def split: sum.splits)
    from train_epoch_trace [OF t] have 1: "\<exists>evs. trace st1 = trace st @ evs" by auto
    define st4 where "st4 =
      (if USE_MEMORY cfg
       then do_backup_memory TrainMemory (set_neighbor_finder FullFinder
              (st1\<lparr>epoch_times := epoch_times st1 @
                 [float_sub ops (time_time ops (ext (world st1))) (time_time ops (ext (world st)))]\<rparr>))
       else set_neighbor_finder FullFinder
              (st1\<lparr>epoch_times := epoch_times st1 @
                 [float_sub ops (time_time ops (ext (world st1))) (time_time ops (ext (world st)))]\<rparr>))"
    from tv t have e: "do_eval_edge_prediction ops ValData st4 = (val_r, sv)"
      by (auto simp add: train_and_validate_def Let_def st4_def split: prod.splits)
    have 2: "\<exists>evs. trace st4 = trace st1 @ evs"
      by (simp add: st4_def set_neighbor_finder_def do_backup_memory_def log_def)
    have 3: "\<exists>evs. trace sv = trace st4 @ evs" using do_eval_effect [OF e] by simp
    have 4: "\<exists>evs. trace st2 = trace sv @ evs"
    proof -
      from vn obtain a where
        a: "(if USE_MEMORY cfg then do_restore_memory TrainMemory (do_backup_memory ValMemory sv)
             else Inr sv) = Inr a"
        by (auto simp add: validate_new_nodes_def split: sum.splits)
      obtain r b where b: "do_eval_edge_prediction ops NewNodeValData a = (r, b)"
        by (cases "do_eval_edge_prediction ops NewNodeValData a")
      from vn a b have c: "(if USE_MEMORY cfg then do_restore_memory ValMemory b else Inr b) = Inr st2"
        by (auto simp add: validate_new_nodes_def split: sum.splits)
      have "\<exists>evs. trace a = trace sv @ evs"
        using a by (auto simp add: do_restore_memory_def do_backup_memory_def log_def set_memory_def
              split: if_splits option.splits)
      moreover have "\<exists>evs. trace b = trace a @ evs" using do_eval_effect [OF b] by simp
      moreover have "\<exists>evs. trace st2 = trace b @ evs"
        using c by (auto simp add: do_restore_memory_def log_def set_memory_def
              split: if_splits option.splits)
      ultimately show ?thesis by (metis append_assoc)
    qed
    from 1 2 3 4 obtain evs where "trace st2 = trace st @ evs" by (metis append_assoc)
    then show ?thesis using e3 by (simp add: st')
  qed
  from e1 obtain t where t: "epoch_times sv = epoch_times st @ [t]" by blast
  have se: "val_aps st' = val_aps st @ [val_ap] \<and>
            new_nodes_val_aps st' = new_nodes_val_aps st @ [res_ap nn_r] \<and>
            train_losses st' = train_losses st @ [np_mean ops (m_loss st2)] \<and>
            epoch_times st' = epoch_times st @ [t] \<and>
            total_epoch_times st' = total_epoch_times st
              @ [float_sub ops (time_time ops (ext (world st2))) start_epoch] \<and>
            results_file st' =
              Some \<lparr>saved_val_aps = val_aps st @ [val_ap],
                    saved_new_nodes_val_aps = new_nodes_val_aps st @ [res_ap nn_r],
                    saved_train_losses = train_losses st @ [np_mean ops (m_loss st2)],
                    saved_epoch_times = epoch_times st @ [t],
                    saved_total_epoch_times = total_epoch_times st\<rparr>"
    using e1 e2 e3 t by (simp add: st' ap)
  show ?thesis using th tr se by blast
qed

lemma epoch_body_series:
  assumes "epoch_body ops cfg d nb st = Inr (val_ap, st')" and "series_length st n"
  shows "series_length st' (Suc n) \<and> results_written st' (Suc n)"
proof -
  from epoch_body_effect [OF assms(1)] obtain nn_ap l t tt where
    "val_aps st' = val_aps st @ [val_ap]"
    "new_nodes_val_aps st' = new_nodes_val_aps st @ [nn_ap]"
    "train_losses st' = train_losses st @ [l]"
    "epoch_times st' = epoch_times st @ [t]"
    "total_epoch_times st' = total_epoch_times st @ [tt]"
    "results_file st' =
              Some \<lparr>saved_val_aps = val_aps st @ [val_ap],
                    saved_new_nodes_val_aps = new_nodes_val_aps st @ [nn_ap],
                    saved_train_losses = train_losses st @ [l],
                    saved_epoch_times = epoch_times st @ [t],
                    saved_total_epoch_times = total_epoch_times st\<rparr>"
    by blast
  with assms(2) show ?thesis by (simp add: series_length_def results_written_def)
qed

lemma early_stopping_kept:
  assumes "early_stopping ops epoch val_ap st = Inr (stop, st')"
  shows "kept st st'"
  using assms
  by (auto simp add: early_stopping_def Let_def kept_def log_def last_prediction_append
        split: prod.splits if_splits option.splits)

lemma kept_series:
  "kept st st' \<Longrightarrow> series_length st' n = series_length st n \<and>
     results_written st' n = results_written st n"
  by (auto simp add: kept_def series_length_def results_written_def split: option.splits)

lemma epoch_loop_series:
  assumes "series_length st n" and "0 < n \<longrightarrow> results_written st n"
    and "epoch_loop ops cfg d nb epochs st = Inr st'"
  shows "\<exists>k \<le> length epochs. series_length st' (n + k) \<and>
           (0 < n + k \<longrightarrow> results_written st' (n + k)) \<and> (epochs \<noteq> [] \<longrightarrow> 0 < k)"
  using assms
proof (induction epochs arbitrary: st n)
  case Nil
  then show ?case by simp
next
  case (Cons epoch epochs)
  from Cons.prems(3) obtain val_ap st1 where
    b: "epoch_body ops cfg d nb st = Inr (val_ap, st1)"
    by (auto split: sum.splits)
  from Cons.prems(3) b obtain stop st2 where
    s: "early_stopping ops epoch val_ap st1 = Inr (stop, st2)"
    by (auto split: sum.splits)
  from epoch_body_series [OF b] Cons.prems(1)
  have 1: "series_length st1 (Suc n)" "results_written st1 (Suc n)" by blast+
  from kept_series [OF early_stopping_kept [OF s]] 1
  have 2: "series_length st2 (Suc n)" "results_written st2 (Suc n)" by simp_all
  show ?case
  proof (cases stop)
    case True
    then have "st' = st2" using Cons.prems(3) b s by simp
    then show ?thesis using 2 by (intro exI [of _ 1]) simp
  next
    case False
    then have "epoch_loop ops cfg d nb epochs st2 = Inr st'" using Cons.prems(3) b s by simp
    from Cons.IH [OF 2(1) _ this] 2(2)
    obtain k where "k \<le> length epochs" "series_length st' (Suc n + k)"
      "0 < Suc n + k \<longrightarrow> results_written st' (Suc n + k)"
      by blast
    then show ?thesis by (intro exI [of _ "Suc k"]) simp
  qed
qed


lemma test_and_save_effect:
  assumes "test_and_save ops cfg st = Inr fin"
  shows "\<exists>th. thresholdOpt st = Some th \<and>
           trace fin = trace st
             @ (if USE_MEMORY cfg then [BackupMemory ValMemory, RestoreMemory ValMemory] else [])
             @ [EvalEdgeDetection th]
             @ (if USE_MEMORY cfg then [RestoreMemory ValMemory] else []) @ [SaveModel] \<and>
           model_file fin = Some (world fin) \<and>
           (USE_MEMORY cfg \<longrightarrow> memory (world fin) = memory (world st) \<and>
                                val_memory_backup fin = Some (memory (world st)) \<and>
                                world fin = (eval_edge_detection ops th
                                               ((world st)\<lparr>neighbor_finder := FullFinder\<rparr>))
                                              \<lparr>memory := memory (world st)\<rparr>) \<and>
           val_aps fin = val_aps st \<and> new_nodes_val_aps fin = new_nodes_val_aps st \<and>
           train_losses fin = train_losses st \<and> epoch_times fin = epoch_times st \<and>
           total_epoch_times fin = total_epoch_times st \<and> results_file fin = results_file st"
  using assms
  by (auto simp add: test_and_save_def Let_def do_backup_memory_def do_restore_memory_def
        set_neighbor_finder_def set_memory_def log_def backup_memory_def restore_memory_def
        split: if_splits sum.splits option.splits)

subsection \<open>The finished run\<close>

text \<open>The small run, evaluated once.\<close>

lemma small_run:
  "map_sum id observe (run counting_ops small_config small_data new_world Map.empty)
     = Inr ([InitMemory,
        TrainBatch 0 0 2 ([1, 2], [4, 5], [1, 2], [10, 20]),
        TrainBatch 1 2 4 ([3, 1], [6, 5], [3, 4], [30, 40]), OptimizerStep, DetachMemory,
        TrainBatch 2 4 6 ([2, 3], [4, 6], [5, 6], [50, 60]), OptimizerStep, DetachMemory,
        BackupMemory TrainMemory, EvalEdgePrediction ValData 1,
        BackupMemory ValMemory, RestoreMemory TrainMemory,
        EvalEdgePrediction NewNodeValData 2, RestoreMemory ValMemory, PickleDump,
        SaveCheckpoint 0,
        InitMemory,
        TrainBatch 0 0 2 ([1, 2], [4, 5], [1, 2], [10, 20]),
        TrainBatch 1 2 4 ([3, 1], [6, 5], [3, 4], [30, 40]), OptimizerStep, DetachMemory,
        TrainBatch 2 4 6 ([2, 3], [4, 6], [5, 6], [50, 60]), OptimizerStep, DetachMemory,
        BackupMemory TrainMemory, EvalEdgePrediction ValData 1,
        BackupMemory ValMemory, RestoreMemory TrainMemory,
        EvalEdgePrediction NewNodeValData 2, RestoreMemory ValMemory, PickleDump,
        LoadStateDict 0,
        BackupMemory ValMemory, RestoreMemory ValMemory, EvalEdgeDetection 2,
        RestoreMemory ValMemory, SaveModel],
       \<lparr>ext = 2, memory = 14, neighbor_finder = FullFinder\<rparr>, Some 10, Some 14, Some 2,
       Some \<lparr>saved_val_aps = [7, 7], saved_new_nodes_val_aps = [9, 9],
             saved_train_losses = [3, 3], saved_epoch_times = [2, 2],
             saved_total_epoch_times = [2]\<rparr>,
       ([7, 7], [9, 9], [3, 3], [2, 2], [2, 2]),
       Some \<lparr>ext = 2, memory = 14, neighbor_finder = FullFinder\<rparr>)"
  by code_simp

lemma run_parts:
  assumes "run ops cfg d w files = Inr fin"
  shows "\<exists>st. epoch_loop ops cfg d (ceil_div (int (length (sources d))) (BATCH_SIZE cfg))
                [0 .. NUM_EPOCH cfg - 1] (initial_state w files) = Inr st \<and>
              test_and_save ops cfg st = Inr fin"
  using assms by (auto simp add: run_def Let_def split: if_splits sum.splits)

text \<open>
  C8, amended. Every epoch ends with a write of the results file, before the early-stop
  check, so also in the epoch that ends the run. The file holds, each under its own key,
  the series of validation APs, of new-node validation APs, of training losses and of
  epoch times, to each of which the epoch has appended its entry (the validation AP being
  the one the epoch hands to the early-stop check), and the series of total epoch times
  as it was before the epoch, whose entry for the current epoch is appended only after
  the write; no AUC is among its fields. When \<open>n\<close> epochs were completed before it, the
  four series in the file have \<open>n + 1\<close> entries and the total epoch times \<open>n\<close>. A finished
  run of \<open>k\<close> epochs leaves the file of its last epoch: the first four series of the
  script in full, \<open>k\<close> entries each, and the first \<open>k - 1\<close> of its \<open>k\<close> total epoch times.
\<close>

theorem results_each_epoch:
  "(series_length st n \<and> epoch_body ops cfg d nb st = Inr (val_ap, st') \<longrightarrow>
      (\<exists>evs. trace st' = trace st @ evs @ [PickleDump]) \<and>
      (\<exists>nn_ap l t tt.
         val_aps st' = val_aps st @ [val_ap] \<and>
         new_nodes_val_aps st' = new_nodes_val_aps st @ [nn_ap] \<and>
         train_losses st' = train_losses st @ [l] \<and>
         epoch_times st' = epoch_times st @ [t] \<and>
         total_epoch_times st' = total_epoch_times st @ [tt] \<and>
         results_file st' =
           Some \<lparr>saved_val_aps = val_aps st @ [val_ap],
                 saved_new_nodes_val_aps = new_nodes_val_aps st @ [nn_ap],
                 saved_train_losses = train_losses st @ [l],
                 saved_epoch_times = epoch_times st @ [t],
                 saved_total_epoch_times = total_epoch_times st\<rparr>) \<and>
      results_written st' (Suc n) \<and> series_length st' (Suc n)) \<and>
   (run ops cfg d w files = Inr fin \<longrightarrow>
      (\<exists>k. 0 < k \<and> int k \<le> NUM_EPOCH cfg \<and> series_length fin k \<and> results_written fin k))"
proof (rule conjI; rule impI)
  assume a: "series_length st n \<and> epoch_body ops cfg d nb st = Inr (val_ap, st')"
  then have b: "epoch_body ops cfg d nb st = Inr (val_ap, st')" and s: "series_length st n"
    by simp_all
  from epoch_body_effect [OF b] epoch_body_series [OF b s]
  show "(\<exists>evs. trace st' = trace st @ evs @ [PickleDump]) \<and>
      (\<exists>nn_ap l t tt.
         val_aps st' = val_aps st @ [val_ap] \<and>
         new_nodes_val_aps st' = new_nodes_val_aps st @ [nn_ap] \<and>
         train_losses st' = train_losses st @ [l] \<and>
         epoch_times st' = epoch_times st @ [t] \<and>
         total_epoch_times st' = total_epoch_times st @ [tt] \<and>
         results_file st' =
           Some \<lparr>saved_val_aps = val_aps st @ [val_ap],
                 saved_new_nodes_val_aps = new_nodes_val_aps st @ [nn_ap],
                 saved_train_losses = train_losses st @ [l],
                 saved_epoch_times = epoch_times st @ [t],
                 saved_total_epoch_times = total_epoch_times st\<rparr>) \<and>
      results_written st' (Suc n) \<and> series_length st' (Suc n)"
    by blast
next
  assume r: "run ops cfg d w files = Inr fin"
  from run_parts [OF r] obtain s where
    l: "epoch_loop ops cfg d (ceil_div (int (length (sources d))) (BATCH_SIZE cfg))
          [0 .. NUM_EPOCH cfg - 1] (initial_state w files) = Inr s"
    and t: "test_and_save ops cfg s = Inr fin"
    by blast
  from test_and_save_effect [OF t] obtain th where th: "thresholdOpt s = Some th" by blast
  have ne: "[0 .. NUM_EPOCH cfg - 1] \<noteq> []"
  proof
    assume "[0 .. NUM_EPOCH cfg - 1] = []"
    with l have "s = initial_state w files" by simp
    with th show False by (simp add: initial_state_def)
  qed
  have i: "series_length (initial_state w files :: ('a, 'b, 'c) state) 0"
    by (simp add: series_length_def initial_state_def)
  from epoch_loop_series [OF i _ l] ne
  obtain k where k: "k \<le> length [0 .. NUM_EPOCH cfg - 1]" "series_length s k"
    "0 < k \<longrightarrow> results_written s k" "0 < k"
    by auto
  have "int k \<le> NUM_EPOCH cfg" using k(1) k(4) by simp
  moreover have "series_length fin k \<and> results_written fin k"
    using test_and_save_effect [OF t] k(2,3,4)
    by (auto simp add: series_length_def results_written_def split: option.splits)
  ultimately show "\<exists>k. 0 < k \<and> int k \<le> NUM_EPOCH cfg \<and> series_length fin k \<and> results_written fin k"
    using k(4) by blast
qed

theorem results_each_epoch_witness:
  "series_length (initial_state new_world Map.empty :: (nat, nat, nat) state) 0 \<and>
   (\<exists>val_ap st'.
      epoch_body counting_ops small_config small_data 3 (initial_state new_world Map.empty)
        = Inr (val_ap, st') \<and>
      results_written st' 1 \<and> series_length st' 1 \<and>
      results_file st'
        = Some \<lparr>saved_val_aps = [7], saved_new_nodes_val_aps = [9], saved_train_losses = [3],
                saved_epoch_times = [2], saved_total_epoch_times = []\<rparr> \<and>
      total_epoch_times st' = [2]) \<and>
   (\<exists>fin. run counting_ops small_config small_data new_world Map.empty = Inr fin \<and>
      results_written fin 2 \<and> series_length fin 2 \<and>
      results_file fin
        = Some \<lparr>saved_val_aps = [7, 7], saved_new_nodes_val_aps = [9, 9],
                saved_train_losses = [3, 3], saved_epoch_times = [2, 2],
                saved_total_epoch_times = [2]\<rparr> \<and>
      total_epoch_times fin = [2, 2])"
proof -
  let ?st0 = "initial_state new_world Map.empty :: (nat, nat, nat) state"
  have s0: "series_length ?st0 0"
    by (simp add: series_length_def initial_state_def)
  from observed_epoch [OF small_epoch] obtain st' :: "(nat, nat, nat) state" where
    e: "epoch_body counting_ops small_config small_data 3 ?st0 = Inr (7, st')"
    and oe: "observe st' =
      ([InitMemory,
        TrainBatch 0 0 2 ([1, 2], [4, 5], [1, 2], [10, 20]),
        TrainBatch 1 2 4 ([3, 1], [6, 5], [3, 4], [30, 40]), OptimizerStep, DetachMemory,
        TrainBatch 2 4 6 ([2, 3], [4, 6], [5, 6], [50, 60]), OptimizerStep, DetachMemory,
        BackupMemory TrainMemory, EvalEdgePrediction ValData 1,
        BackupMemory ValMemory, RestoreMemory TrainMemory,
        EvalEdgePrediction NewNodeValData 2, RestoreMemory ValMemory, PickleDump],
       \<lparr>ext = 2, memory = 14, neighbor_finder = FullFinder\<rparr>, Some 4, Some 14, Some 2,
       Some \<lparr>saved_val_aps = [7], saved_new_nodes_val_aps = [9], saved_train_losses = [3],
             saved_epoch_times = [2], saved_total_epoch_times = []\<rparr>,
       ([7], [9], [3], [2], [2]), None)"
    by blast
  from observed_state [OF small_run] obtain fin :: "(nat, nat, nat) state" where
    r: "run counting_ops small_config small_data new_world Map.empty = Inr fin"
    and o: "results_file fin
        = Some \<lparr>saved_val_aps = [7, 7], saved_new_nodes_val_aps = [9, 9],
                saved_train_losses = [3, 3], saved_epoch_times = [2, 2],
                saved_total_epoch_times = [2]\<rparr>"
      "val_aps fin = [7, 7]" "total_epoch_times fin = [2, 2]"
    by (auto simp add: observe_def)
  note t = results_each_epoch [of ?st0 0 counting_ops small_config small_data 3 7 st'
      new_world Map.empty fin]
  from t s0 e have 1: "results_written st' 1" "series_length st' 1" by simp_all
  from t r obtain k where k: "0 < k" "int k \<le> NUM_EPOCH small_config" "series_length fin k"
    "results_written fin k"
    by blast
  have "length (val_aps fin) = 2" using o(2) by simp
  with k(3) have "k = 2" by (simp add: series_length_def)
  with k s0 1 e r o oe show ?thesis by (auto simp add: observe_def)
qed

text \<open>
  The write of the first epoch holds one entry in the series of validation APs and none in
  the series of total epoch times.
\<close>

theorem results_lack_total_time:
  "\<exists>val_ap st' r.
     epoch_body counting_ops small_config small_data 3 (initial_state new_world Map.empty)
       = Inr (val_ap, st') \<and>
     results_file st' = Some r \<and>
     r = \<lparr>saved_val_aps = [7], saved_new_nodes_val_aps = [9], saved_train_losses = [3],
          saved_epoch_times = [2], saved_total_epoch_times = []\<rparr> \<and>
     length (saved_val_aps r) = 1 \<and> length (saved_total_epoch_times r) = 0"
proof -
  from observed_epoch [OF small_epoch] obtain st' :: "(nat, nat, nat) state" where
    "epoch_body counting_ops small_config small_data 3 (initial_state new_world Map.empty)
       = Inr (7, st')"
    and "results_file st'
        = Some \<lparr>saved_val_aps = [7], saved_new_nodes_val_aps = [9], saved_train_losses = [3],
                saved_epoch_times = [2], saved_total_epoch_times = []\<rparr>"
    by (auto simp add: observe_def)
  then show ?thesis by simp
qed




text \<open>
  C2. With memory enabled, the memory in the model file of a finished run is the live memory
  at the moment of the save, and it equals the val-memory snapshot taken after the last
  epoch and before the test: the snapshot is restored before the test on unseen nodes,
  which may change the memory, and again right before the save. The saved state is what
  the test has made of the state after the last epoch, with the memory of that state put
  back.
\<close>

theorem saved_memory_is_validation_memory:
  assumes um: "USE_MEMORY cfg" and r: "run ops cfg d w files = Inr fin"
  shows "\<exists>st th.
           epoch_loop ops cfg d (ceil_div (int (length (sources d))) (BATCH_SIZE cfg))
             [0 .. NUM_EPOCH cfg - 1] (initial_state w files) = Inr st \<and>
           trace fin = trace st @ [BackupMemory ValMemory, RestoreMemory ValMemory,
                                   EvalEdgeDetection th, RestoreMemory ValMemory, SaveModel] \<and>
           val_memory_backup fin = Some (memory (world st)) \<and>
           model_file fin = Some (world fin) \<and>
           memory (world fin) = memory (world st) \<and>
           world fin = (eval_edge_detection ops th ((world st)\<lparr>neighbor_finder := FullFinder\<rparr>))
                         \<lparr>memory := memory (world st)\<rparr>"
proof -
  from run_parts [OF r] obtain s where
    l: "epoch_loop ops cfg d (ceil_div (int (length (sources d))) (BATCH_SIZE cfg))
          [0 .. NUM_EPOCH cfg - 1] (initial_state w files) = Inr s"
    and t: "test_and_save ops cfg s = Inr fin"
    by blast
  from test_and_save_effect [OF t] um obtain th where
    "trace fin = trace s @ [BackupMemory ValMemory, RestoreMemory ValMemory,
                                   EvalEdgeDetection th, RestoreMemory ValMemory, SaveModel]"
    "val_memory_backup fin = Some (memory (world s))"
    "model_file fin = Some (world fin)" "memory (world fin) = memory (world s)"
    "world fin = (eval_edge_detection ops th ((world s)\<lparr>neighbor_finder := FullFinder\<rparr>))
                   \<lparr>memory := memory (world s)\<rparr>"
    by auto
  with l show ?thesis by blast
qed

theorem saved_memory_is_validation_memory_witness:
  "USE_MEMORY small_config \<and>
   (\<exists>fin. run counting_ops small_config small_data new_world Map.empty = Inr fin \<and>
      model_file fin = Some \<lparr>ext = 2, memory = 14, neighbor_finder = FullFinder\<rparr> \<and>
      world fin = \<lparr>ext = 2, memory = 14, neighbor_finder = FullFinder\<rparr> \<and>
      val_memory_backup fin = Some 14) \<and>
   memory (eval_edge_detection counting_ops 2 \<lparr>ext = 2, memory = 14, neighbor_finder = FullFinder\<rparr>)
     = 114"
proof -
  from observed_state [OF small_run] obtain fin :: "(nat, nat, nat) state" where
    r: "run counting_ops small_config small_data new_world Map.empty = Inr fin"
    and o: "world fin = \<lparr>ext = 2, memory = 14, neighbor_finder = FullFinder\<rparr>"
      "val_memory_backup fin = Some 14"
    by (auto simp add: observe_def)
  have um: "USE_MEMORY small_config" by (simp add: small_config_def)
  from saved_memory_is_validation_memory [OF um r]
  have "model_file fin = Some (world fin)" by blast
  moreover have "memory (eval_edge_detection counting_ops 2
                   \<lparr>ext = 2, memory = 14, neighbor_finder = FullFinder\<rparr>) = 114"
    by (simp add: counting_ops_def)
  ultimately show ?thesis using um r o by auto
qed
end
